(* ===== verification/Prelude.thy ===== *)
theory Prelude
  imports Main "HOL-Library.AList" "HOL-Library.List_Lexorder" "HOL-Library.Char_ord"
    "HOL-Library.Option_ord" "HOL-Library.Product_Lexorder" "HOL-Library.Multiset"
begin

text \<open>
  What every component of the development shares: the errors a Python script can end with, the
  insertion-ordered dictionary (as an interface and as an association list), the order-keeping
  removal of duplicates that \<open>dict.fromkeys\<close> performs, grouping into a dictionary of lists,
  comparison-based \<open>sorted\<close> and \<open>max\<close>, and the theorem collections of the library.
\<close>

named_theorems dict_simps \<open>lookup and key lists of dictionaries\<close>

named_theorems group_simps \<open>what a dictionary of lists holds after grouping\<close>

section \<open>Errors\<close>

text \<open>
  The exceptions the scripts raise or let through. \<open>SystemExit\<close> carries the message given to
  \<open>raise SystemExit\<close>.
\<close>

datatype py_error =
    SystemExit string
  | RuntimeError string
  | KeyError string
  | ValueError
  | TypeError
  | AttributeError
  | IndexError
  | ZeroDivisionError
  | OverflowError
  | JSONDecodeError
  | CsvError
  | StopIteration
  | FileNotFoundError
  | PermissionError

type_synonym 'a result = "py_error + 'a"

definition bind_result :: "'a result \<Rightarrow> ('a \<Rightarrow> 'b result) \<Rightarrow> 'b result" where
  "bind_result m f = (case m of Inl e \<Rightarrow> Inl e | Inr x \<Rightarrow> f x)"

lemma bind_result_simps [simp]:
  "bind_result (Inl e) f = Inl e"
  "bind_result (Inr x) f = f x"
  by (simp_all add: bind_result_def)

lemma bind_result_Inr:
  "bind_result m f = Inr y \<longleftrightarrow> (\<exists>x. m = Inr x \<and> f x = Inr y)"
  by (cases m) simp_all

text \<open>A loop that stops at the first exception.\<close>

fun fold_result :: "('a \<Rightarrow> 's \<Rightarrow> 's result) \<Rightarrow> 'a list \<Rightarrow> 's \<Rightarrow> 's result" where
  "fold_result f [] s = Inr s"
| "fold_result f (x # xs) s = bind_result (f x s) (fold_result f xs)"

lemma fold_result_append:
  "fold_result f (xs @ ys) s = bind_result (fold_result f xs s) (fold_result f ys)"
proof (induction xs arbitrary: s)
  case Nil
  then show ?case by simp
next
  case (Cons x xs)
  then show ?case by (cases "f x s") simp_all
qed

fun map_result :: "('a \<Rightarrow> 'b result) \<Rightarrow> 'a list \<Rightarrow> 'b list result" where
  "map_result f [] = Inr []"
| "map_result f (x # xs) =
     bind_result (f x) (\<lambda>y. bind_result (map_result f xs) (\<lambda>ys. Inr (y # ys)))"

lemma map_result_Inr:
  "map_result f xs = Inr ys \<longleftrightarrow> list_all2 (\<lambda>x y. f x = Inr y) xs ys"
proof (induction xs arbitrary: ys)
  case Nil
  then show ?case by auto
next
  case (Cons x xs)
  then show ?case by (cases ys) (auto simp: bind_result_Inr)
qed

lemma map_result_total:
  "(\<And>x. x \<in> set xs \<Longrightarrow> f x = Inr (g x)) \<Longrightarrow> map_result f xs = Inr (map g xs)"
  by (induction xs) simp_all

section \<open>Removing duplicates, first occurrence kept\<close>

text \<open>The key order of \<open>dict.fromkeys(xs)\<close>.\<close>

definition uniq :: "'a list \<Rightarrow> 'a list" where
  "uniq xs = fold (\<lambda>x acc. if x \<in> set acc then acc else acc @ [x]) xs []"

lemma uniq_Nil [simp]: "uniq [] = []"
  by (simp add: uniq_def)

lemma uniq_snoc: "uniq (xs @ [x]) = (if x \<in> set (uniq xs) then uniq xs else uniq xs @ [x])"
  by (simp add: uniq_def)

lemma set_uniq [simp]: "set (uniq xs) = set xs"
  by (induction xs rule: rev_induct) (auto simp: uniq_snoc)

lemma distinct_uniq [simp]: "distinct (uniq xs)"
  by (induction xs rule: rev_induct) (auto simp: uniq_snoc)

lemma uniq_eq_Nil [simp]: "uniq xs = [] \<longleftrightarrow> xs = []"
  by (metis set_empty set_uniq)

lemma uniq_append_subset:
  "set ys \<subseteq> set xs \<Longrightarrow> uniq (xs @ ys) = uniq xs"
proof (induction ys rule: rev_induct)
  case (snoc y ys)
  then show ?case by (simp add: uniq_snoc flip: append_assoc)
qed simp

lemma uniq_distinct: "distinct xs \<Longrightarrow> uniq xs = xs"
  by (induction xs rule: rev_induct) (auto simp: uniq_snoc)

lemma sort_uniq_cong: "set xs = set ys \<Longrightarrow> sort (uniq xs) = sort (uniq ys)"
  by (rule sorted_distinct_set_unique) simp_all

section \<open>Sorting by a key\<close>

lemma sort_key_order_cong:
  assumes "\<And>x y. f x \<le> f y \<longleftrightarrow> g x \<le> g y"
  shows "sort_key f xs = sort_key g xs"
proof -
  have "insort_key f x ys = insort_key g x ys" for x ys
    by (induction ys) (simp_all add: assms)
  then show ?thesis by (induction xs) simp_all
qed

lemma insort_key_map: "insort_key f (g x) (map g xs) = map g (insort_key (\<lambda>y. f (g y)) x xs)"
  by (induction xs) simp_all

lemma sort_key_map: "sort_key f (map g xs) = map g (sort_key (\<lambda>y. f (g y)) xs)"
  by (induction xs) (simp_all add: insort_key_map comp_def)

section \<open>The dictionary interface\<close>

text \<open>
  What the scripts use of \<open>dict\<close>: lookup, assignment, and iteration in insertion order, where
  assigning to a present key keeps its position.
\<close>

locale ordered_dict =
  fixes empty :: 'd
    and get :: "'d \<Rightarrow> 'k \<Rightarrow> 'v option"
    and put :: "'k \<Rightarrow> 'v \<Rightarrow> 'd \<Rightarrow> 'd"
    and keys :: "'d \<Rightarrow> 'k list"
    and wf :: "'d \<Rightarrow> bool"
  assumes wf_empty: "wf empty"
    and keys_empty: "keys empty = []"
    and wf_put: "wf d \<Longrightarrow> wf (put k v d)"
    and get_put: "wf d \<Longrightarrow> get (put k v d) k' = (if k' = k then Some v else get d k')"
    and keys_put: "wf d \<Longrightarrow> keys (put k v d) = (if k \<in> set (keys d) then keys d else keys d @ [k])"
    and keys_get: "wf d \<Longrightarrow> k \<in> set (keys d) \<longleftrightarrow> get d k \<noteq> None"
    and keys_distinct: "wf d \<Longrightarrow> distinct (keys d)"
begin

lemma wf_fold_put: "wf d \<Longrightarrow> wf (fold (\<lambda>x. put (f x) (g x)) xs d)"
  by (induction xs arbitrary: d) (simp_all add: wf_put)

lemma keys_fold_put: "keys (fold (\<lambda>x. put (f x) (g x)) xs empty) = uniq (map f xs)"
proof (induction xs rule: rev_induct)
  case Nil
  then show ?case by (simp add: keys_empty)
next
  case (snoc x xs)
  then show ?case by (simp add: uniq_snoc keys_put wf_fold_put wf_empty)
qed

lemma get_fold_put_notin:
  "wf d \<Longrightarrow> k \<notin> set (map f xs) \<Longrightarrow> get (fold (\<lambda>x. put (f x) (g x)) xs d) k = get d k"
  by (induction xs arbitrary: d) (auto simp: wf_put get_put)

lemma get_fold_put_in:
  "wf d \<Longrightarrow> x \<in> set xs \<Longrightarrow> inj_on f (set xs) \<Longrightarrow>
     get (fold (\<lambda>x. put (f x) (g x)) xs d) (f x) = Some (g x)"
proof (induction xs rule: rev_induct)
  case (snoc y ys)
  then show ?case
    by (auto simp: get_put wf_fold_put inj_on_def)
qed simp

end

text \<open>
  A dictionary of lists: \<open>d[k].append(x)\<close> on a \<open>defaultdict(list)\<close>, or
  \<open>d.setdefault(k, []).append(x)\<close>. Grouping keeps each group in input order and the keys in order
  of first occurrence.
\<close>

definition group_add ::
  "('d \<Rightarrow> 'k \<Rightarrow> 'a list option) \<Rightarrow> ('k \<Rightarrow> 'a list \<Rightarrow> 'd \<Rightarrow> 'd) \<Rightarrow> 'k \<Rightarrow> 'a \<Rightarrow> 'd \<Rightarrow> 'd" where
  "group_add get put k x d = put k (case get d k of None \<Rightarrow> [x] | Some xs \<Rightarrow> xs @ [x]) d"

locale list_dict = ordered_dict empty get put keys wf
  for empty :: 'd
    and get :: "'d \<Rightarrow> 'k \<Rightarrow> 'a list option"
    and put :: "'k \<Rightarrow> 'a list \<Rightarrow> 'd \<Rightarrow> 'd"
    and keys :: "'d \<Rightarrow> 'k list"
    and wf :: "'d \<Rightarrow> bool"
begin

lemma group_add_laws:
  assumes "wf d"
  shows "wf (group_add get put k x d)"
    and "keys (group_add get put k x d) = (if k \<in> set (keys d) then keys d else keys d @ [k])"
    and "get (group_add get put k x d) k' =
      (if k' = k then Some ((case get d k of None \<Rightarrow> [] | Some xs \<Rightarrow> xs) @ [x]) else get d k')"
  using assms by (auto simp: group_add_def wf_put keys_put get_put split: option.splits)

lemma wf_group: "wf (fold (\<lambda>x. group_add get put (f x) (g x)) xs empty)"
  by (induction xs rule: rev_induct) (simp_all add: wf_empty group_add_laws)

lemma keys_group: "keys (fold (\<lambda>x. group_add get put (f x) (g x)) xs empty) = uniq (map f xs)"
proof (induction xs rule: rev_induct)
  case Nil
  then show ?case by (simp add: keys_empty)
next
  case (snoc x xs)
  then show ?case
    by (simp add: uniq_snoc group_add_laws wf_group)
qed

lemma get_group:
  "get (fold (\<lambda>x. group_add get put (f x) (g x)) xs empty) k =
     (if k \<in> f ` set xs then Some (map g (filter (\<lambda>x. f x = k) xs)) else None)"
proof (induction xs rule: rev_induct)
  case Nil
  then show ?case using keys_get [OF wf_empty, of k] by (simp add: keys_empty)
next
  case (snoc x xs)
  let ?d = "fold (\<lambda>x. group_add get put (f x) (g x)) xs empty"
  have "(case get ?d (f x) of None \<Rightarrow> [] | Some ys \<Rightarrow> ys) = map g (filter (\<lambda>y. f y = f x) xs)"
    if "k = f x"
    using snoc that by (cases "f x \<in> f ` set xs") (auto simp: filter_empty_conv image_iff)
  then show ?case
    using snoc by (auto simp: group_add_laws wf_group)
qed

end

section \<open>Python's dictionary as an association list\<close>

type_synonym ('k, 'v) pydict = "('k \<times> 'v) list"

definition dict_set :: "'k \<Rightarrow> 'v \<Rightarrow> ('k, 'v) pydict \<Rightarrow> ('k, 'v) pydict" where
  "dict_set k v d = AList.update k v d"

definition dict_get :: "('k, 'v) pydict \<Rightarrow> 'k \<Rightarrow> 'v option" where
  "dict_get d k = map_of d k"

definition dict_get_or :: "'v \<Rightarrow> ('k, 'v) pydict \<Rightarrow> 'k \<Rightarrow> 'v" where
  "dict_get_or v d k = (case dict_get d k of None \<Rightarrow> v | Some x \<Rightarrow> x)"

definition dict_keys :: "('k, 'v) pydict \<Rightarrow> 'k list" where
  "dict_keys d = map fst d"

definition dict_wf :: "('k, 'v) pydict \<Rightarrow> bool" where
  "dict_wf d \<longleftrightarrow> distinct (map fst d)"

text \<open>\<open>d[k]\<close>: a missing key raises.\<close>

definition dict_index :: "(string, 'v) pydict \<Rightarrow> string \<Rightarrow> 'v result" where
  "dict_index d k = (case dict_get d k of None \<Rightarrow> Inl (KeyError k) | Some v \<Rightarrow> Inr v)"

text \<open>\<open>d.update(e)\<close> and a dictionary built from pairs.\<close>

definition dict_update :: "('k, 'v) pydict \<Rightarrow> ('k, 'v) pydict \<Rightarrow> ('k, 'v) pydict" where
  "dict_update d e = fold (\<lambda>(k, v). dict_set k v) e d"

lemma dict_get_set [dict_simps]:
  "dict_get (dict_set k v d) k' = (if k' = k then Some v else dict_get d k')"
  by (simp add: dict_get_def dict_set_def update_conv')

lemma dict_keys_set [dict_simps]:
  "dict_keys (dict_set k v d) =
     (if k \<in> set (dict_keys d) then dict_keys d else dict_keys d @ [k])"
  by (simp add: dict_keys_def dict_set_def update_keys)

lemma dict_wf_set [dict_simps]: "dict_wf d \<Longrightarrow> dict_wf (dict_set k v d)"
  by (simp add: dict_wf_def dict_set_def distinct_update)

lemma dict_wf_Nil [dict_simps]: "dict_wf []"
  by (simp add: dict_wf_def)

lemma dict_keys_Nil [dict_simps]: "dict_keys [] = []"
  by (simp add: dict_keys_def)

lemma dict_get_Nil [dict_simps]: "dict_get [] k = None"
  by (simp add: dict_get_def)

lemma dict_keys_get: "k \<in> set (dict_keys d) \<longleftrightarrow> dict_get d k \<noteq> None"
  by (simp add: dict_keys_def dict_get_def map_of_eq_None_iff)

interpretation pd: ordered_dict "[]" dict_get dict_set dict_keys dict_wf
  by unfold_locales (auto simp: dict_simps dict_keys_get, simp add: dict_wf_def dict_keys_def)

interpretation pl: list_dict "[]" dict_get dict_set dict_keys dict_wf
  by unfold_locales

lemma dict_index_Inr [dict_simps]: "dict_index d k = Inr v \<longleftrightarrow> dict_get d k = Some v"
  by (simp add: dict_index_def split: option.splits)

lemma dict_get_update_notin:
  "k \<notin> set (dict_keys e) \<Longrightarrow> dict_get (dict_update d e) k = dict_get d k"
proof (induction e arbitrary: d)
  case (Cons x e)
  then show ?case
    by (cases x) (simp add: dict_update_def dict_keys_def dict_simps)
qed (simp add: dict_update_def)

lemma dict_get_update_in:
  "dict_wf e \<Longrightarrow> dict_get e k = Some v \<Longrightarrow> dict_get (dict_update d e) k = Some v"
proof (induction e arbitrary: d)
  case (Cons x e)
  obtain k1 v1 where x: "x = (k1, v1)" by (cases x)
  show ?case
  proof (cases "k1 = k")
    case True
    with Cons.prems x have "k \<notin> set (dict_keys e)" and "v1 = v"
      by (auto simp: dict_wf_def dict_keys_def dict_get_def)
    then show ?thesis
      using x True dict_get_update_notin [of k e "dict_set k v d"]
      by (simp add: dict_update_def dict_simps)
  next
    case False
    with Cons.prems x have "dict_wf e" and "dict_get e k = Some v"
      by (auto simp: dict_wf_def dict_get_def)
    then show ?thesis using Cons.IH x by (simp add: dict_update_def)
  qed
qed (simp add: dict_get_def)

lemma set_dict_keys_update:
  "set (dict_keys (dict_update d e)) = set (dict_keys d) \<union> set (dict_keys e)"
proof (induction e arbitrary: d)
  case (Cons x e)
  then show ?case
    by (cases x) (auto simp: dict_update_def dict_keys_def dict_set_def dom_update)
qed (simp add: dict_update_def dict_keys_def)

lemma dict_wf_update: "dict_wf d \<Longrightarrow> dict_wf (dict_update d e)"
proof (induction e arbitrary: d)
  case (Cons x e)
  then show ?case by (cases x) (simp add: dict_update_def dict_simps)
qed (simp add: dict_update_def)

section \<open>Grouping\<close>

definition group_by :: "('a \<Rightarrow> 'k) \<Rightarrow> ('a \<Rightarrow> 'b) \<Rightarrow> 'a list \<Rightarrow> ('k, 'b list) pydict" where
  "group_by f g xs = fold (\<lambda>x. group_add dict_get dict_set (f x) (g x)) xs []"

lemma dict_wf_group_by [group_simps]: "dict_wf (group_by f g xs)"
  by (simp add: group_by_def pl.wf_group)

lemma dict_keys_group_by [group_simps]: "dict_keys (group_by f g xs) = uniq (map f xs)"
  by (simp add: group_by_def pl.keys_group)

lemma dict_get_group_by [group_simps]:
  "dict_get (group_by f g xs) k =
     (if k \<in> f ` set xs then Some (map g (filter (\<lambda>x. f x = k) xs)) else None)"
  by (simp add: group_by_def pl.get_group)

lemma dict_items_eq:
  "dict_wf d \<Longrightarrow> d = map (\<lambda>k. (k, the (dict_get d k))) (dict_keys d)"
  by (auto simp: dict_wf_def dict_get_def dict_keys_def intro!: map_idI [symmetric])

text \<open>The whole dictionary, as a list of items in iteration order.\<close>

lemma group_by_eq [group_simps]:
  "group_by f g xs = map (\<lambda>k. (k, map g (filter (\<lambda>x. f x = k) xs))) (uniq (map f xs))"
proof -
  have "group_by f g xs =
      map (\<lambda>k. (k, the (dict_get (group_by f g xs) k))) (uniq (map f xs))"
    using dict_items_eq [OF dict_wf_group_by, of f g xs] by (simp add: dict_keys_group_by)
  also have "\<dots> = map (\<lambda>k. (k, map g (filter (\<lambda>x. f x = k) xs))) (uniq (map f xs))"
    by (rule map_cong) (auto simp: dict_get_group_by)
  finally show ?thesis .
qed


lemma group_by_map: "group_by f g (map h xs) = group_by (\<lambda>x. f (h x)) (\<lambda>x. g (h x)) xs"
  by (simp add: group_by_def fold_map comp_def)

lemma map_result_exists:
  "(\<And>x. x \<in> set xs \<Longrightarrow> \<exists>y. f x = Inr y) \<Longrightarrow> \<exists>ys. map_result f xs = Inr ys"
  by (induction xs) fastforce+

lemma map_result_Inl:
  "map_result f xs = Inl e \<Longrightarrow> \<exists>x \<in> set xs. f x = Inl e"
proof (induction xs)
  case (Cons x xs)
  then show ?case by (cases "f x"; cases "map_result f xs") auto
qed simp

section \<open>Counters\<close>

text \<open>\<open>collections.Counter(xs)\<close>, and one step \<open>c[x] += 1\<close> of it.\<close>

definition bump :: "'k \<Rightarrow> ('k, nat) pydict \<Rightarrow> ('k, nat) pydict" where
  "bump x c = dict_set x (dict_get_or 0 c x + 1) c"

definition counter :: "'k list \<Rightarrow> ('k, nat) pydict" where
  "counter xs = fold bump xs []"

lemma counter_snoc: "counter (xs @ [x]) = bump x (counter xs)"
  by (simp add: counter_def)

lemma dict_get_counter [group_simps]:
  "dict_get (counter xs) x = (if x \<in> set xs then Some (count_list xs x) else None)"
proof (induction xs rule: rev_induct)
  case (snoc y xs)
  then show ?case
    by (auto simp: counter_snoc bump_def dict_simps dict_get_or_def)
qed (simp add: counter_def dict_simps)

lemma dict_keys_counter [group_simps]: "dict_keys (counter xs) = uniq (map (\<lambda>x. x) xs)"
proof (induction xs rule: rev_induct)
  case (snoc x xs)
  then show ?case by (simp add: counter_snoc bump_def dict_simps uniq_snoc)
qed (simp add: counter_def dict_simps)

lemma dict_wf_counter [group_simps]: "dict_wf (counter xs)"
  by (induction xs rule: rev_induct) (simp_all add: counter_snoc bump_def dict_simps, simp add: counter_def dict_simps)

lemma counter_eq: "counter xs = map (\<lambda>x. (x, count_list xs x)) (uniq xs)"
proof -
  have "counter xs = map (\<lambda>k. (k, the (dict_get (counter xs) k))) (uniq xs)"
    using dict_items_eq [OF dict_wf_counter, of xs] by (simp add: dict_keys_counter)
  also have "\<dots> = map (\<lambda>x. (x, count_list xs x)) (uniq xs)"
    by (rule map_cong) (auto simp: dict_get_counter)
  finally show ?thesis .
qed

lemma sum_counter: "sum_list (map snd (counter xs)) = length xs"
proof -
  have "sum_list (map snd (counter xs)) = (\<Sum>x \<in> set xs. count_list xs x)"
    by (simp add: counter_eq comp_def sum_list_distinct_conv_sum_set)
  then show ?thesis by (simp add: sum_count_set)
qed

end
