(* ===== verification/Py_Text.thy ===== *)
theory Py_Text
  imports Prelude
begin

text \<open>
  The string operations the scripts call. A Python string is the list of its code points,
  which are below 256 here, and comparison is by code point; white space and digits are the ASCII ones,
  and numbers have fewer digits than the 4300 at which Python refuses to convert them.
\<close>

section \<open>Strip, replace, join\<close>

definition is_space :: "char \<Rightarrow> bool" where
  "is_space c \<longleftrightarrow> (let n = of_char c :: nat in 9 \<le> n \<and> n \<le> 13 \<or> 28 \<le> n \<and> n \<le> 32)"

definition strip :: "string \<Rightarrow> string" where
  "strip s = rev (dropWhile is_space (rev (dropWhile is_space s)))"

lemma dropWhile_id: "xs = [] \<or> \<not> P (hd xs) \<Longrightarrow> dropWhile P xs = xs"
  by (cases xs) auto

lemma strip_id: "s = [] \<or> \<not> is_space (hd s) \<and> \<not> is_space (last s) \<Longrightarrow> strip s = s"
  by (auto simp: strip_def dropWhile_id hd_rev)

text \<open>\<open>s.replace(c, r)\<close> for a pattern of one character.\<close>

definition replace_char :: "char \<Rightarrow> string \<Rightarrow> string \<Rightarrow> string" where
  "replace_char c r s = concat (map (\<lambda>x. if x = c then r else [x]) s)"

lemma replace_char_simps [simp]:
  "replace_char c r [] = []"
  "replace_char c r (x # xs) = (if x = c then r else [x]) @ replace_char c r xs"
  by (simp_all add: replace_char_def)

lemma replace_char_append [simp]:
  "replace_char c r (xs @ ys) = replace_char c r xs @ replace_char c r ys"
  by (simp add: replace_char_def)

lemma replace_char_notin: "c \<notin> set s \<Longrightarrow> replace_char c r s = s"
  by (induction s) auto

fun join :: "string \<Rightarrow> string list \<Rightarrow> string" where
  "join sep [] = []"
| "join sep [x] = x"
| "join sep (x # y # xs) = x @ sep @ join sep (y # xs)"

text \<open>\<open>s.replace("true:", "")\<close> and its kind: a pattern of several characters.\<close>

fun replace_str :: "string \<Rightarrow> string \<Rightarrow> nat \<Rightarrow> string \<Rightarrow> string" where
  "replace_str p r 0 s = s"
| "replace_str p r (Suc n) [] = []"
| "replace_str p r (Suc n) (c # cs) =
     (if take (length p) (c # cs) = p then r @ replace_str p r n (drop (length p) (c # cs))
      else c # replace_str p r n cs)"

section \<open>Decimal text of integers\<close>

definition digit_char :: "int \<Rightarrow> char" where
  "digit_char d = char_of (nat (48 + d))"

text \<open>The digits of a number that is not negative.\<close>

function dec_str :: "int \<Rightarrow> string" where
  "dec_str n = (if n < 10 then [digit_char n] else dec_str (n div 10) @ [digit_char (n mod 10)])"
  by pat_completeness auto
termination
  by (relation "measure nat") auto

declare dec_str.simps [simp del]

definition int_str :: "int \<Rightarrow> string" where
  "int_str i = (if i < 0 then CHR ''-'' # dec_str (- i) else dec_str i)"

abbreviation nat_str :: "nat \<Rightarrow> string" where
  "nat_str n \<equiv> int_str (int n)"

section \<open>Reading integers\<close>

text \<open>The value of a digit in a base up to 36.\<close>

definition digit_val :: "int \<Rightarrow> char \<Rightarrow> int option" where
  "digit_val base c =
     (let n = of_char c :: int;
          v = (if 48 \<le> n \<and> n \<le> 57 then Some (n - 48)
               else if 97 \<le> n \<and> n \<le> 122 then Some (n - 87)
               else if 65 \<le> n \<and> n \<le> 90 then Some (n - 55) else None)
      in case v of None \<Rightarrow> None | Some d \<Rightarrow> if d < base then Some d else None)"

text \<open>
  Digits with single underscores between them; the flag says whether the previous character was a
  digit, so a leading, trailing or doubled underscore and an empty numeral are rejected.
\<close>

fun scan_digits :: "int \<Rightarrow> bool \<Rightarrow> int \<Rightarrow> string \<Rightarrow> int option" where
  "scan_digits base prev acc [] = (if prev then Some acc else None)"
| "scan_digits base prev acc (c # cs) =
     (if c = CHR ''_'' then (if prev then scan_digits base False acc cs else None)
      else case digit_val base c of
          None \<Rightarrow> None
        | Some d \<Rightarrow> scan_digits base True (acc * base + d) cs)"

fun split_sign :: "string \<Rightarrow> bool \<times> string" where
  "split_sign [] = (False, [])"
| "split_sign (c # cs) =
     (if c = CHR ''-'' then (True, cs) else if c = CHR ''+'' then (False, cs) else (False, c # cs))"

definition with_sign :: "bool \<Rightarrow> int \<Rightarrow> int" where
  "with_sign neg n = (if neg then - n else n)"

text \<open>\<open>int(s)\<close>; \<open>None\<close> is \<open>ValueError\<close>.\<close>

definition py_int :: "string \<Rightarrow> int option" where
  "py_int s = (let (neg, body) = split_sign (strip s)
     in map_option (with_sign neg) (scan_digits 10 False 0 body))"

text \<open>\<open>int(s, 0)\<close>: a prefix selects the base, and a decimal numeral may not start with 0 unless it
  is zero.\<close>

definition base_prefix :: "string \<Rightarrow> int option" where
  "base_prefix p = (if p \<in> {''0x'', ''0X''} then Some 16
     else if p \<in> {''0o'', ''0O''} then Some 8
     else if p \<in> {''0b'', ''0B''} then Some 2 else None)"

definition scan_base0 :: "string \<Rightarrow> int option" where
  "scan_base0 body = (case base_prefix (take 2 body) of
      Some base \<Rightarrow>
        (let rest = drop 2 body
         in scan_digits base False 0 (if take 1 rest = ''_'' then drop 1 rest else rest))
    | None \<Rightarrow>
        (case scan_digits 10 False 0 body of
            None \<Rightarrow> None
          | Some n \<Rightarrow> if take 1 body = ''0'' \<and> n \<noteq> 0 then None else Some n))"

definition py_int0 :: "string \<Rightarrow> int option" where
  "py_int0 s = (let (neg, body) = split_sign (strip s) in map_option (with_sign neg) (scan_base0 body))"

subsection \<open>Reading back what was printed\<close>

lemma of_char_digit: "0 \<le> d \<Longrightarrow> d < 10 \<Longrightarrow> (of_char (digit_char d) :: nat) = nat (48 + d)"
  by (simp add: digit_char_def)

lemma of_char_digit_int: "0 \<le> d \<Longrightarrow> d < 10 \<Longrightarrow> (of_char (digit_char d) :: int) = 48 + d"
  using of_char_digit [of d] of_nat_of_char [of "digit_char d", where 'a = int] by simp

lemma digit_val_digit [simp]: "0 \<le> d \<Longrightarrow> d < 10 \<Longrightarrow> digit_val 10 (digit_char d) = Some d"
  by (simp add: digit_val_def of_char_digit_int Let_def)

lemma digit_char_plain:
  assumes "0 \<le> d" and "d < 10"
  shows "digit_char d \<noteq> CHR ''_''" and "digit_char d \<noteq> CHR ''-''" and "digit_char d \<noteq> CHR ''+''"
    and "\<not> is_space (digit_char d)"
proof -
  have n: "(of_char (digit_char d) :: nat) = nat (48 + d)" using assms by (rule of_char_digit)
  have "(of_char (digit_char d) :: nat) \<notin> {of_char (CHR ''_''), of_char (CHR ''-''), of_char (CHR ''+'')}"
    using n assms by auto
  then show "digit_char d \<noteq> CHR ''_''" "digit_char d \<noteq> CHR ''-''" "digit_char d \<noteq> CHR ''+''"
    by auto
  show "\<not> is_space (digit_char d)" using n assms by (auto simp: is_space_def Let_def)
qed

lemma scan_append:
  "0 \<le> d \<Longrightarrow> d < 10 \<Longrightarrow> scan_digits 10 prev acc s = Some n \<Longrightarrow>
     scan_digits 10 prev acc (s @ [digit_char d]) = Some (n * 10 + d)"
  by (induction s arbitrary: prev acc) (auto simp: digit_char_plain split: option.splits if_splits)

lemma scan_dec_str [simp]: "0 \<le> n \<Longrightarrow> scan_digits 10 False 0 (dec_str n) = Some n"
proof (induction n rule: dec_str.induct)
  case (1 n)
  show ?case
  proof (cases "n < 10")
    case True
    then show ?thesis using 1 by (simp add: dec_str.simps [of n] digit_char_plain)
  next
    case False
    then have "scan_digits 10 False 0 (dec_str (n div 10)) = Some (n div 10)" using 1 by simp
    then show ?thesis
      using False scan_append [of "n mod 10" False 0 "dec_str (n div 10)" "n div 10"]
      by (simp add: dec_str.simps [of n])
  qed
qed

lemma dec_str_digits: "0 \<le> n \<Longrightarrow> c \<in> set (dec_str n) \<Longrightarrow> \<exists>d. 0 \<le> d \<and> d < 10 \<and> c = digit_char d"
proof (induction n rule: dec_str.induct)
  case (1 n)
  then show ?case
    by (cases "n < 10") (auto simp: dec_str.simps [of n] intro: exI [of _ "n mod 10"])
qed

lemma dec_str_ne [simp]: "dec_str n \<noteq> []"
  by (simp add: dec_str.simps)

lemma int_str_ends: "\<not> is_space (hd (int_str i))" "\<not> is_space (last (int_str i))" "int_str i \<noteq> []"
proof -
  have "\<not> is_space c" if "0 \<le> n" "c \<in> set (dec_str n)" for c n
    using dec_str_digits [OF that] digit_char_plain(4) by auto
  from this [OF _ hd_in_set] this [OF _ last_in_set]
  have "\<not> is_space (hd (dec_str n)) \<and> \<not> is_space (last (dec_str n))" if "0 \<le> n" for n
    using that by simp
  moreover have "\<not> is_space (CHR ''-'')" by (simp add: is_space_def)
  ultimately show "\<not> is_space (hd (int_str i))" "\<not> is_space (last (int_str i))"
    by (auto simp: int_str_def)
qed (simp add: int_str_def)

lemma strip_int_str [simp]: "strip (int_str i) = int_str i"
  by (rule strip_id) (simp add: int_str_ends)

lemma split_sign_int_str: "split_sign (int_str i) = (i < 0, dec_str \<bar>i\<bar>)"
proof -
  have "split_sign (dec_str n) = (False, dec_str n)" if "0 \<le> n" for n
  proof (cases "dec_str n")
    case (Cons c cs)
    then show ?thesis
      using dec_str_digits [OF that, of c] digit_char_plain by auto
  qed simp
  then show ?thesis by (simp add: int_str_def)
qed

lemma py_int_int_str [simp]: "py_int (int_str i) = Some i"
  by (simp add: py_int_def split_sign_int_str with_sign_def)

lemma length_dec_str: "0 \<le> n \<Longrightarrow> n < 10 ^ k \<Longrightarrow> 0 < k \<Longrightarrow> length (dec_str n) \<le> k"
proof (induction k arbitrary: n)
  case (Suc k)
  show ?case
  proof (cases "n < 10")
    case True
    then show ?thesis by (simp add: dec_str.simps [of n])
  next
    case False
    then have "0 < k" using Suc.prems by (auto intro: Nat.gr0I)
    then have "length (dec_str (n div 10)) \<le> k" using Suc.prems by (intro Suc.IH) simp_all
    then show ?thesis using False by (simp add: dec_str.simps [of n])
  qed
qed simp

end
