(* ===== verification/Csv_Rows.thy ===== *)
theory Csv_Rows
  imports Py_Text
begin

text \<open>
  What the scripts use of the \<open>csv\<close> module, above the level of quoting (\<open>Csv_Text\<close>): a file is the list
  of its records, each a list of cells. \<open>DictReader\<close> turns a record into a dictionary, filling absent
  cells with \<open>None\<close> and keeping surplus cells aside (Python stores them under the key \<open>None\<close>);
  \<open>DictWriter\<close> raises on a key it has no column for and writes one record per row.
\<close>

type_synonym csv = "string list list"

record row =
  cols :: "(string, string option) pydict"
  extra :: "string list"

section \<open>Reading\<close>

definition reader_header :: "csv \<Rightarrow> string list" where
  "reader_header f = (case f of [] \<Rightarrow> [] | h # _ \<Rightarrow> h)"

definition reader_row :: "string list \<Rightarrow> string list \<Rightarrow> row" where
  "reader_row header cells =
     \<lparr>cols = fold (\<lambda>(k, v). dict_set k v)
        (zip header (map Some cells @ replicate (length header) None)) [],
      extra = drop (length header) cells\<rparr>"

definition dict_reader :: "csv \<Rightarrow> row list" where
  "dict_reader f = map (reader_row (reader_header f)) (filter (\<lambda>r. r \<noteq> []) (drop 1 f))"

definition row_get :: "row \<Rightarrow> string \<Rightarrow> string option option" where
  "row_get r k = dict_get (cols r) k"

text \<open>\<open>row.get(k, d)\<close>, which is \<open>None\<close> when the cell is absent.\<close>

definition row_get_or :: "string \<Rightarrow> row \<Rightarrow> string \<Rightarrow> string option" where
  "row_get_or d r k = (case row_get r k of None \<Rightarrow> Some d | Some v \<Rightarrow> v)"

definition row_index :: "row \<Rightarrow> string \<Rightarrow> string option result" where
  "row_index r k = dict_index (cols r) k"

definition set_field :: "string \<Rightarrow> string \<Rightarrow> row \<Rightarrow> row" where
  "set_field k v r = r\<lparr>cols := dict_set k (Some v) (cols r)\<rparr>"

text \<open>Python sorts no list of two or more distinct cells one of which is \<open>None\<close>.\<close>

definition sortable :: "string option list \<Rightarrow> bool" where
  "sortable ids \<longleftrightarrow> length ids \<le> 1 \<or> None \<notin> set ids"

lemma sortable_sort: "sortable (sort ids) \<longleftrightarrow> sortable ids"
  by (simp add: sortable_def)

section \<open>Writing\<close>

definition writer_line :: "string list \<Rightarrow> row \<Rightarrow> string list result" where
  "writer_line header r =
     (if extra r \<noteq> [] \<or> \<not> set (dict_keys (cols r)) \<subseteq> set header then Inl ValueError
      else Inr (map (\<lambda>k. case row_get r k of Some (Some v) \<Rightarrow> v | _ \<Rightarrow> []) header))"

text \<open>The records written before the first row that raises, and how the writing ended.\<close>

fun write_rows :: "string list \<Rightarrow> row list \<Rightarrow> csv \<times> unit result" where
  "write_rows header [] = ([], Inr ())"
| "write_rows header (r # rs) =
     (case writer_line header r of
        Inl e \<Rightarrow> ([], Inl e)
      | Inr line \<Rightarrow> (let (lines, res) = write_rows header rs in (line # lines, res)))"

definition dict_write :: "string list \<Rightarrow> row list \<Rightarrow> csv \<times> unit result" where
  "dict_write header rows = (let (lines, res) = write_rows header rows in (header # lines, res))"

section \<open>Lookups\<close>

lemma row_get_set_field [dict_simps]:
  "row_get (set_field k v r) k' = (if k' = k then Some (Some v) else row_get r k')"
  by (simp add: row_get_def set_field_def dict_simps)

lemma extra_set_field [dict_simps]: "extra (set_field k v r) = extra r"
  by (simp add: set_field_def)

lemma keys_set_field [dict_simps]:
  "dict_keys (cols (set_field k v r)) =
     (if k \<in> set (dict_keys (cols r)) then dict_keys (cols r) else dict_keys (cols r) @ [k])"
  by (simp add: set_field_def dict_simps)

lemma row_index_Inr: "row_index r k = Inr v \<longleftrightarrow> row_get r k = Some v"
  by (simp add: row_index_def row_get_def dict_simps)

section \<open>Rectangular files\<close>

text \<open>A row that fits a header: the header's columns in order, a cell for each.\<close>

definition row_fits :: "string list \<Rightarrow> row \<Rightarrow> bool" where
  "row_fits header r \<longleftrightarrow> extra r = [] \<and> dict_wf (cols r) \<and> dict_keys (cols r) = header \<and>
     list_all (\<lambda>k. case row_get r k of Some (Some _) \<Rightarrow> True | _ \<Rightarrow> False) header"

lemma row_fits_get:
  assumes "row_fits h r" and "k \<in> set h"
  obtains c where "row_get r k = Some (Some c)"
proof -
  have "case row_get r k of Some (Some _) \<Rightarrow> True | _ \<Rightarrow> False"
    using assms by (simp add: row_fits_def list_all_iff)
  then show thesis using that by (auto split: option.splits)
qed

definition row_cells :: "string list \<Rightarrow> row \<Rightarrow> string list" where
  "row_cells header r = map (\<lambda>k. case row_get r k of Some (Some v) \<Rightarrow> v | _ \<Rightarrow> []) header"

definition rectangular :: "csv \<Rightarrow> bool" where
  "rectangular f \<longleftrightarrow> distinct (reader_header f) \<and>
     list_all (\<lambda>r. length r = length (reader_header f)) (drop 1 f)"

lemma dict_set_absent: "k \<notin> set (map fst d) \<Longrightarrow> dict_set k v d = d @ [(k, v)]"
  unfolding dict_set_def by (induction d) auto

lemma fold_dict_set_pairs:
  "distinct (map fst ps) \<Longrightarrow> set (map fst ps) \<inter> set (map fst d) = {} \<Longrightarrow>
     fold (\<lambda>(k, v). dict_set k v) ps d = d @ ps"
proof (induction ps arbitrary: d)
  case (Cons p ps)
  obtain k v where p: "p = (k, v)" by (cases p)
  have "dict_set k v d = d @ [(k, v)]"
    using Cons.prems p by (intro dict_set_absent) auto
  then show ?case using Cons.IH [of "dict_set k v d"] Cons.prems p by auto
qed simp

lemma reader_row_full:
  "distinct header \<Longrightarrow> length cells = length header \<Longrightarrow>
     reader_row header cells = \<lparr>cols = zip header (map Some cells), extra = []\<rparr>"
  by (simp add: reader_row_def zip_append2 fold_dict_set_pairs map_fst_zip_take)

lemma row_fits_cols:
  assumes "row_fits header r"
  shows "cols r = zip header (map Some (row_cells header r))"
proof -
  have "cols r = map (\<lambda>k. (k, the (dict_get (cols r) k))) header"
    using assms dict_items_eq [of "cols r"] by (simp add: row_fits_def)
  also have "\<dots> = map (\<lambda>k. (k, Some (case row_get r k of Some (Some v) \<Rightarrow> v | _ \<Rightarrow> []))) header"
    using assms by (auto simp: row_fits_def list_all_iff row_get_def split: option.splits)
  finally show ?thesis by (simp add: row_cells_def map_map comp_def zip_map2 zip_same_conv_map)
qed

lemma reader_row_cells:
  assumes "row_fits header r"
  shows "reader_row header (row_cells header r) = r"
proof -
  have "distinct header"
    using assms by (auto simp: row_fits_def dict_wf_def dict_keys_def)
  then have "reader_row header (row_cells header r) = \<lparr>cols = cols r, extra = []\<rparr>"
    using row_fits_cols [OF assms] by (simp add: reader_row_full row_cells_def)
  then show ?thesis using assms by (cases r) (simp add: row_fits_def)
qed

lemma row_fits_reader_row:
  "distinct header \<Longrightarrow> length cells = length header \<Longrightarrow> row_fits header (reader_row header cells)"
  by (auto simp: reader_row_full row_fits_def dict_wf_def dict_keys_def list_all_iff row_get_def
      dict_get_def map_of_zip_is_None split: option.splits)
    (metis domIff map_of_zip_is_None length_map option.distinct(1) set_zip_rightD in_set_conv_nth map_of_SomeD
      length_map nth_map)

section \<open>Writing and reading back\<close>

lemma write_rows_ok:
  "list_all (\<lambda>r. extra r = [] \<and> set (dict_keys (cols r)) \<subseteq> set header) rows \<Longrightarrow>
     write_rows header rows = (map (row_cells header) rows, Inr ())"
  by (induction rows) (simp_all add: writer_line_def row_cells_def)

lemma write_rows_Inr:
  "snd (write_rows header rows) = Inr () \<longleftrightarrow>
     list_all (\<lambda>r. extra r = [] \<and> set (dict_keys (cols r)) \<subseteq> set header) rows"
  by (induction rows) (auto simp: writer_line_def split: sum.splits prod.splits)

lemma dict_write_Inr:
  "dict_write header rows = (f, Inr ()) \<Longrightarrow> f = header # map (row_cells header) rows"
  using write_rows_Inr [of header rows] write_rows_ok [where header = header and rows = rows]
  by (auto simp: dict_write_def split: prod.splits)


lemma dict_write_fits:
  "list_all (row_fits header) rows \<Longrightarrow>
     dict_write header rows = (header # map (row_cells header) rows, Inr ())"
  unfolding dict_write_def
  by (subst write_rows_ok) (auto simp: list_all_iff row_fits_def)

lemma dict_reader_written:
  assumes "header \<noteq> []" and "list_all (row_fits header) rows"
  shows "dict_reader (header # map (row_cells header) rows) = rows"
proof -
  have "filter (\<lambda>c. c \<noteq> []) (map (row_cells header) rows) = map (row_cells header) rows"
    using assms(1) by (auto simp: filter_id_conv row_cells_def)
  then show ?thesis
    using assms(2)
    by (auto simp: dict_reader_def reader_header_def list_all_iff reader_row_cells intro!: map_idI)
qed


lemma dict_reader_write:
  "header \<noteq> [] \<Longrightarrow> list_all (row_fits header) rows \<Longrightarrow> dict_reader (fst (dict_write header rows)) = rows"
  using dict_reader_written [of header rows] by (simp add: dict_write_fits)

text \<open>Reading back what \<open>row_cells\<close> wrote, for rows that need not fit the header.\<close>

definition cell_of :: "row \<Rightarrow> string \<Rightarrow> string" where
  "cell_of r k = (case row_get r k of Some (Some v) \<Rightarrow> v | _ \<Rightarrow> [])"

lemma row_cells_eq: "row_cells header r = map (cell_of r) header"
  by (simp add: row_cells_def cell_of_def)

lemma row_get_read_cells:
  assumes "distinct header" and "k \<in> set header"
  shows "row_get (reader_row header (row_cells header r)) k = Some (Some (cell_of r k))"
proof -
  have "row_get (reader_row header (row_cells header r)) k =
      map_of (zip header (map (\<lambda>k. Some (cell_of r k)) header)) k"
    using assms(1) by (simp add: reader_row_full row_get_def dict_get_def row_cells_eq comp_def)
  then show ?thesis using assms(2) by (simp add: map_of_zip_map)
qed

lemma dict_reader_cells:
  "header \<noteq> [] \<Longrightarrow> dict_reader (header # map (row_cells header) rows) =
     map (\<lambda>r. reader_row header (row_cells header r)) rows"
  by (simp add: dict_reader_def reader_header_def filter_map comp_def row_cells_def)

end
