(* ===== verification/Py_Order.thy ===== *)
theory Py_Order
  imports Prelude
begin

text \<open>
  \<open>sorted\<close> and \<open>max(..., key=...)\<close> of the scripts, over an arbitrary "less than": Python calls
  only \<open>\<open><\<close>\<close> (for \<open>max\<close>, \<open>\<open>>\<close>\<close>), which on floats is no linear order. The locale states what the
  comparison must satisfy on the values at hand, and proves what the two functions then return.
\<close>

section \<open>Stable sorting and the first maximum\<close>

fun py_insert :: "('a \<Rightarrow> 'a \<Rightarrow> bool) \<Rightarrow> 'a \<Rightarrow> 'a list \<Rightarrow> 'a list" where
  "py_insert lt x [] = [x]"
| "py_insert lt x (y # ys) = (if lt y x then y # py_insert lt x ys else x # y # ys)"

definition py_sorted :: "('a \<Rightarrow> 'a \<Rightarrow> bool) \<Rightarrow> 'a list \<Rightarrow> 'a list" where
  "py_sorted lt xs = foldr (py_insert lt) xs []"

fun py_max_from :: "('k \<Rightarrow> 'k \<Rightarrow> bool) \<Rightarrow> ('a \<Rightarrow> 'k) \<Rightarrow> 'a \<Rightarrow> 'a list \<Rightarrow> 'a" where
  "py_max_from lt key best [] = best"
| "py_max_from lt key best (x # xs) =
     (if lt (key best) (key x) then py_max_from lt key x xs else py_max_from lt key best xs)"

text \<open>\<open>max\<close> of an empty iterable raises \<open>ValueError\<close>.\<close>

fun py_max :: "('k \<Rightarrow> 'k \<Rightarrow> bool) \<Rightarrow> ('a \<Rightarrow> 'k) \<Rightarrow> 'a list \<Rightarrow> 'a result" where
  "py_max lt key [] = Inl ValueError"
| "py_max lt key (x # xs) = Inr (py_max_from lt key x xs)"

lemma mset_py_insert [simp]: "mset (py_insert lt x ys) = add_mset x (mset ys)"
  by (induction ys) auto

lemma mset_py_sorted [simp]: "mset (py_sorted lt xs) = mset xs"
  by (induction xs) (simp_all add: py_sorted_def)

lemma set_py_insert [simp]: "set (py_insert lt x ys) = insert x (set ys)"
  by (metis mset_py_insert set_mset_add_mset_insert set_mset_mset)

lemma set_py_sorted [simp]: "set (py_sorted lt xs) = set xs"
  by (metis mset_py_sorted set_mset_mset)

lemma length_py_sorted [simp]: "length (py_sorted lt xs) = length xs"
  by (metis mset_py_sorted size_mset)

lemma py_max_total: "xs \<noteq> [] \<Longrightarrow> \<exists>x. py_max lt key xs = Inr x"
  by (cases xs) simp_all

lemma py_max_from_map:
  "py_max_from lt key (f b) (map f xs) = f (py_max_from lt (key \<circ> f) b xs)"
  by (induction xs arbitrary: b) simp_all

section \<open>The interface of a comparison\<close>

locale py_order =
  fixes lt :: "'k \<Rightarrow> 'k \<Rightarrow> bool"
    and ok :: "'k \<Rightarrow> bool"
  assumes irrefl: "ok a \<Longrightarrow> \<not> lt a a"
    and trans: "ok a \<Longrightarrow> ok b \<Longrightarrow> ok c \<Longrightarrow> lt a b \<Longrightarrow> lt b c \<Longrightarrow> lt a c"
    and neg_trans: "ok a \<Longrightarrow> ok b \<Longrightarrow> ok c \<Longrightarrow> \<not> lt a b \<Longrightarrow> \<not> lt b c \<Longrightarrow> \<not> lt a c"
begin

lemma asym: "ok a \<Longrightarrow> ok b \<Longrightarrow> lt a b \<Longrightarrow> \<not> lt b a"
  using irrefl trans by blast

lemma lt_le_trans: "ok a \<Longrightarrow> ok b \<Longrightarrow> ok c \<Longrightarrow> lt a b \<Longrightarrow> \<not> lt c b \<Longrightarrow> lt a c"
  using neg_trans by blast

lemma sorted_insert:
  assumes "ok x" and "\<forall>y \<in> set ys. ok y" and "sorted_wrt (\<lambda>a b. \<not> lt b a) ys"
  shows "sorted_wrt (\<lambda>a b. \<not> lt b a) (py_insert lt x ys)"
  using assms
proof (induction ys)
  case (Cons y ys)
  then have ok: "ok x" "ok y" "\<forall>z \<in> set ys. ok z" and sy: "\<forall>z \<in> set ys. \<not> lt z y" by simp_all
  show ?case
  proof (cases "lt y x")
    case True
    then show ?thesis using Cons ok asym [of y x] by auto
  next
    case False
    have "\<not> lt z x" if "z \<in> set ys" for z
      using neg_trans [of z y x] False ok sy that by blast
    then show ?thesis using Cons False by auto
  qed
qed simp

lemma sorted_sorted:
  "\<forall>x \<in> set xs. ok x \<Longrightarrow> sorted_wrt (\<lambda>a b. \<not> lt b a) (py_sorted lt xs)"
proof (induction xs)
  case (Cons x xs)
  then have "sorted_wrt (\<lambda>a b. \<not> lt b a) (py_insert lt x (py_sorted lt xs))"
    by (intro sorted_insert) simp_all
  then show ?case by (simp add: py_sorted_def)
qed (simp add: py_sorted_def)

text \<open>The maximum: an element, not beaten by any, and the first such.\<close>

lemma max_from_in: "py_max_from lt key b xs \<in> insert b (set xs)"
  by (induction xs arbitrary: b) auto

lemma max_from_ge:
  assumes "ok (key b)" and "\<forall>x \<in> set xs. ok (key x)" and "y \<in> insert b (set xs)"
  shows "\<not> lt (key (py_max_from lt key b xs)) (key y)"
  using assms
proof (induction xs arbitrary: b y)
  case Nil
  then show ?case by (simp add: irrefl)
next
  case (Cons x xs)
  let ?b = "if lt (key b) (key x) then x else b"
  let ?m = "py_max_from lt key ?b xs"
  have ok_b: "ok (key ?b)" using Cons.prems by simp
  have okm: "ok (key ?m)"
    using max_from_in [of key ?b xs] ok_b Cons.prems by auto
  have ge: "\<not> lt (key ?m) (key z)" if "z \<in> insert ?b (set xs)" for z
    using Cons.IH [OF ok_b _ that] Cons.prems by simp
  have "\<not> lt (key ?b) (key z)" if "z \<in> {b, x}" for z
    using that Cons.prems asym irrefl by auto
  then have "\<not> lt (key ?m) (key y)" if "y \<in> {b, x}"
    using ge [of ?b] neg_trans [OF okm ok_b] that Cons.prems by blast
  then show ?case using ge [of y] Cons.prems by (cases "y \<in> {b, x}") auto
qed

lemma max_in: "py_max lt key xs = Inr m \<Longrightarrow> m \<in> set xs"
  using max_from_in [of key "hd xs" "tl xs"] by (cases xs) auto

lemma max_ge:
  "py_max lt key xs = Inr m \<Longrightarrow> \<forall>x \<in> set xs. ok (key x) \<Longrightarrow> y \<in> set xs \<Longrightarrow>
     \<not> lt (key m) (key y)"
  using max_from_ge [of key "hd xs" "tl xs" y] by (cases xs) auto

lemma max_from_first:
  assumes "ok (key b)" and "\<forall>x \<in> set xs. ok (key x)"
  shows "\<exists>us vs. b # xs = us @ py_max_from lt key b xs # vs \<and>
    (\<forall>u \<in> set us. lt (key u) (key (py_max_from lt key b xs)))"
  using assms
proof (induction xs arbitrary: b)
  case Nil
  then show ?case by (intro exI [of _ "[]"]) simp
next
  case (Cons x xs)
  show ?case
  proof (cases "lt (key b) (key x)")
    case True
    let ?m = "py_max_from lt key x xs"
    from Cons obtain us vs where eq: "x # xs = us @ ?m # vs"
      and us: "\<forall>u \<in> set us. lt (key u) (key ?m)" by fastforce
    have okm: "ok (key ?m)" using max_from_in [of key x xs] Cons.prems by auto
    have "lt (key b) (key ?m)"
      using lt_le_trans [OF _ _ okm True] max_from_ge [of key x xs x] Cons.prems by simp
    moreover have "b # x # xs = (b # us) @ ?m # vs" by (simp add: eq)
    ultimately have "b # x # xs = (b # us) @ ?m # vs \<and> (\<forall>u \<in> set (b # us). lt (key u) (key ?m))"
      using us by simp
    moreover have "py_max_from lt key b (x # xs) = ?m" using True by simp
    ultimately show ?thesis by metis
  next
    case False
    let ?m = "py_max_from lt key b xs"
    from Cons obtain us vs where eq: "b # xs = us @ ?m # vs"
      and us: "\<forall>u \<in> set us. lt (key u) (key ?m)" by fastforce
    show ?thesis
    proof (cases us)
      case Nil
      then have "?m = b" using eq by (metis append_Nil list.inject)
      then have "b # x # xs = [] @ ?m # x # xs" by simp
      moreover have "py_max_from lt key b (x # xs) = ?m" using False by simp
      ultimately show ?thesis by (metis empty_iff empty_set)
    next
      case (Cons u us')
      then have u: "u = b" and lt_bm: "lt (key b) (key ?m)" using eq us by auto
      have "lt (key x) (key ?m)"
      proof (rule ccontr)
        assume "\<not> lt (key x) (key ?m)"
        moreover have "ok (key ?m)" using max_from_in [of key b xs] Cons.prems by auto
        ultimately show False
          using neg_trans [of "key b" "key x" "key ?m"] False lt_bm Cons.prems by simp
      qed
      then have "\<forall>u \<in> set (b # x # us'). lt (key u) (key ?m)"
        using us \<open>us = u # us'\<close> lt_bm by simp
      moreover have "b # x # xs = (b # x # us') @ ?m # vs"
        using arg_cong [OF eq, of tl] \<open>us = u # us'\<close> by (simp only: append_Cons list.sel)
      moreover have "py_max_from lt key b (x # xs) = ?m" using False by simp
      ultimately show ?thesis by metis
    qed
  qed
qed

lemma max_first:
  assumes "py_max lt key xs = Inr m" and "\<forall>x \<in> set xs. ok (key x)"
  shows "\<exists>us vs. xs = us @ m # vs \<and> (\<forall>u \<in> set us. lt (key u) (key m))"
  using assms max_from_first [of key "hd xs" "tl xs"] by (cases xs) auto

text \<open>An element above all others is what \<open>max\<close> returns, whatever the order of the list.\<close>

lemma max_unique:
  assumes "m \<in> set xs" and "\<forall>x \<in> set xs. ok (key x)"
    and "\<And>x. x \<in> set xs \<Longrightarrow> x \<noteq> m \<Longrightarrow> lt (key x) (key m)"
  shows "py_max lt key xs = Inr m"
proof -
  from assms(1) have "xs \<noteq> []" by auto
  then obtain m' where m': "py_max lt key xs = Inr m'" using py_max_total by blast
  have "\<not> lt (key m') (key m)" using max_ge [OF m' assms(2,1)] .
  with assms(3) max_in [OF m'] m' show ?thesis by blast
qed

end

interpretation str_order: py_order "(<) :: string \<Rightarrow> string \<Rightarrow> bool" "\<lambda>_. True"
  by unfold_locales auto

end
