(* ===== verification/Py_Float.thy ===== *)
theory Py_Float
  imports Py_Text Py_Order Complex_Main
begin

text \<open>
  Python floats as IEEE 754 binary64 values. A finite value is the exact rational it denotes,
  with a separate negative zero; every operation computes the exact result and rounds it to the
  nearest double, ties to even, overflowing to an infinity. Formatting with a fixed number of
  digits rounds the exact value half to even, as C Python does. The interface \<open>rounding\<close> says what
  the components rely on; its interpretation is the rounding defined here.
\<close>

section \<open>Rounding to binary64\<close>

definition round_half_even :: "rat \<Rightarrow> int" where
  "round_half_even q =
     (let n = \<lfloor>q\<rfloor>; d = q - of_int n
      in if d < 1 / 2 then n else if 1 / 2 < d then n + 1 else if even n then n else n + 1)"

text \<open>The number of binary digits, and with it the exponent of the binade of a positive number.\<close>

function int_bits :: "int \<Rightarrow> nat" where
  "int_bits n = (if n \<le> 0 then 0 else Suc (int_bits (n div 2)))"
  by pat_completeness auto
termination
  by (relation "measure nat") auto

declare int_bits.simps [simp del]

definition binexp :: "rat \<Rightarrow> int" where
  "binexp q = (if 1 \<le> q then int (int_bits \<lfloor>q\<rfloor>) - 1 else - int (int_bits (\<lceil>1 / q\<rceil> - 1)))"

definition ulp_exp :: "rat \<Rightarrow> int" where
  "ulp_exp q = max (- 1074) (binexp q - 52)"

definition round_pos :: "rat \<Rightarrow> rat" where
  "round_pos q = of_int (round_half_even (q / 2 powi ulp_exp q)) * 2 powi ulp_exp q"

definition fl :: "rat \<Rightarrow> rat" where
  "fl q = (if q < 0 then - round_pos (- q) else if q = 0 then 0 else round_pos q)"

subsection \<open>Rounding to an integer\<close>

lemma round_half_even_of_int [simp]: "round_half_even (of_int n) = n"
  by (simp add: round_half_even_def)

lemma round_half_even_bounds:
  "of_int (round_half_even q) \<le> q + 1 / 2" "q - 1 / 2 \<le> of_int (round_half_even q)"
  using of_int_floor_le [of q] floor_correct [of q] unfolding round_half_even_def Let_def
  by (auto; linarith)+

lemma round_half_even_mono:
  assumes "p \<le> q"
  shows "round_half_even p \<le> round_half_even q"
proof (cases "\<lfloor>p\<rfloor> = \<lfloor>q\<rfloor>")
  case True
  then show ?thesis using assms by (auto simp: round_half_even_def Let_def)
next
  case False
  then have "\<lfloor>p\<rfloor> + 1 \<le> \<lfloor>q\<rfloor>" using floor_mono [OF assms] by simp
  moreover have "round_half_even p \<le> \<lfloor>p\<rfloor> + 1" "\<lfloor>q\<rfloor> \<le> round_half_even q"
    by (simp_all add: round_half_even_def Let_def)
  ultimately show ?thesis by linarith
qed

lemma round_half_even_le: "q \<le> of_int n \<Longrightarrow> round_half_even q \<le> n"
  using round_half_even_mono [of q "of_int n"] by simp

lemma round_half_even_ge: "of_int n \<le> q \<Longrightarrow> n \<le> round_half_even q"
  using round_half_even_mono [of "of_int n" q] by simp

subsection \<open>Binades\<close>

lemma int_bits_bounds: "0 < n \<Longrightarrow> 2 ^ int_bits n \<le> 2 * n \<and> n < 2 ^ int_bits n"
proof (induction n rule: int_bits.induct)
  case (1 n)
  show ?case
  proof (cases "n = 1")
    case True
    then show ?thesis by (simp add: int_bits.simps)
  next
    case False
    with 1 have "2 ^ int_bits (n div 2) \<le> 2 * (n div 2)" "n div 2 < 2 ^ int_bits (n div 2)" by simp_all
    then have "2 ^ int_bits (n div 2) \<le> n" "n + 1 \<le> 2 * 2 ^ int_bits (n div 2)" by linarith+
    then show ?thesis using \<open>0 < n\<close> by (simp add: int_bits.simps [of n])
  qed
qed

lemma int_bits_powi:
  assumes "0 < n"
  shows "2 powi (int (int_bits n) - 1) \<le> (of_int n :: rat)" and "(of_int n :: rat) + 1 \<le> 2 powi int (int_bits n)"
proof -
  have "(2 :: int) ^ int_bits n \<le> 2 * n" "n + 1 \<le> 2 ^ int_bits n"
    using int_bits_bounds [OF assms] by simp_all
  then have "(of_int (2 ^ int_bits n) :: rat) \<le> of_int (2 * n)" "of_int (n + 1) \<le> (of_int (2 ^ int_bits n) :: rat)"
    by (simp_all only: of_int_le_iff)
  then show "2 powi (int (int_bits n) - 1) \<le> (of_int n :: rat)"
    and "(of_int n :: rat) + 1 \<le> 2 powi int (int_bits n)"
    by (simp_all add: power_int_diff)
qed

lemma binexp_bounds:
  assumes "0 < q"
  shows "2 powi binexp q \<le> q" and "q < 2 powi (binexp q + 1)"
proof -
  have "2 powi binexp q \<le> q \<and> q < 2 powi (binexp q + 1)"
  proof (cases "1 \<le> q")
    case True
    then have "0 < \<lfloor>q\<rfloor>" by simp
    from int_bits_powi [OF this] of_int_floor_le [of q] floor_correct [of q]
    have "2 powi (int (int_bits \<lfloor>q\<rfloor>) - 1) \<le> q" "q < 2 powi int (int_bits \<lfloor>q\<rfloor>)" by linarith+
    then show ?thesis using True by (simp add: binexp_def)
  next
    case False
    let ?m = "\<lceil>1 / q\<rceil> - 1" and ?L = "int (int_bits (\<lceil>1 / q\<rceil> - 1))"
    have inv: "1 < 1 / q" using False assms by simp
    then have "1 < \<lceil>1 / q\<rceil>" by (simp only: less_ceiling_iff of_int_1)
    then have m0: "0 < ?m" by simp
    have "of_int ?m < 1 / q" "1 / q \<le> of_int ?m + 1" using ceiling_correct [of "1 / q"] by simp_all
    with int_bits_powi [OF m0] have "1 / q \<le> 2 powi ?L" and lo: "2 powi (?L - 1) < 1 / q" by linarith+
    then have a: "2 powi - ?L \<le> q"
      using assms by (simp add: power_int_minus field_simps)
    have "q < 1 / 2 powi (?L - 1)" using lo assms by (simp add: field_simps)
    then have "q < 2 powi - (?L - 1)" by (simp only: power_int_minus inverse_eq_divide)
    then have b: "q < 2 powi (- ?L + 1)" by (simp add: algebra_simps)
    show ?thesis using False a b by (simp add: binexp_def)
  qed
  then show "2 powi binexp q \<le> q" and "q < 2 powi (binexp q + 1)" by simp_all
qed

lemma powi_less_iff: "(2 :: rat) powi a < 2 powi b \<longleftrightarrow> a < b"
  using power_int_strict_increasing [of a b "2 :: rat"] power_int_increasing [of b a "2 :: rat"]
  by (cases "a < b") auto

lemma binexp_less: "0 < q \<Longrightarrow> q < 2 powi e \<Longrightarrow> binexp q < e"
  using binexp_bounds(1) [of q] powi_less_iff [of "binexp q" e] by linarith

lemma binexp_ge: "0 < q \<Longrightarrow> 2 powi e \<le> q \<Longrightarrow> e \<le> binexp q"
  using binexp_bounds(2) [of q] powi_less_iff [of e "binexp q + 1"] by linarith

lemma binexp_mono: "0 < p \<Longrightarrow> p \<le> q \<Longrightarrow> binexp p \<le> binexp q"
  using binexp_bounds(1) [of p] binexp_ge [of q "binexp p"] by linarith

subsection \<open>Rounding is monotone and keeps what is representable\<close>

lemma scaled: "q / 2 powi k * 2 powi k = (q :: rat)"
  by simp

lemma round_pos_lower:
  assumes "ulp_exp q \<le> e" and "2 powi e \<le> q"
  shows "2 powi e \<le> round_pos q"
proof -
  let ?k = "ulp_exp q"
  have pow: "(2 :: rat) powi (e - ?k) = of_int (2 ^ nat (e - ?k))"
    using assms(1) by (simp add: power_int_def)
  have "2 powi (e - ?k) \<le> q / 2 powi ?k"
    using assms(2) by (simp add: power_int_diff divide_right_mono)
  then have "2 ^ nat (e - ?k) \<le> round_half_even (q / 2 powi ?k)"
    unfolding pow by (rule round_half_even_ge)
  then have "2 powi (e - ?k) \<le> (of_int (round_half_even (q / 2 powi ?k)) :: rat)"
    unfolding pow by (simp only: of_int_le_iff)
  then have "2 powi (e - ?k) * 2 powi ?k \<le> round_pos q"
    unfolding round_pos_def by (rule mult_right_mono) simp
  then show ?thesis by (simp add: power_int_diff)
qed

lemma round_pos_upper:
  assumes "ulp_exp q \<le> e" and "q \<le> 2 powi e"
  shows "round_pos q \<le> 2 powi e"
proof -
  let ?k = "ulp_exp q"
  have pow: "(2 :: rat) powi (e - ?k) = of_int (2 ^ nat (e - ?k))"
    using assms(1) by (simp add: power_int_def)
  have "q / 2 powi ?k \<le> 2 powi (e - ?k)"
    using assms(2) by (simp add: power_int_diff divide_right_mono)
  then have "round_half_even (q / 2 powi ?k) \<le> 2 ^ nat (e - ?k)"
    unfolding pow by (rule round_half_even_le)
  then have "(of_int (round_half_even (q / 2 powi ?k)) :: rat) \<le> 2 powi (e - ?k)"
    unfolding pow by (simp only: of_int_le_iff)
  then have "round_pos q \<le> 2 powi (e - ?k) * 2 powi ?k"
    unfolding round_pos_def by (rule mult_right_mono) simp
  then show ?thesis by (simp add: power_int_diff)
qed

lemma round_pos_mono:
  assumes "0 < p" and "p \<le> q"
  shows "round_pos p \<le> round_pos q"
proof (cases "ulp_exp p = ulp_exp q")
  case True
  have "round_half_even (p / 2 powi ulp_exp q) \<le> round_half_even (q / 2 powi ulp_exp q)"
    using assms by (intro round_half_even_mono divide_right_mono) simp_all
  then show ?thesis by (simp add: round_pos_def True)
next
  case False
  have q0: "0 < q" using assms by simp
  have bm: "binexp p \<le> binexp q" using assms by (rule binexp_mono)
  with False have k: "ulp_exp q = binexp q - 52" "ulp_exp p < ulp_exp q" "binexp p < binexp q"
    by (auto simp: ulp_exp_def)
  have "p \<le> 2 powi binexp q"
    using binexp_bounds(2) [OF assms(1)] power_int_increasing [of "binexp p + 1" "binexp q" "2 :: rat"]
      k(3) by linarith
  then have "round_pos p \<le> 2 powi binexp q" using k by (intro round_pos_upper) simp_all
  also have "\<dots> \<le> round_pos q"
    using binexp_bounds(1) [OF q0] k(1) by (intro round_pos_lower) simp_all
  finally show ?thesis .
qed

lemma round_pos_nonneg: "0 < q \<Longrightarrow> 0 \<le> round_pos q"
proof -
  assume "0 < q"
  then have "0 \<le> round_half_even (q / 2 powi ulp_exp q)"
    by (intro round_half_even_ge) simp
  then show ?thesis by (simp add: round_pos_def)
qed

text \<open>A number with at most 53 significant bits and a large enough exponent is a double.\<close>

lemma round_pos_representable:
  assumes "0 < m" and "m \<le> 2 ^ 53" and "- 1074 \<le> k" and q: "q = of_int m * 2 powi k"
  shows "round_pos q = q"
proof -
  have main: "round_pos q = q" if m: "0 < m" "m < 2 ^ 53" and k: "- 1074 \<le> k"
    and q: "q = of_int m * 2 powi k" for m k
  proof -
    have q0: "0 < q" using m q by simp
    have "(of_int m :: rat) < 2 ^ 53" using m(2) by (metis of_int_less_iff of_int_numeral of_int_power)
    then have "q < 2 ^ 53 * 2 powi k" unfolding q by (intro mult_strict_right_mono) simp_all
    also have "(2 :: rat) ^ 53 * 2 powi k = 2 powi (53 + k)"
      using power_int_add [of "2 :: rat" 53 k] by simp
    finally have "binexp q < 53 + k" using q0 by (intro binexp_less)
    then have le: "ulp_exp q \<le> k" using k by (simp add: ulp_exp_def)
    then have "q / 2 powi ulp_exp q = of_int (m * 2 ^ nat (k - ulp_exp q))"
      unfolding q by (simp add: power_int_def [of _ "k - ulp_exp q", symmetric] power_int_diff
          flip: power_int_of_nat)
    then show ?thesis unfolding round_pos_def by (simp only: round_half_even_of_int) (metis scaled)
  qed
  show ?thesis
  proof (cases "m < 2 ^ 53")
    case True
    with assms show ?thesis by (intro main)
  next
    case False
    with assms have "m = 2 ^ 53" by simp
    then have "q = of_int (2 ^ 52) * 2 powi (k + 1)" using q by (simp add: power_int_add)
    then show ?thesis using assms by (intro main [of "2 ^ 52" "k + 1"]) simp_all
  qed
qed

lemma fl_mono: "p \<le> q \<Longrightarrow> fl p \<le> fl q"
  using round_pos_mono [of p q] round_pos_mono [of "- q" "- p"] round_pos_nonneg [of "- p"]
    round_pos_nonneg [of q]
  by (auto simp: fl_def)

lemma fl_minus [simp]: "fl (- q) = - fl q"
  by (simp add: fl_def)

lemma fl_0 [simp]: "fl 0 = 0"
  by (simp add: fl_def)

lemma fl_dyadic:
  assumes "\<bar>m\<bar> \<le> 2 ^ 53" and "- 1074 \<le> k"
  shows "fl (of_int m * 2 powi k) = of_int m * 2 powi k"
proof -
  have nn: "\<not> (2 :: rat) powi k < 0" by (simp add: not_less)
  consider "m = 0" | "0 < m" | "m < 0" by linarith
  then show ?thesis
  proof cases
    case 3
    then have "round_pos (of_int (- m) * 2 powi k) = of_int (- m) * 2 powi k"
      using assms by (intro round_pos_representable [of "- m" k]) simp_all
    then show ?thesis using 3 by (simp add: fl_def mult_less_0_iff)
  qed (use assms nn round_pos_representable [of m k] in \<open>simp_all add: fl_def mult_less_0_iff\<close>)
qed

lemma fl_of_int: "\<bar>n\<bar> \<le> 2 ^ 53 \<Longrightarrow> fl (of_int n) = of_int n"
  using fl_dyadic [of n 0] by simp

subsection \<open>The interface of a rounding function\<close>

locale rounding =
  fixes rd :: "rat \<Rightarrow> rat"
  assumes mono: "p \<le> q \<Longrightarrow> rd p \<le> rd q"
    and small_int: "\<bar>n\<bar> \<le> 2 ^ 53 \<Longrightarrow> rd (of_int n) = of_int n"
begin

lemma le_int: "q \<le> of_int n \<Longrightarrow> \<bar>n\<bar> \<le> 2 ^ 53 \<Longrightarrow> rd q \<le> of_int n"
  using mono [of q "of_int n"] small_int [of n] by simp

lemma ge_int: "of_int n \<le> q \<Longrightarrow> \<bar>n\<bar> \<le> 2 ^ 53 \<Longrightarrow> of_int n \<le> rd q"
  using mono [of "of_int n" q] small_int [of n] by simp

lemma nonneg: "0 \<le> q \<Longrightarrow> 0 \<le> rd q"
  using ge_int [of 0 q] by simp

lemma le_one: "q \<le> 1 \<Longrightarrow> rd q \<le> 1"
  using le_int [of q 1] by simp

lemma small_nat: "n \<le> 2 ^ 53 \<Longrightarrow> rd (of_nat n) = of_nat n"
proof -
  assume "n \<le> 2 ^ 53"
  then have "int n \<le> 2 ^ 53" by (metis of_nat_le_iff of_nat_numeral of_nat_power)
  then show ?thesis using small_int [of "int n"] by simp
qed

text \<open>A quotient of counts is a ratio.\<close>

lemma ratio: "a \<le> b \<Longrightarrow> 0 < b \<Longrightarrow> 0 \<le> rd (of_nat a / of_nat b) \<and> rd (of_nat a / of_nat b) \<le> 1"
  by (intro conjI nonneg le_one) simp_all

text \<open>Truncation stays within integer bounds that hold for the exact value.\<close>

lemma floor_ceiling_bounds:
  assumes "0 \<le> q" and "q \<le> of_nat n" and "n \<le> 2 ^ 53"
  shows "0 \<le> \<lfloor>rd q\<rfloor>" and "\<lfloor>rd q\<rfloor> \<le> \<lceil>rd q\<rceil>" and "\<lceil>rd q\<rceil> \<le> int n"
proof -
  have n: "int n \<le> 2 ^ 53" using assms(3) by (metis of_nat_le_iff of_nat_numeral of_nat_power)
  then have "rd q \<le> of_int (int n)" using assms by (intro le_int) simp_all
  then show "\<lceil>rd q\<rceil> \<le> int n" by (simp only: ceiling_le_iff)
  show "0 \<le> \<lfloor>rd q\<rfloor>" using nonneg [OF assms(1)] by simp
qed (rule floor_le_ceiling)

end

interpretation binary64: rounding fl
  by unfold_locales (simp_all add: fl_mono fl_of_int)

section \<open>The float type\<close>

datatype dbl = Fin rat | NegZero | PInf | MInf | NaN

fun dval :: "dbl \<Rightarrow> rat" where
  "dval (Fin q) = q"
| "dval _ = 0"

definition is_zero :: "dbl \<Rightarrow> bool" where
  "is_zero x \<longleftrightarrow> x = Fin 0 \<or> x = NegZero"

definition sign_bit :: "dbl \<Rightarrow> bool" where
  "sign_bit x = (case x of Fin q \<Rightarrow> q < 0 | NegZero \<Rightarrow> True | MInf \<Rightarrow> True | _ \<Rightarrow> False)"

definition zero_of :: "bool \<Rightarrow> dbl" where
  "zero_of neg = (if neg then NegZero else Fin 0)"

definition inf_of :: "bool \<Rightarrow> dbl" where
  "inf_of neg = (if neg then MInf else PInf)"

text \<open>The double nearest to an exact result; an exact zero is the positive one.\<close>

definition rnd :: "rat \<Rightarrow> dbl" where
  "rnd q = (let r = fl q
     in if 2 ^ 1024 \<le> \<bar>r\<bar> then inf_of (q < 0) else if r = 0 then zero_of (q < 0) else Fin r)"

fun dneg :: "dbl \<Rightarrow> dbl" where
  "dneg (Fin q) = (if q = 0 then NegZero else Fin (- q))"
| "dneg NegZero = Fin 0"
| "dneg PInf = MInf"
| "dneg MInf = PInf"
| "dneg NaN = NaN"

definition dadd :: "dbl \<Rightarrow> dbl \<Rightarrow> dbl" where
  "dadd x y =
     (if x = NaN \<or> y = NaN then NaN
      else if x \<in> {PInf, MInf} then (if y \<in> {PInf, MInf} \<and> y \<noteq> x then NaN else x)
      else if y \<in> {PInf, MInf} then y
      else if x = NegZero \<and> y = NegZero then NegZero
      else rnd (dval x + dval y))"

definition dsub :: "dbl \<Rightarrow> dbl \<Rightarrow> dbl" where
  "dsub x y = dadd x (dneg y)"

definition dmul :: "dbl \<Rightarrow> dbl \<Rightarrow> dbl" where
  "dmul x y =
     (let s = (sign_bit x \<noteq> sign_bit y)
      in if x = NaN \<or> y = NaN then NaN
         else if x \<in> {PInf, MInf} \<or> y \<in> {PInf, MInf} then
           (if is_zero x \<or> is_zero y then NaN else inf_of s)
         else if is_zero x \<or> is_zero y then zero_of s
         else rnd (dval x * dval y))"

text \<open>Python's \<open>/\<close> on floats raises on a zero divisor.\<close>

definition ddiv :: "dbl \<Rightarrow> dbl \<Rightarrow> dbl result" where
  "ddiv x y =
     (let s = (sign_bit x \<noteq> sign_bit y)
      in if is_zero y then Inl ZeroDivisionError
         else Inr (if x = NaN \<or> y = NaN then NaN
           else if x \<in> {PInf, MInf} then (if y \<in> {PInf, MInf} then NaN else inf_of s)
           else if y \<in> {PInf, MInf} \<or> is_zero x then zero_of s
           else rnd (dval x / dval y)))"

definition dbl_of_int :: "int \<Rightarrow> dbl" where
  "dbl_of_int i = rnd (of_int i)"

fun dlt :: "dbl \<Rightarrow> dbl \<Rightarrow> bool" where
  "dlt NaN y = False"
| "dlt x NaN = False"
| "dlt MInf y = (y \<noteq> MInf)"
| "dlt x MInf = False"
| "dlt PInf y = False"
| "dlt x PInf = True"
| "dlt x y = (dval x < dval y)"

definition deq :: "dbl \<Rightarrow> dbl \<Rightarrow> bool" where
  "deq x y \<longleftrightarrow> x \<noteq> NaN \<and> y \<noteq> NaN \<and> \<not> dlt x y \<and> \<not> dlt y x"

definition dle :: "dbl \<Rightarrow> dbl \<Rightarrow> bool" where
  "dle x y \<longleftrightarrow> dlt x y \<or> deq x y"

text \<open>Python compares tuples at the first position where they differ.\<close>

fun dlt_pair :: "dbl \<times> dbl \<Rightarrow> dbl \<times> dbl \<Rightarrow> bool" where
  "dlt_pair (a, b) (c, d) = (if deq a c then dlt b d else dlt a c)"

definition no_nan_pair :: "dbl \<times> dbl \<Rightarrow> bool" where
  "no_nan_pair p \<longleftrightarrow> fst p \<noteq> NaN \<and> snd p \<noteq> NaN"

text \<open>Away from NaN the comparison is that of a linearly ordered rank.\<close>

fun rank :: "dbl \<Rightarrow> int \<times> rat" where
  "rank MInf = (- 1, 0)"
| "rank PInf = (1, 0)"
| "rank x = (0, dval x)"

lemma dlt_rank: "x \<noteq> NaN \<Longrightarrow> y \<noteq> NaN \<Longrightarrow> dlt x y \<longleftrightarrow> rank x < rank y"
  by (cases x; cases y) (simp_all add: less_prod_def)

lemma deq_rank: "x \<noteq> NaN \<Longrightarrow> y \<noteq> NaN \<Longrightarrow> deq x y \<longleftrightarrow> rank x = rank y"
  by (auto simp: deq_def dlt_rank)

lemma pair_less: "(x, y) < (x', y') \<longleftrightarrow> x < x' \<or> x = x' \<and> y < y'"
  for x x' :: "'a :: linorder" and y y' :: "'b :: linorder"
  by (auto simp: order.order_iff_strict)

lemma dlt_pair_rank:
  "no_nan_pair p \<Longrightarrow> no_nan_pair q \<Longrightarrow>
     dlt_pair p q \<longleftrightarrow> (rank (fst p), rank (snd p)) < (rank (fst q), rank (snd q))"
  unfolding pair_less no_nan_pair_def
  by (metis deq_rank dlt_pair.simps dlt_rank less_irrefl prod.collapse)

interpretation dbl_order: py_order dlt "\<lambda>x. x \<noteq> NaN"
  by unfold_locales (auto simp: dlt_rank)

interpretation pair_order: py_order dlt_pair no_nan_pair
  by unfold_locales (auto simp: dlt_pair_rank)

section \<open>Evaluating on numerals\<close>

lemma floor_numeral_quotient:
  "\<lfloor>numeral a / numeral b :: rat\<rfloor> = numeral a div numeral b"
  "\<lceil>numeral a / numeral b :: rat\<rceil> = - (- numeral a div numeral b)"
  using floor_divide_of_int_eq [of "numeral a" "numeral b", where 'a = rat]
    floor_divide_of_int_eq [of "- numeral a" "numeral b", where 'a = rat]
  by (simp_all add: ceiling_def)

text \<open>The equations that evaluate rounding and printing on closed terms.\<close>

lemmas rounding_eval = fl_def round_pos_def ulp_exp_def binexp_def int_bits.simps
  round_half_even_def Let_def floor_numeral_quotient

lemmas float_eval = rounding_eval rnd_def zero_of_def inf_of_def is_zero_def sign_bit_def ddiv_def
  dmul_def dsub_def dadd_def dbl_of_int_def

section \<open>Counts, ratios and truncation\<close>

lemma pow_53_1024: "(2 :: rat) ^ 53 < 2 ^ 1024"
  by (intro power_strict_increasing) simp_all

lemma rnd_small:
  assumes "0 \<le> q" and "q \<le> 2 ^ 53"
  shows "rnd q = Fin (fl q)"
proof -
  have "fl q \<le> of_int (2 ^ 53)" using assms by (intro binary64.le_int) simp_all
  moreover have "0 \<le> fl q" using assms by (rule_tac binary64.nonneg)
  ultimately have "\<bar>fl q\<bar> \<le> 2 ^ 53" by simp
  then have "\<not> 2 ^ 1024 \<le> \<bar>fl q\<bar>" using pow_53_1024 by linarith
  then show ?thesis using assms by (simp add: rnd_def Let_def zero_of_def)
qed

lemma dbl_of_small_nat: "n \<le> 2 ^ 53 \<Longrightarrow> dbl_of_int (int n) = Fin (of_nat n)"
proof -
  assume n: "n \<le> 2 ^ 53"
  then have "(of_nat n :: rat) \<le> 2 ^ 53" by (metis of_nat_le_iff of_nat_numeral of_nat_power)
  then show ?thesis using n by (simp add: dbl_of_int_def rnd_small binary64.small_nat)
qed

text \<open>\<open>float(a) / float(b)\<close> for counts \<open>a\<close> and \<open>b\<close>.\<close>

definition count_ratio :: "nat \<Rightarrow> nat \<Rightarrow> dbl result" where
  "count_ratio a b = ddiv (dbl_of_int (int a)) (dbl_of_int (int b))"

lemma count_ratio_unit:
  assumes "a \<le> b" and "0 < b" and "b \<le> 2 ^ 53"
  shows "count_ratio a b = Inr (Fin (fl (of_nat a / of_nat b)))"
    and "0 \<le> fl (of_nat a / of_nat b)" and "fl (of_nat a / of_nat b) \<le> 1"
proof -
  have r: "0 \<le> (of_nat a / of_nat b :: rat)" "(of_nat a / of_nat b :: rat) \<le> 1"
    using assms by simp_all
  moreover have "(1 :: rat) \<le> 2 ^ 53" by simp
  ultimately have "(of_nat a / of_nat b :: rat) \<le> 2 ^ 53" by (metis order_trans)
  with r have "rnd (of_nat a / of_nat b) = Fin (fl (of_nat a / of_nat b))" by (intro rnd_small)
  then show "count_ratio a b = Inr (Fin (fl (of_nat a / of_nat b)))"
    using assms by (simp add: count_ratio_def dbl_of_small_nat ddiv_def is_zero_def sign_bit_def
        zero_of_def Let_def)
  show "0 \<le> fl (of_nat a / of_nat b)" and "fl (of_nat a / of_nat b) \<le> 1"
    using binary64.ratio [OF assms(1,2)] by simp_all
qed

lemma count_ratio_zero: "count_ratio a 0 = Inl ZeroDivisionError"
  by (simp add: count_ratio_def ddiv_def dbl_of_int_def rnd_def is_zero_def zero_of_def)

text \<open>\<open>math.floor\<close>, \<open>math.ceil\<close> and \<open>int\<close> of a float.\<close>

definition to_integer :: "(rat \<Rightarrow> int) \<Rightarrow> dbl \<Rightarrow> int result" where
  "to_integer f x = (if x = NaN then Inl ValueError else if x \<in> {PInf, MInf} then Inl OverflowError
     else Inr (f (dval x)))"

definition dfloor :: "dbl \<Rightarrow> int result" where
  "dfloor = to_integer floor"

definition dceil :: "dbl \<Rightarrow> int result" where
  "dceil = to_integer ceiling"

definition dtrunc :: "dbl \<Rightarrow> int result" where
  "dtrunc = to_integer (\<lambda>q. if q < 0 then \<lceil>q\<rceil> else \<lfloor>q\<rfloor>)"

lemma to_integer_Fin [simp]: "to_integer f (Fin q) = Inr (f q)"
  by (simp add: to_integer_def)

section \<open>Formatting and rounding to decimals\<close>

definition pad_zeros :: "nat \<Rightarrow> string \<Rightarrow> string" where
  "pad_zeros n s = replicate (n - length s) (CHR ''0'') @ s"

definition fixed_digits :: "nat \<Rightarrow> int \<Rightarrow> string" where
  "fixed_digits n m =
     dec_str (m div 10 ^ n) @ (if n = 0 then [] else CHR ''.'' # pad_zeros n (dec_str (m mod 10 ^ n)))"

text \<open>\<open>f"{x:.nf}"\<close>.\<close>

definition fmt_fixed :: "nat \<Rightarrow> dbl \<Rightarrow> string" where
  "fmt_fixed n x = (case x of
      NaN \<Rightarrow> ''nan'' | PInf \<Rightarrow> ''inf'' | MInf \<Rightarrow> ''-inf''
    | _ \<Rightarrow> (if sign_bit x then ''-'' else []) @
        fixed_digits n (round_half_even (\<bar>dval x\<bar> * 10 ^ n)))"

text \<open>\<open>round(x, n)\<close> for a positive \<open>n\<close>.\<close>

definition py_round :: "nat \<Rightarrow> dbl \<Rightarrow> dbl" where
  "py_round n x = (case x of
      Fin q \<Rightarrow> (let r = of_int (round_half_even (q * 10 ^ n)) / 10 ^ n
        in if r = 0 then zero_of (q < 0) else rnd r)
    | _ \<Rightarrow> x)"

lemma length_fixed_digits:
  "0 < n \<Longrightarrow> length (fixed_digits n m) = length (dec_str (m div 10 ^ n)) + Suc n"
  using length_dec_str [of "m mod 10 ^ n" n] by (simp add: fixed_digits_def pad_zeros_def)

text \<open>A ratio is printed with one digit before the point.\<close>

lemma length_fmt_ratio:
  assumes "0 \<le> q" and "q \<le> 1" and "0 < n"
  shows "length (fmt_fixed n (Fin q)) = n + 2"
proof -
  have "round_half_even (q * 10 ^ n) \<le> 10 ^ n"
    using assms by (intro round_half_even_le) (simp add: mult_left_le_one_le)
  then have "round_half_even (q * 10 ^ n) div 10 ^ n \<le> 10 ^ n div 10 ^ n"
    by (rule zdiv_mono1) simp
  then have "round_half_even (q * 10 ^ n) div 10 ^ n < 10" by simp
  then have "length (dec_str (round_half_even (q * 10 ^ n) div 10 ^ n)) = 1"
    by (subst dec_str.simps) simp
  then show ?thesis using assms by (simp add: fmt_fixed_def sign_bit_def length_fixed_digits)
qed

lemma digit_chars:
  "digit_char 0 = CHR ''0''" "digit_char 1 = CHR ''1''" "digit_char 2 = CHR ''2''"
  "digit_char 3 = CHR ''3''" "digit_char 4 = CHR ''4''" "digit_char 5 = CHR ''5''"
  "digit_char 6 = CHR ''6''" "digit_char 7 = CHR ''7''" "digit_char 8 = CHR ''8''"
  "digit_char 9 = CHR ''9''"
  by code_simp+

lemmas print_eval = fmt_fixed_def fixed_digits_def pad_zeros_def dec_str.simps int_str_def
  digit_chars

section \<open>Reading floats\<close>

text \<open>Underscores may stand between two digits only.\<close>

definition is_digit :: "char \<Rightarrow> bool" where
  "is_digit c \<longleftrightarrow> digit_val 10 c \<noteq> None"

fun drop_underscores :: "bool \<Rightarrow> string \<Rightarrow> string option" where
  "drop_underscores prev [] = Some []"
| "drop_underscores prev (c # cs) =
     (if c = CHR ''_'' then
        (if prev \<and> cs \<noteq> [] \<and> is_digit (hd cs) then drop_underscores False cs else None)
      else map_option (Cons c) (drop_underscores (is_digit c) cs))"

definition digits_int :: "string \<Rightarrow> int" where
  "digits_int ds = fold (\<lambda>c n. n * 10 + the (digit_val 10 c)) ds 0"

definition lower :: "char \<Rightarrow> char" where
  "lower c = (let n = of_char c :: nat in if 65 \<le> n \<and> n \<le> 90 then char_of (n + 32) else c)"

definition scan_exponent :: "string \<Rightarrow> int option" where
  "scan_exponent s =
     (if s = [] then Some 0
      else if lower (hd s) \<noteq> CHR ''e'' then None
      else (let (neg, ds) = split_sign (tl s)
        in if ds \<noteq> [] \<and> list_all is_digit ds then Some (with_sign neg (digits_int ds)) else None))"

definition scan_decimal :: "bool \<Rightarrow> string \<Rightarrow> dbl option" where
  "scan_decimal neg s =
     (let whole = takeWhile is_digit s; r = dropWhile is_digit s;
          dot = (take 1 r = ''.'');
          frac = (if dot then takeWhile is_digit (tl r) else []);
          rest = (if dot then dropWhile is_digit (tl r) else r)
      in if whole = [] \<and> frac = [] then None
         else case scan_exponent rest of
             None \<Rightarrow> None
           | Some e \<Rightarrow>
               (let q = of_int (digits_int (whole @ frac)) * 10 powi (e - int (length frac))
                in Some (if q = 0 then zero_of neg else rnd (if neg then - q else q))))"

text \<open>\<open>float(s)\<close>; \<open>None\<close> is \<open>ValueError\<close>.\<close>

definition py_float :: "string \<Rightarrow> dbl option" where
  "py_float s = (let (neg, body) = split_sign (strip s); w = map lower body
     in if w = ''nan'' then Some NaN
        else if w = ''inf'' \<or> w = ''infinity'' then Some (inf_of neg)
        else Option.bind (drop_underscores False body) (scan_decimal neg))"

subsection \<open>Reading back a printed decimal\<close>

lemma is_digit_char [simp]: "0 \<le> d \<Longrightarrow> d < 10 \<Longrightarrow> is_digit (digit_char d)"
  by (simp add: is_digit_def)

lemma is_digit_cases: "is_digit c \<Longrightarrow> \<exists>d. 0 \<le> d \<and> d < 10 \<and> c = digit_char d"
proof -
  assume "is_digit c"
  then obtain d where d: "digit_val 10 c = Some d" by (auto simp: is_digit_def)
  then have n: "(of_char c :: int) = 48 + d" "0 \<le> d" "d < 10"
    by (auto simp: digit_val_def Let_def split: if_splits)
  then have "(of_char c :: int) = of_char (digit_char d)" by (simp add: of_char_digit_int)
  then have "c = digit_char d" by (simp only: of_char_eq_iff)
  with n show ?thesis by blast
qed

lemma dec_str_is_digit: "0 \<le> n \<Longrightarrow> c \<in> set (dec_str n) \<Longrightarrow> is_digit c"
  using dec_str_digits by fastforce

lemma digits_fold:
  "fold (\<lambda>c n. n * 10 + the (digit_val 10 c)) ds a = a * 10 ^ length ds + digits_int ds"
proof (induction ds rule: rev_induct)
  case (snoc c ds)
  then show ?case by (simp add: digits_int_def algebra_simps)
qed (simp add: digits_int_def)

lemma digits_int_append: "digits_int (xs @ ys) = digits_int xs * 10 ^ length ys + digits_int ys"
  using digits_fold [of ys "digits_int xs"] by (simp add: digits_int_def)

lemma digits_int_dec_str: "0 \<le> n \<Longrightarrow> digits_int (dec_str n) = n"
proof (induction n rule: dec_str.induct)
  case (1 n)
  show ?case
  proof (cases "n < 10")
    case True
    then show ?thesis using 1 by (simp add: dec_str.simps [of n] digits_int_def)
  next
    case False
    then have "digits_int (dec_str (n div 10)) = n div 10" using 1 by simp
    then show ?thesis
      using False by (simp add: dec_str.simps [of n] digits_int_append) (simp add: digits_int_def)
  qed
qed

lemma digits_int_zeros: "digits_int (replicate k (CHR ''0'')) = 0"
proof -
  have "digit_val 10 (CHR ''0'') = Some 0" using digit_val_digit [of 0] by (simp add: digit_chars)
  then show ?thesis by (induction k) (simp_all add: digits_int_def)
qed

lemma lower_digit: "is_digit c \<Longrightarrow> lower c = c"
  by (auto dest!: is_digit_cases simp: lower_def of_char_digit Let_def)

lemma digit_not_special: "is_digit c \<Longrightarrow> c \<noteq> CHR ''_'' \<and> c \<noteq> CHR ''-'' \<and> c \<noteq> CHR ''+'' \<and> c \<noteq> CHR ''.'' \<and> \<not> is_space c"
proof -
  assume c: "is_digit c"
  have "\<not> is_digit (CHR ''.'')" by code_simp
  with c have "c \<noteq> CHR ''.''" by blast
  with c show ?thesis by (auto dest!: is_digit_cases simp: digit_char_plain)
qed

lemma drop_underscores_plain: "CHR ''_'' \<notin> set s \<Longrightarrow> drop_underscores p s = Some s"
  by (induction s arbitrary: p) auto

lemma scan_decimal_plain:
  assumes "list_all is_digit ws" and "list_all is_digit fs" and "ws \<noteq> []"
  shows "scan_decimal neg (ws @ CHR ''.'' # fs) =
    (let q = of_int (digits_int (ws @ fs)) / 10 ^ length fs
     in Some (if q = 0 then zero_of neg else rnd (if neg then - q else q)))"
proof -
  have nd: "\<not> is_digit (CHR ''.'')" by code_simp
  have w: "takeWhile is_digit (ws @ CHR ''.'' # fs) = ws" "dropWhile is_digit (ws @ CHR ''.'' # fs) = CHR ''.'' # fs"
    using assms(1) nd by (induction ws) auto
  have f: "takeWhile is_digit fs = fs" "dropWhile is_digit fs = []"
    using assms(2) by (auto simp: list_all_iff)
  have "(10 :: rat) powi (- int (length fs)) = 1 / 10 ^ length fs"
    by (simp add: power_int_minus field_simps)
  then show ?thesis
    using assms(3) by (simp add: scan_decimal_def w f scan_exponent_def Let_def)
qed

lemma py_float_plain:
  assumes "list_all is_digit ws" and "list_all is_digit fs" and "ws \<noteq> []" and "fs \<noteq> []"
  shows "py_float (ws @ CHR ''.'' # fs) = scan_decimal False (ws @ CHR ''.'' # fs)"
proof -
  let ?s = "ws @ CHR ''.'' # fs"
  obtain c cs where ws: "ws = c # cs" using assms(3) by (cases ws) auto
  have c: "is_digit c" using assms(1) ws by simp
  have "is_digit (last fs)" using assms(2,4) by (simp add: list_all_iff)
  then have "strip ?s = ?s"
    using c assms(4) ws digit_not_special by (intro strip_id) auto
  moreover have "split_sign ?s = (False, ?s)" using digit_not_special [OF c] ws by simp
  moreover have "map lower ?s \<noteq> ''nan''" "map lower ?s \<noteq> ''inf''" "map lower ?s \<noteq> ''infinity''"
  proof -
    have "\<not> is_digit (CHR ''n'')" "\<not> is_digit (CHR ''i'')" by code_simp+
    then show "map lower ?s \<noteq> ''nan''" "map lower ?s \<noteq> ''inf''" "map lower ?s \<noteq> ''infinity''"
      using c lower_digit [OF c] ws by auto
  qed
  moreover have "CHR ''_'' \<notin> set ?s"
    using assms(1,2) digit_not_special by (auto simp: list_all_iff)
  ultimately show ?thesis by (simp add: py_float_def drop_underscores_plain)
qed

text \<open>Reading a fixed-point text gives the double nearest to the decimal number it shows.\<close>

lemma py_float_fixed:
  assumes "0 \<le> m" and "0 < n"
  shows "py_float (fixed_digits n m) = Some (if m = 0 then Fin 0 else rnd (of_int m / 10 ^ n))"
proof -
  let ?ws = "dec_str (m div 10 ^ n)" and ?fs = "pad_zeros n (dec_str (m mod 10 ^ n))"
  have mn: "0 \<le> m div 10 ^ n" "0 \<le> m mod 10 ^ n" "m mod 10 ^ n < 10 ^ n"
    using assms(1) by (simp_all add: pos_imp_zdiv_nonneg_iff)
  have len: "length ?fs = n" using length_dec_str [OF mn(2,3) assms(2)] by (simp add: pad_zeros_def)
  have "list_all is_digit ?ws" using dec_str_is_digit [OF mn(1)] by (simp add: list_all_iff)
  moreover have "list_all is_digit ?fs"
    using dec_str_is_digit [OF mn(2)] is_digit_char [of 0] by (auto simp: list_all_iff pad_zeros_def digit_chars)
  moreover have "?fs \<noteq> []" using len assms(2) by auto
  moreover have "digits_int (?ws @ ?fs) = m"
  proof -
    have "digits_int ?fs = m mod 10 ^ n"
      using digits_int_dec_str [OF mn(2)] by (simp add: pad_zeros_def digits_int_append digits_int_zeros)
    then show ?thesis using digits_int_dec_str [OF mn(1)] len div_mult_mod_eq [of m "10 ^ n"]
      by (simp only: digits_int_append)
  qed
  ultimately show ?thesis
    using assms(2) len by (simp add: fixed_digits_def py_float_plain scan_decimal_plain Let_def zero_of_def)
qed

lemma py_float_fmt:
  assumes "0 \<le> q" and "0 < n"
  shows "py_float (fmt_fixed n (Fin q)) =
    Some (if round_half_even (q * 10 ^ n) = 0 then Fin 0 else rnd (of_int (round_half_even (q * 10 ^ n)) / 10 ^ n))"
proof -
  have "0 \<le> round_half_even (q * 10 ^ n)" using assms(1) by (intro round_half_even_ge) simp
  then show ?thesis
    using assms py_float_fixed by (simp add: fmt_fixed_def sign_bit_def)
qed

end
