(* ===== verification/Dataset_Build.thy ===== *)
theory Dataset_Build
  imports Csv_Rows Py_Float
begin

text \<open>
  \<open>scripts/phase3_build_dataset.py\<close>: reads the artifact directory of every selected experiment,
  writes one line per experiment to \<open>raw_index.csv\<close> and the telemetry windows of the included
  experiments, extended by eight derived columns and sorted, to \<open>windows_all.csv\<close>. A file is its
  content or absent; \<open>json.load\<close>, applied to a text, is the parameter \<open>loads\<close>, whose result is the
  decoded object cut down to its string-or-null members.
\<close>

section \<open>Columns\<close>

definition DERIVED_FIELDS :: "string list" where
  "DERIVED_FIELDS =
     [''experiment_type'', ''split'', ''is_baseline_experiment'', ''traffic_probe_total'',
      ''traffic_probe_success'', ''traffic_probe_success_rate'', ''event_count'',
      ''source_artifact_dir'']"

definition INDEX_FIELDS :: "string list" where
  "INDEX_FIELDS =
     [''experiment_id'', ''scenario'', ''primary_label'', ''included'', ''status'', ''reason'',
      ''node_count'', ''node_names'', ''event_count'', ''traffic_probe_total'',
      ''traffic_probe_success'', ''traffic_probe_success_rate'', ''artifact_dir'',
      ''agent_log_count'']"

section \<open>Inputs\<close>

type_synonym json_object = "(string, string option) pydict"

type_synonym loader = "string \<Rightarrow> json_object result"

record artifact =
  meta_json :: "string option"
  events_jsonl :: "string list option"
  traffic_csv :: "csv option"
  telemetry :: "(string \<times> csv) list option"
  agent_logs :: "string list option"

record traffic_stats =
  probe_total :: nat
  probe_success :: nat
  probe_rate :: string

record selection =
  included_experiments :: "string list"
  excluded_experiments :: "string list"

record build_args =
  artifacts_dir :: string
  output_dir :: string
  selection_file :: string
  include_experiment :: "string list"
  exclude_experiment :: "string list"

text \<open>Lines of \<open>events.jsonl\<close>: blank ones are skipped, the first undecodable one raises.\<close>

definition load_events :: "loader \<Rightarrow> string list \<Rightarrow> json_object list result" where
  "load_events loads lines = map_result loads (filter (\<lambda>l. l \<noteq> []) (map strip lines))"

definition probe_ok :: "row \<Rightarrow> bool" where
  "probe_ok r \<longleftrightarrow> row_get r ''ok'' = Some (Some ''1'')"

definition load_traffic_stats :: "csv \<Rightarrow> traffic_stats result" where
  "load_traffic_stats f =
     (let rows = dict_reader f;
          total = length rows;
          success = length (filter probe_ok rows)
      in bind_result (if total \<noteq> 0 then count_ratio success total else Inr (Fin 0))
           (\<lambda>rate. Inr \<lparr>probe_total = total, probe_success = success,
                        probe_rate = fmt_fixed 6 rate\<rparr>))"

definition no_traffic :: traffic_stats where
  "no_traffic = \<lparr>probe_total = 0, probe_success = 0, probe_rate = ''0.000000''\<rparr>"

text \<open>The truthy labels of the events, without \<open>normal\<close>, in code point order.\<close>

definition event_labels :: "json_object list \<Rightarrow> string list" where
  "event_labels events =
     sort (uniq (filter (\<lambda>l. l \<noteq> [] \<and> l \<noteq> ''normal'')
       (map (\<lambda>e. case dict_get e ''label'' of Some (Some l) \<Rightarrow> l | _ \<Rightarrow> []) events)))"

definition scenario_to_label :: "json_object list \<Rightarrow> string option \<Rightarrow> string" where
  "scenario_to_label events scenario =
     (case event_labels events of
        [l] \<Rightarrow> l
      | l # l' # ls \<Rightarrow> join '','' (l # l' # ls)
      | [] \<Rightarrow> if scenario = Some ''normal_steady_state'' then ''normal'' else ''unknown'')"

definition stable_int :: "string option \<Rightarrow> int" where
  "stable_int v = (case v of None \<Rightarrow> 0 | Some s \<Rightarrow> (case py_int s of None \<Rightarrow> 0 | Some i \<Rightarrow> i))"

text \<open>
  The selection file: absent, undecodable, or an object whose members are lists of strings
  (\<open>Some\<close>) or something else (\<open>None\<close>).
\<close>

definition load_experiment_selection ::
  "string \<Rightarrow> (string, string list option) pydict result option \<Rightarrow> selection result" where
  "load_experiment_selection path file =
     (case file of
        None \<Rightarrow> Inl (SystemExit (''selection file not found: '' @ path))
      | Some content \<Rightarrow> bind_result content (\<lambda>data.
          case (dict_get_or (Some []) data ''included_experiments'',
                dict_get_or (Some []) data ''excluded_experiments'') of
            (Some inc, Some exc) \<Rightarrow>
              Inr \<lparr>included_experiments = inc, excluded_experiments = exc\<rparr>
          | _ \<Rightarrow> Inl (SystemExit (''invalid selection file format: '' @ path))))"

section \<open>One experiment\<close>

definition path_join :: "string \<Rightarrow> string \<Rightarrow> string" where
  "path_join d n = (if n = [] then d else if hd n = CHR ''/'' then n else d @ ''/'' @ n)"

text \<open>\<open>Path(name).stem\<close>: a dot that is the first or the last character does not start a suffix.\<close>

definition path_stem :: "string \<Rightarrow> string" where
  "path_stem name =
     (let suffix = length (takeWhile (\<lambda>c. c \<noteq> CHR ''.'') (rev name)); i = length name - suffix - 1
      in if CHR ''.'' \<in> set name \<and> 0 < i \<and> i < length name - 1 then take i name else name)"

definition missing_parts :: "artifact \<Rightarrow> string list" where
  "missing_parts a =
     map fst (filter (\<lambda>(_, present). \<not> present)
       [(''meta.json'', meta_json a \<noteq> None), (''events.jsonl'', events_jsonl a \<noteq> None),
        (''traffic.csv'', traffic_csv a \<noteq> None), (''telemetry'', telemetry a \<noteq> None)])"

definition experiment_status :: "string set \<Rightarrow> string \<Rightarrow> artifact \<Rightarrow> string \<times> string" where
  "experiment_status exclude_ids experiment_id a =
     (if experiment_id \<in> exclude_ids then (''excluded'', ''explicit_excluded'')
      else if missing_parts a \<noteq> [] then (''excluded'', ''missing:'' @ join '','' (missing_parts a))
      else (''included'', ''''))"

definition node_csvs :: "artifact \<Rightarrow> (string \<times> csv) list" where
  "node_csvs a = (case telemetry a of None \<Rightarrow> [] | Some fs \<Rightarrow> sort_key fst fs)"

text \<open>What is read of an experiment before its windows.\<close>

record loaded =
  l_meta :: json_object
  l_events :: "json_object list"
  l_traffic :: traffic_stats

definition load_experiment :: "loader \<Rightarrow> artifact \<Rightarrow> loaded result" where
  "load_experiment loads a =
     bind_result (case meta_json a of Some t \<Rightarrow> loads t | None \<Rightarrow> Inr []) (\<lambda>meta.
     bind_result (case events_jsonl a of Some ls \<Rightarrow> load_events loads ls | None \<Rightarrow> Inr []) (\<lambda>events.
     bind_result (case traffic_csv a of Some f \<Rightarrow> load_traffic_stats f | None \<Rightarrow> Inr no_traffic)
       (\<lambda>traffic. Inr \<lparr>l_meta = meta, l_events = events, l_traffic = traffic\<rparr>)))"

definition scenario_of :: "loaded \<Rightarrow> string option" where
  "scenario_of l = dict_get_or (Some []) (l_meta l) ''scenario''"

definition index_row :: "string \<Rightarrow> string set \<Rightarrow> string \<Rightarrow> artifact \<Rightarrow> loaded \<Rightarrow> row" where
  "index_row dir exclude_ids experiment_id a l =
     (let (status, reason) = experiment_status exclude_ids experiment_id a
      in \<lparr>cols = zip INDEX_FIELDS
           [Some experiment_id,
            scenario_of l,
            Some (scenario_to_label (l_events l) (scenario_of l)),
            Some (if status = ''included'' then ''1'' else ''0''),
            Some status,
            Some reason,
            Some (nat_str (length (node_csvs a))),
            Some (join '','' (map (path_stem \<circ> fst) (node_csvs a))),
            Some (nat_str (length (l_events l))),
            Some (nat_str (probe_total (l_traffic l))),
            Some (nat_str (probe_success (l_traffic l))),
            Some (probe_rate (l_traffic l)),
            Some (path_join dir experiment_id),
            Some (nat_str (case agent_logs a of None \<Rightarrow> 0 | Some ls \<Rightarrow> length ls))],
          extra = []\<rparr>)"

definition put_field :: "string \<Rightarrow> string option \<Rightarrow> row \<Rightarrow> row" where
  "put_field k v r = r\<lparr>cols := dict_set k v (cols r)\<rparr>"

definition derive_row :: "string \<Rightarrow> loaded \<Rightarrow> row \<Rightarrow> row" where
  "derive_row artifact_dir l r =
     (put_field ''source_artifact_dir'' (Some artifact_dir) \<circ>
      put_field ''event_count'' (Some (nat_str (length (l_events l)))) \<circ>
      put_field ''traffic_probe_success_rate'' (Some (probe_rate (l_traffic l))) \<circ>
      put_field ''traffic_probe_success'' (Some (nat_str (probe_success (l_traffic l)))) \<circ>
      put_field ''traffic_probe_total'' (Some (nat_str (probe_total (l_traffic l)))) \<circ>
      put_field ''is_baseline_experiment''
        (Some (if dict_get (l_meta l) ''scenario'' = Some (Some ''normal_steady_state'')
               then ''1'' else ''0'')) \<circ>
      put_field ''split'' (Some []) \<circ>
      put_field ''experiment_type'' (scenario_of l)) r"

section \<open>The loop\<close>

record build_state =
  index_rows :: "row list"
  window_rows :: "row list"
  canonical_header :: "string list"

text \<open>\<open>repr\<close> of a list of column names, for names that need no escapes.\<close>

definition repr_list :: "string list \<Rightarrow> string" where
  "repr_list xs = ''['' @ join '', '' (map (\<lambda>x. [CHR 0x27] @ x @ [CHR 0x27]) xs) @ '']''"

definition add_node_csv ::
  "string \<Rightarrow> loaded \<Rightarrow> string \<times> csv \<Rightarrow> build_state \<Rightarrow> build_state result" where
  "add_node_csv artifact_dir l node s =
     (let (name, f) = node;
          header = reader_header f;
          s' = s\<lparr>canonical_header := (if canonical_header s = [] then header else canonical_header s),
                 window_rows := window_rows s @ map (derive_row artifact_dir l) (dict_reader f)\<rparr>
      in if canonical_header s \<noteq> [] \<and> header \<noteq> canonical_header s
         then Inl (SystemExit (''schema mismatch in '' @ path_join artifact_dir (''telemetry/'' @ name) @
           '': '' @ repr_list header @ '' != '' @ repr_list (canonical_header s)))
         else Inr s')"

definition build_experiment ::
  "loader \<Rightarrow> string \<Rightarrow> string set \<Rightarrow> (string \<Rightarrow> artifact) \<Rightarrow> string \<Rightarrow> build_state \<Rightarrow> build_state result" where
  "build_experiment loads dir exclude_ids arts experiment_id s =
     (let a = arts experiment_id in
      bind_result (load_experiment loads a) (\<lambda>l.
        let s' = s\<lparr>index_rows := index_rows s @ [index_row dir exclude_ids experiment_id a l]\<rparr>
        in if fst (experiment_status exclude_ids experiment_id a) \<noteq> ''included'' then Inr s'
           else fold_result (add_node_csv (path_join dir experiment_id) l) (node_csvs a) s'))"

definition build_collect ::
  "loader \<Rightarrow> string \<Rightarrow> string set \<Rightarrow> (string \<Rightarrow> artifact) \<Rightarrow> string list \<Rightarrow> build_state result" where
  "build_collect loads dir exclude_ids arts include_ids =
     fold_result (build_experiment loads dir exclude_ids arts) include_ids
       \<lparr>index_rows = [], window_rows = [], canonical_header = []\<rparr>"

section \<open>Sorting\<close>

datatype window_key = Window_Key (k_experiment: "string option") (k_node: "string option") (k_start: int)

instantiation window_key :: linorder
begin

definition less_eq_window_key :: "window_key \<Rightarrow> window_key \<Rightarrow> bool" where
  "less_eq_window_key a b \<longleftrightarrow>
     (k_experiment a, k_node a, k_start a) \<le> (k_experiment b, k_node b, k_start b)"

definition less_window_key :: "window_key \<Rightarrow> window_key \<Rightarrow> bool" where
  "less_window_key a b \<longleftrightarrow>
     (k_experiment a, k_node a, k_start a) < (k_experiment b, k_node b, k_start b)"

instance
proof
  fix x y z :: window_key
  show "(x < y) = (x \<le> y \<and> \<not> y \<le> x)"
    unfolding less_eq_window_key_def less_window_key_def by (rule less_le_not_le)
  show "x \<le> x"
    by (simp add: less_eq_window_key_def)
  show "x \<le> y \<Longrightarrow> y \<le> z \<Longrightarrow> x \<le> z"
    unfolding less_eq_window_key_def by (rule order_trans)
  show "x \<le> y \<Longrightarrow> y \<le> x \<Longrightarrow> x = y"
    unfolding less_eq_window_key_def
    by (drule (1) order_antisym) (simp add: window_key.expand)
  show "x \<le> y \<or> y \<le> x"
    unfolding less_eq_window_key_def by (rule linear)
qed

end

definition window_key_of :: "row \<Rightarrow> window_key" where
  "window_key_of r = Window_Key (row_get_or [] r ''experiment_id'') (row_get_or [] r ''node_name'')
     (stable_int (row_get_or ''0'' r ''window_start_unix_ms''))"

text \<open>
  Python cannot compare \<open>None\<close> with a string: the sort raises exactly when two keys differ first in
  a component that is \<open>None\<close> in one of them.
\<close>

definition all_or_none :: "'a option list \<Rightarrow> bool" where
  "all_or_none xs \<longleftrightarrow> list_all (\<lambda>x. x = None) xs \<or> list_all (\<lambda>x. x \<noteq> None) xs"

definition comparable_keys :: "window_key list \<Rightarrow> bool" where
  "comparable_keys ks \<longleftrightarrow> all_or_none (map k_experiment ks) \<and>
     list_all (\<lambda>k. all_or_none (map k_node (filter (\<lambda>k'. k_experiment k' = k_experiment k) ks))) ks"

definition sort_windows :: "row list \<Rightarrow> row list result" where
  "sort_windows rows =
     (if comparable_keys (map window_key_of rows) then Inr (sort_key window_key_of rows)
      else Inl TypeError)"

definition sort_index :: "row list \<Rightarrow> row list" where
  "sort_index rows = sort_key (\<lambda>r. row_get r ''experiment_id'') rows"

section \<open>The script\<close>

record build_manifest =
  built_at_utc :: string
  m_artifacts_dir :: string
  m_output_dir :: string
  m_selection_file :: string
  m_included :: "string list"
  m_excluded :: "string list"
  raw_index_csv :: string
  windows_all_csv :: string
  telemetry_field_count :: nat
  dataset_field_count :: nat
  row_count :: nat
  experiment_count :: nat

record build_files =
  raw_index :: "csv option"
  windows_all :: "csv option"
  manifest :: "build_manifest option"

definition no_files :: build_files where
  "no_files = \<lparr>raw_index = None, windows_all = None, manifest = None\<rparr>"

definition include_ids_of :: "build_args \<Rightarrow> selection \<Rightarrow> string list" where
  "include_ids_of args sel = uniq (included_experiments sel @ include_experiment args)"

definition exclude_ids_of :: "build_args \<Rightarrow> selection \<Rightarrow> string list" where
  "exclude_ids_of args sel = sort (uniq (excluded_experiments sel @ exclude_experiment args))"

definition make_manifest ::
  "build_args \<Rightarrow> selection \<Rightarrow> string \<Rightarrow> string list \<Rightarrow> row list \<Rightarrow> build_manifest result" where
  "make_manifest args sel now header rows =
     bind_result (map_result (\<lambda>r. row_index r ''experiment_id'') rows) (\<lambda>ids.
       Inr \<lparr>built_at_utc = now, m_artifacts_dir = artifacts_dir args, m_output_dir = output_dir args,
            m_selection_file = selection_file args, m_included = include_ids_of args sel,
            m_excluded = exclude_ids_of args sel,
            raw_index_csv = path_join (output_dir args) ''raw_index.csv'',
            windows_all_csv = path_join (output_dir args) ''windows_all.csv'',
            telemetry_field_count = length header,
            dataset_field_count = length (header @ DERIVED_FIELDS),
            row_count = length rows, experiment_count = length (uniq ids)\<rparr>)"

text \<open>
  Writing out: the index first, then, when some telemetry header was seen, the windows, then the
  manifest. A file is there up to the row that raised.
\<close>

definition build_write ::
  "build_args \<Rightarrow> selection \<Rightarrow> string \<Rightarrow> row list \<Rightarrow> row list \<Rightarrow> string list \<Rightarrow> build_files \<times> unit result" where
  "build_write args sel now idx wins header =
     (let (f1, r1) = dict_write INDEX_FIELDS idx;
          out1 = no_files\<lparr>raw_index := Some f1\<rparr>
      in case r1 of Inl e \<Rightarrow> (out1, Inl e) | Inr _ \<Rightarrow>
         if header = [] then (out1, Inl (SystemExit ''no included telemetry rows found'')) else
         (let (f2, r2) = dict_write (header @ DERIVED_FIELDS) wins;
              out2 = out1\<lparr>windows_all := Some f2\<rparr>
          in case r2 of Inl e \<Rightarrow> (out2, Inl e) | Inr _ \<Rightarrow>
             (case make_manifest args sel now header wins of
                Inl e \<Rightarrow> (out2, Inl e)
              | Inr m \<Rightarrow> (out2\<lparr>manifest := Some m\<rparr>, Inr ()))))"

definition build_main ::
  "loader \<Rightarrow> build_args \<Rightarrow> (string, string list option) pydict result option \<Rightarrow>
     (string \<Rightarrow> artifact) \<Rightarrow> string \<Rightarrow> build_files \<times> unit result" where
  "build_main loads args sel_file arts now =
     (case load_experiment_selection (selection_file args) sel_file of
        Inl e \<Rightarrow> (no_files, Inl e)
      | Inr sel \<Rightarrow>
        (case build_collect loads (artifacts_dir args) (set (exclude_ids_of args sel)) arts
                (include_ids_of args sel) of
           Inl e \<Rightarrow> (no_files, Inl e)
         | Inr s \<Rightarrow>
           (case sort_windows (window_rows s) of
              Inl e \<Rightarrow> (no_files, Inl e)
            | Inr wins \<Rightarrow>
                build_write args sel now (sort_index (index_rows s)) wins (canonical_header s))))"


section \<open>What the loop collects\<close>

definition loaded_of :: "loader \<Rightarrow> artifact \<Rightarrow> loaded" where
  "loaded_of loads a = (case load_experiment loads a of
     Inr l \<Rightarrow> l | Inl _ \<Rightarrow> \<lparr>l_meta = [], l_events = [], l_traffic = no_traffic\<rparr>)"

definition is_included :: "string set \<Rightarrow> (string \<Rightarrow> artifact) \<Rightarrow> string \<Rightarrow> bool" where
  "is_included exclude_ids arts experiment_id \<longleftrightarrow>
     experiment_id \<notin> exclude_ids \<and> missing_parts (arts experiment_id) = []"

definition experiment_windows :: "loader \<Rightarrow> string \<Rightarrow> (string \<Rightarrow> artifact) \<Rightarrow> string \<Rightarrow> row list" where
  "experiment_windows loads dir arts experiment_id =
     concat (map (\<lambda>(name, f). map (derive_row (path_join dir experiment_id) (loaded_of loads (arts experiment_id)))
       (dict_reader f)) (node_csvs (arts experiment_id)))"

lemma experiment_status_included [simp]:
  "fst (experiment_status exclude_ids experiment_id (arts experiment_id)) = ''included'' \<longleftrightarrow>
     is_included exclude_ids arts experiment_id"
  by (simp add: experiment_status_def is_included_def)

lemma add_node_csv_rows:
  assumes "add_node_csv dir l node s = Inr s'"
  shows "window_rows s' = window_rows s @ map (derive_row dir l) (dict_reader (snd node))"
    and "index_rows s' = index_rows s"
    and "canonical_header s' = (if canonical_header s = [] then reader_header (snd node) else canonical_header s)"
    and "canonical_header s = [] \<or> reader_header (snd node) = canonical_header s"
  using assms by (auto simp: add_node_csv_def Let_def split: prod.splits if_splits)

lemma fold_nodes_rows:
  "fold_result (add_node_csv dir l) nodes s = Inr s' \<Longrightarrow>
     window_rows s' = window_rows s @ concat (map (\<lambda>(_, f). map (derive_row dir l) (dict_reader f)) nodes) \<and>
     index_rows s' = index_rows s"
proof (induction nodes arbitrary: s)
  case (Cons node nodes)
  obtain s1 where 1: "add_node_csv dir l node s = Inr s1"
    and 2: "fold_result (add_node_csv dir l) nodes s1 = Inr s'"
    using Cons.prems by (auto simp: bind_result_Inr)
  show ?case using Cons.IH [OF 2] add_node_csv_rows [OF 1] by (cases node) simp
qed simp

lemma build_experiment_steps:
  assumes "build_experiment loads dir exclude_ids arts x s = Inr s'"
  obtains l s0 where "load_experiment loads (arts x) = Inr l" and "loaded_of loads (arts x) = l"
    and "s0 = s\<lparr>index_rows := index_rows s @ [index_row dir exclude_ids x (arts x) l]\<rparr>"
    and "is_included exclude_ids arts x \<Longrightarrow>
      fold_result (add_node_csv (path_join dir x) l) (node_csvs (arts x)) s0 = Inr s'"
    and "\<not> is_included exclude_ids arts x \<Longrightarrow> s' = s0"
  using assms by (auto simp: build_experiment_def Let_def bind_result_Inr loaded_of_def split: if_splits)

lemma build_experiment_Inr:
  assumes "build_experiment loads dir exclude_ids arts x s = Inr s'"
  shows "index_rows s' = index_rows s @ [index_row dir exclude_ids x (arts x) (loaded_of loads (arts x))] \<and>
    window_rows s' = window_rows s @
      (if is_included exclude_ids arts x then experiment_windows loads dir arts x else [])"
  using assms
proof (rule build_experiment_steps)
  fix l s0
  assume "loaded_of loads (arts x) = l"
    and "s0 = s\<lparr>index_rows := index_rows s @ [index_row dir exclude_ids x (arts x) l]\<rparr>"
    and "is_included exclude_ids arts x \<Longrightarrow>
      fold_result (add_node_csv (path_join dir x) l) (node_csvs (arts x)) s0 = Inr s'"
    and "\<not> is_included exclude_ids arts x \<Longrightarrow> s' = s0"
  then show ?thesis
    using fold_nodes_rows [of "path_join dir x" l "node_csvs (arts x)" s0 s']
    by (simp add: experiment_windows_def)
qed

lemma fold_build_Inr:
  "fold_result (build_experiment loads dir exclude_ids arts) ids s = Inr s' \<Longrightarrow>
     index_rows s' = index_rows s @
       map (\<lambda>x. index_row dir exclude_ids x (arts x) (loaded_of loads (arts x))) ids \<and>
     window_rows s' = window_rows s @
       concat (map (experiment_windows loads dir arts) (filter (is_included exclude_ids arts) ids))"
proof (induction ids arbitrary: s)
  case (Cons x ids)
  obtain s1 where 1: "build_experiment loads dir exclude_ids arts x s = Inr s1"
    and 2: "fold_result (build_experiment loads dir exclude_ids arts) ids s1 = Inr s'"
    using Cons.prems by (auto simp: bind_result_Inr)
  show ?case using Cons.IH [OF 2] build_experiment_Inr [OF 1] by simp
qed simp

lemmas build_collect_rows = fold_build_Inr [where s = "\<lparr>index_rows = [], window_rows = [], canonical_header = []\<rparr>",
  folded build_collect_def, simplified]


section \<open>The header\<close>

definition headers_agree :: "string list \<Rightarrow> (string \<times> csv) list \<Rightarrow> bool" where
  "headers_agree h nodes \<longleftrightarrow>
     list_all (\<lambda>(_, f). reader_header f = [] \<or> reader_header f = h) nodes"

lemma headers_agree_mono: "headers_agree h nodes \<Longrightarrow> (h \<noteq> [] \<longrightarrow> h' = h) \<Longrightarrow> headers_agree h' nodes"
  by (auto simp: headers_agree_def list_all_iff)

lemma fold_nodes_header:
  "fold_result (add_node_csv dir l) nodes s = Inr s' \<Longrightarrow>
     (canonical_header s \<noteq> [] \<longrightarrow> canonical_header s' = canonical_header s) \<and>
     headers_agree (canonical_header s') nodes"
proof (induction nodes arbitrary: s)
  case (Cons node nodes)
  obtain s1 where 1: "add_node_csv dir l node s = Inr s1"
    and 2: "fold_result (add_node_csv dir l) nodes s1 = Inr s'"
    using Cons.prems by (auto simp: bind_result_Inr)
  show ?case using Cons.IH [OF 2] add_node_csv_rows(3,4) [OF 1]
    by (cases node) (auto simp: headers_agree_def split: if_splits)
qed (simp add: headers_agree_def)

lemma fold_build_header:
  "fold_result (build_experiment loads dir exclude_ids arts) ids s = Inr s' \<Longrightarrow>
     (canonical_header s \<noteq> [] \<longrightarrow> canonical_header s' = canonical_header s) \<and>
     (\<forall>x \<in> set ids. is_included exclude_ids arts x \<longrightarrow>
        headers_agree (canonical_header s') (node_csvs (arts x)))"
proof (induction ids arbitrary: s)
  case (Cons x ids)
  obtain s1 where 1: "build_experiment loads dir exclude_ids arts x s = Inr s1"
    and 2: "fold_result (build_experiment loads dir exclude_ids arts) ids s1 = Inr s'"
    using Cons.prems by (auto simp: bind_result_Inr)
  from 1 show ?case
  proof (rule build_experiment_steps)
    fix l s0
    assume s0: "s0 = s\<lparr>index_rows := index_rows s @ [index_row dir exclude_ids x (arts x) l]\<rparr>"
      and "is_included exclude_ids arts x \<Longrightarrow>
        fold_result (add_node_csv (path_join dir x) l) (node_csvs (arts x)) s0 = Inr s1"
      and "\<not> is_included exclude_ids arts x \<Longrightarrow> s1 = s0"
    then have "canonical_header s \<noteq> [] \<longrightarrow> canonical_header s1 = canonical_header s"
      and "is_included exclude_ids arts x \<longrightarrow> headers_agree (canonical_header s1) (node_csvs (arts x))"
      using fold_nodes_header [of "path_join dir x" l "node_csvs (arts x)" s0 s1]
      by (cases "is_included exclude_ids arts x"; simp)+
    then show ?thesis
      using Cons.IH [OF 2] headers_agree_mono [of "canonical_header s1" "node_csvs (arts x)"]
      by auto
  qed
qed simp

section \<open>Sorting\<close>

lemma row_get_index_row:
  "row_get (index_row dir exclude_ids x (arts x) l) ''experiment_id'' = Some (Some x)"
  "row_get (index_row dir exclude_ids x (arts x) l) ''included'' =
     Some (Some (if is_included exclude_ids arts x then ''1'' else ''0''))"
  by (simp_all add: index_row_def INDEX_FIELDS_def row_get_def dict_get_def split: prod.splits)
    (metis experiment_status_included fst_conv)+

lemma sort_index_rows:
  "sort_index (map (\<lambda>x. index_row dir exclude_ids x (arts x) (f x)) ids) =
     map (\<lambda>x. index_row dir exclude_ids x (arts x) (f x)) (sort ids)"
proof -
  have "sort_key (\<lambda>x. Some (Some x)) ids = sort ids" by (rule sort_key_order_cong) simp
  then show ?thesis
    by (simp add: sort_index_def sort_key_map comp_def row_get_index_row)
qed

lemma write_index:
  "dict_write INDEX_FIELDS (map (\<lambda>x. index_row dir exclude_ids x (arts x) (f x)) ids) =
     (INDEX_FIELDS # map (\<lambda>x. row_cells INDEX_FIELDS (index_row dir exclude_ids x (arts x) (f x))) ids, Inr ())"
proof -
  have "set (dict_keys (cols (index_row dir exclude_ids x (arts x) l))) \<subseteq> set INDEX_FIELDS" for x l
    by (auto simp: index_row_def dict_keys_def set_zip split: prod.splits)
  moreover have "extra (index_row dir exclude_ids x (arts x) l) = []" for x l
    by (simp add: index_row_def split: prod.splits)
  ultimately show ?thesis
    by (simp add: dict_write_def write_rows_ok list_all_iff comp_def)
qed


section \<open>Derived rows\<close>

lemma row_get_put_field [dict_simps]:
  "row_get (put_field k v r) k' = (if k' = k then Some v else row_get r k')"
  by (simp add: row_get_def put_field_def dict_simps)

lemma keys_put_field [dict_simps]:
  "dict_keys (cols (put_field k v r)) =
     (if k \<in> set (dict_keys (cols r)) then dict_keys (cols r) else dict_keys (cols r) @ [k])"
  by (simp add: put_field_def dict_simps)

lemma set_keys_put_field:
  "set (dict_keys (cols (put_field k v r))) = insert k (set (dict_keys (cols r)))"
  by (auto simp: dict_simps)

lemma extra_put_field [simp]: "extra (put_field k v r) = extra r"
  by (simp add: put_field_def)

lemma wf_put_field [simp]: "dict_wf (cols r) \<Longrightarrow> dict_wf (cols (put_field k v r))"
  by (simp add: put_field_def dict_simps)

lemma row_get_derive_row:
  "k \<notin> set DERIVED_FIELDS \<Longrightarrow> row_get (derive_row d l r) k = row_get r k"
  by (simp add: derive_row_def dict_simps DERIVED_FIELDS_def)

lemma extra_derive_row [simp]: "extra (derive_row d l r) = extra r"
  by (simp add: derive_row_def)

lemma keys_derive_row:
  "set (dict_keys (cols (derive_row d l r))) = set (dict_keys (cols r)) \<union> set DERIVED_FIELDS"
  by (simp add: derive_row_def set_keys_put_field DERIVED_FIELDS_def insert_commute)

lemma row_fits_derive_row:
  assumes "row_fits h r" and "set h \<inter> set DERIVED_FIELDS = {}" and "scenario_of l \<noteq> None"
  shows "row_fits (h @ DERIVED_FIELDS) (derive_row d l r)"
proof -
  have "dict_keys (cols (derive_row d l r)) = h @ DERIVED_FIELDS"
    using assms(1,2) by (simp add: derive_row_def dict_simps DERIVED_FIELDS_def row_fits_def)
  moreover have "row_get (derive_row d l r) k \<notin> {None, Some None}" if "k \<in> set h" for k
    using that assms(1,2) by (auto simp: row_get_derive_row row_fits_def list_all_iff disjoint_iff split: option.splits)
  moreover have "row_get (derive_row d l r) k \<notin> {None, Some None}" if "k \<in> set DERIVED_FIELDS" for k
    using that assms(3) by (auto simp: derive_row_def dict_simps DERIVED_FIELDS_def)
  moreover have "dict_wf (cols (derive_row d l r))"
    using assms(1) by (simp add: derive_row_def row_fits_def)
  ultimately show ?thesis
    using assms(1) by (auto simp: row_fits_def list_all_iff split: option.splits)
qed

lemma row_fits_rectangular:
  "rectangular f \<Longrightarrow> r \<in> set (dict_reader f) \<Longrightarrow> row_fits (reader_header f) r"
  by (auto simp: dict_reader_def rectangular_def list_all_iff intro: row_fits_reader_row)

section \<open>Inputs on which the loop succeeds\<close>

definition loads_ok :: "loader \<Rightarrow> artifact \<Rightarrow> bool" where
  "loads_ok loads a = (case load_experiment loads a of Inl _ \<Rightarrow> False | Inr _ \<Rightarrow> True)"

definition telemetry_ok :: "string list \<Rightarrow> artifact \<Rightarrow> bool" where
  "telemetry_ok h a \<longleftrightarrow> list_all (\<lambda>(_, f). reader_header f = h \<and> rectangular f) (node_csvs a)"

lemma fold_nodes_ok:
  assumes "list_all (\<lambda>(_, f). reader_header f = h) nodes" and "canonical_header s \<in> {[], h}"
  shows "\<exists>s'. fold_result (add_node_csv d l) nodes s = Inr s' \<and>
    canonical_header s' = (if nodes = [] then canonical_header s else h)"
  using assms
proof (induction nodes arbitrary: s)
  case (Cons node nodes)
  obtain s1 where 1: "add_node_csv d l node s = Inr s1" and "canonical_header s1 = h"
    using Cons.prems by (cases node) (auto simp: add_node_csv_def)
  then show ?case using Cons.IH [of s1] Cons.prems by (auto split: if_splits)
qed simp

lemma fold_build_ok:
  assumes "list_all (\<lambda>x. loads_ok loads (arts x) \<and>
      (is_included exclude_ids arts x \<longrightarrow> telemetry_ok h (arts x))) ids"
    and "canonical_header s \<in> {[], h}"
  shows "\<exists>s'. fold_result (build_experiment loads dir exclude_ids arts) ids s = Inr s' \<and>
    canonical_header s' =
      (if \<exists>x \<in> set ids. is_included exclude_ids arts x \<and> node_csvs (arts x) \<noteq> [] then h
       else canonical_header s)"
  using assms
proof (induction ids arbitrary: s)
  case (Cons x ids)
  obtain l where l: "load_experiment loads (arts x) = Inr l"
    using Cons.prems by (auto simp: loads_ok_def split: sum.splits)
  let ?s0 = "s\<lparr>index_rows := index_rows s @ [index_row dir exclude_ids x (arts x) l]\<rparr>"
  let ?new = "is_included exclude_ids arts x \<and> node_csvs (arts x) \<noteq> []"
  have "\<exists>s1. build_experiment loads dir exclude_ids arts x s = Inr s1 \<and>
      canonical_header s1 = (if ?new then h else canonical_header s)"
  proof (cases "is_included exclude_ids arts x")
    case True
    then have "list_all (\<lambda>(_, f). reader_header f = h) (node_csvs (arts x))"
      using Cons.prems(1) by (auto simp: telemetry_ok_def list_all_iff)
    then show ?thesis
      using fold_nodes_ok [of h "node_csvs (arts x)" ?s0 "path_join dir x" l] True Cons.prems(2)
      by (auto simp: build_experiment_def l Let_def)
  qed (simp add: build_experiment_def l Let_def)
  then obtain s1 where 1: "build_experiment loads dir exclude_ids arts x s = Inr s1"
    and h: "canonical_header s1 = (if ?new then h else canonical_header s)" by blast
  then have "canonical_header s1 \<in> {[], h}" using Cons.prems(2) by simp
  from Cons.IH [OF _ this] Cons.prems(1) obtain s' where
    "fold_result (build_experiment loads dir exclude_ids arts) ids s1 = Inr s'"
    "canonical_header s' =
      (if \<exists>x \<in> set ids. is_included exclude_ids arts x \<and> node_csvs (arts x) \<noteq> [] then h
       else canonical_header s1)"
    by auto
  then show ?case using 1 h by auto
qed simp

lemma experiment_windows_fit:
  assumes "telemetry_ok h (arts x)" and "r \<in> set (experiment_windows loads dir arts x)"
  obtains r0 f where "r = derive_row (path_join dir x) (loaded_of loads (arts x)) r0" and "row_fits h r0"
proof -
  obtain name f r0 where "(name, f) \<in> set (node_csvs (arts x))" and r0: "r0 \<in> set (dict_reader f)"
    and r: "r = derive_row (path_join dir x) (loaded_of loads (arts x)) r0"
    using assms(2) by (auto simp: experiment_windows_def)
  with assms(1) have "rectangular f" and "reader_header f = h"
    by (auto simp: telemetry_ok_def list_all_iff)
  with r0 have "row_fits h r0" using row_fits_rectangular by blast
  with r that show thesis by blast
qed


section \<open>Outcomes of the script\<close>

lemma row_get_or_fits:
  assumes "row_fits h r"
  shows "row_get_or d r k \<noteq> None"
proof (cases "row_get r k")
  case (Some v)
  then have "k \<in> set h"
    using assms by (simp add: row_fits_def row_get_def flip: dict_keys_get)
      (metis dict_keys_get option.distinct(1))
  then show ?thesis
    using assms Some by (auto simp: row_get_or_def row_fits_def list_all_iff split: option.splits)
qed (simp add: row_get_or_def)

lemma comparable_windows:
  assumes "\<forall>r \<in> set rows. \<exists>d l r0. r = derive_row d l r0 \<and> row_fits h r0"
  shows "comparable_keys (map window_key_of rows)"
proof -
  have "k_experiment (window_key_of r) \<noteq> None \<and> k_node (window_key_of r) \<noteq> None" if r: "r \<in> set rows" for r
  proof -
    obtain d l r0 where "r = derive_row d l r0" and "row_fits h r0" using assms r by blast
    moreover have "''experiment_id'' \<notin> set DERIVED_FIELDS" and "''node_name'' \<notin> set DERIVED_FIELDS"
      by (simp_all add: DERIVED_FIELDS_def)
    ultimately show ?thesis
      using row_get_or_fits [of h r0 "[]"]
      by (simp add: window_key_of_def row_get_or_def row_get_derive_row)
  qed
  then show ?thesis
    by (auto simp: comparable_keys_def all_or_none_def list_all_iff)
qed

lemma experiment_id_not_derived: "''experiment_id'' \<notin> set DERIVED_FIELDS"
  by (simp add: DERIVED_FIELDS_def)

lemma make_manifest_ok:
  assumes "\<forall>r \<in> set rows. row_get r ''experiment_id'' \<noteq> None"
  shows "\<exists>m. make_manifest args sel now header rows = Inr m \<and> row_count m = length rows"
proof -
  have "\<forall>r \<in> set rows. \<exists>v. row_index r ''experiment_id'' = Inr v"
    using assms by (auto simp: row_index_Inr)
  then have "map_result (\<lambda>r. row_index r ''experiment_id'') rows =
      Inr (map (\<lambda>r. projr (row_index r ''experiment_id'')) rows)"
    by (intro map_result_total) force
  then show ?thesis by (simp add: make_manifest_def)
qed

lemma make_manifest_Inr: "make_manifest args sel now header rows = Inr m \<Longrightarrow> row_count m = length rows"
  by (auto simp: make_manifest_def bind_result_Inr)

lemma build_main_Inr:
  assumes "load_experiment_selection (selection_file args) sel_file = Inr sel"
    and "build_main loads args sel_file arts now = (out, Inr ())"
  obtains s m where
    "build_collect loads (artifacts_dir args) (set (exclude_ids_of args sel)) arts (include_ids_of args sel) = Inr s"
    and "comparable_keys (map window_key_of (window_rows s))"
    and "canonical_header s \<noteq> []"
    and "make_manifest args sel now (canonical_header s) (sort_key window_key_of (window_rows s)) = Inr m"
    and "dict_write (canonical_header s @ DERIVED_FIELDS) (sort_key window_key_of (window_rows s)) =
      (the (windows_all out), Inr ())"
    and "windows_all out \<noteq> None" and "manifest out = Some m"
proof -
  obtain s where s: "build_collect loads (artifacts_dir args) (set (exclude_ids_of args sel)) arts
      (include_ids_of args sel) = Inr s"
    and sorted: "(case sort_windows (window_rows s) of Inl e \<Rightarrow> (no_files, Inl e) | Inr wins \<Rightarrow>
        build_write args sel now (sort_index (index_rows s)) wins (canonical_header s)) = (out, Inr ())"
    using assms by (auto simp: build_main_def split: sum.splits)
  then have "comparable_keys (map window_key_of (window_rows s))"
    and "build_write args sel now (sort_index (index_rows s)) (sort_key window_key_of (window_rows s))
      (canonical_header s) = (out, Inr ())"
    by (auto simp: sort_windows_def split: if_splits)
  with s that show thesis
    by (auto simp: build_write_def Let_def split: sum.splits prod.splits if_splits)
qed

lemma build_main_raw_index:
  "build_main loads args sel_file arts now = (out, Inr ()) \<Longrightarrow> \<exists>f. raw_index out = Some f"
  by (auto simp: build_main_def sort_windows_def build_write_def no_files_def Let_def
      split: sum.splits prod.splits if_splits)

lemma build_collect_index:
  "build_collect loads dir exclude_ids arts ids = Inr s \<Longrightarrow>
     dict_write INDEX_FIELDS (sort_index (index_rows s)) =
       (INDEX_FIELDS # map (row_cells INDEX_FIELDS)
          (map (\<lambda>x. index_row dir exclude_ids x (arts x) (loaded_of loads (arts x))) (sort ids)), Inr ())"
  using build_collect_rows [of loads dir exclude_ids arts ids s]
  by (simp add: sort_index_rows write_index)

section \<open>A concrete run\<close>

definition demo_header :: "string list" where
  "demo_header = [''experiment_id'', ''node_name'', ''window_start_unix_ms'']"

definition demo_loads :: loader where
  "demo_loads t = Inr [(''scenario'', Some t), (''label'', Some t)]"

definition demo_artifact :: artifact where
  "demo_artifact =
     \<lparr>meta_json = Some ''x'', events_jsonl = Some [''a'', '' ''],
      traffic_csv = Some [[''ok''], [''1''], [''0'']],
      telemetry = Some [(''b.csv'', [demo_header, [''e'', ''n'', ''2''], [''e'', ''n'', ''1'']]),
                        (''a.csv'', [demo_header, [''e'', ''m'', ''7'']])],
      agent_logs = None\<rparr>"

definition demo_args :: build_args where
  "demo_args = \<lparr>artifacts_dir = ''a'', output_dir = ''o'', selection_file = ''s'',
                include_experiment = [''e''], exclude_experiment = [''f'']\<rparr>"

definition demo_selection :: "(string, string list option) pydict result option" where
  "demo_selection = Some (Inr [(''included_experiments'', Some [''f''])])"

definition demo_sel :: selection where
  "demo_sel = \<lparr>included_experiments = [''f''], excluded_experiments = []\<rparr>"

lemma demo_selected [simp]:
  "load_experiment_selection (selection_file demo_args) demo_selection = Inr demo_sel"
  "include_ids_of demo_args demo_sel = [''f'', ''e'']"
  "exclude_ids_of demo_args demo_sel = [''f'']"
  "artifacts_dir demo_args = ''a''"
  by code_simp+

lemma demo_loaded [simp]: "loads_ok demo_loads demo_artifact"
  by (simp add: loads_ok_def load_experiment_def demo_artifact_def demo_loads_def load_events_def
      load_traffic_stats_def dict_reader_def reader_header_def reader_row_def probe_ok_def
      row_get_def dict_set_def dict_get_def count_ratio_def float_eval strip_def is_space_def)

lemma demo_nodes [simp]:
  "node_csvs demo_artifact =
     [(''a.csv'', [demo_header, [''e'', ''m'', ''7'']]),
      (''b.csv'', [demo_header, [''e'', ''n'', ''2''], [''e'', ''n'', ''1'']])]"
  by (simp add: node_csvs_def demo_artifact_def)

lemma demo_header_id [simp]: "''experiment_id'' \<in> set demo_header"
  by (simp add: demo_header_def)

lemma demo_telemetry [simp]: "telemetry_ok demo_header demo_artifact"
  by (simp add: telemetry_ok_def reader_header_def rectangular_def demo_header_def)

lemma demo_included [simp]: "is_included {''f''} (\<lambda>_. demo_artifact) x \<longleftrightarrow> x \<noteq> ''f''"
  by (simp add: is_included_def missing_parts_def demo_artifact_def)

section \<open>Properties\<close>

lemma build_main_ok:
  assumes sel: "load_experiment_selection (selection_file args) sel_file = Inr sel"
    and ok: "list_all (\<lambda>x. loads_ok loads (arts x) \<and>
      (is_included (set (exclude_ids_of args sel)) arts x \<longrightarrow> telemetry_ok h (arts x))) (include_ids_of args sel)"
    and some: "x \<in> set (include_ids_of args sel)" "is_included (set (exclude_ids_of args sel)) arts x"
      "node_csvs (arts x) \<noteq> []"
    and h: "''experiment_id'' \<in> set h"
  shows "\<exists>out. build_main loads args sel_file arts now = (out, Inr ())"
proof -
  let ?ids = "include_ids_of args sel" and ?excl = "set (exclude_ids_of args sel)"
  let ?dir = "artifacts_dir args"
  have "\<exists>x \<in> set ?ids. is_included ?excl arts x \<and> node_csvs (arts x) \<noteq> []"
    using some by blast
  then obtain s where s: "build_collect loads ?dir ?excl arts ?ids = Inr s" and hd: "canonical_header s = h"
    using fold_build_ok [OF ok, of "\<lparr>index_rows = [], window_rows = [], canonical_header = []\<rparr>" ?dir]
    unfolding build_collect_def by (simp only: if_True simp_thms) auto
  have fit: "\<exists>d l r0. r = derive_row d l r0 \<and> row_fits h r0" if r: "r \<in> set (window_rows s)" for r
  proof -
    obtain y where "y \<in> set ?ids" "is_included ?excl arts y" "r \<in> set (experiment_windows loads ?dir arts y)"
      using r build_collect_rows [OF s] by auto
    moreover from this have "telemetry_ok h (arts y)" using ok by (auto simp: list_all_iff)
    ultimately show ?thesis using experiment_windows_fit by metis
  qed
  let ?wins = "sort_key window_key_of (window_rows s)"
  have fit': "extra r = [] \<and> set (dict_keys (cols r)) \<subseteq> set (h @ DERIVED_FIELDS) \<and>
      row_get r ''experiment_id'' \<noteq> None" if w: "r \<in> set ?wins" for r
  proof -
    obtain d l r0 where r: "r = derive_row d l r0" and r0: "row_fits h r0" using fit [of r] w by auto
    then have "row_get r ''experiment_id'' \<noteq> None"
      using h by (auto simp: row_get_derive_row experiment_id_not_derived row_fits_def list_all_iff split: option.splits)
    with r r0 show ?thesis by (auto simp: keys_derive_row row_fits_def)
  qed
  have "write_rows (h @ DERIVED_FIELDS) ?wins = (map (row_cells (h @ DERIVED_FIELDS)) ?wins, Inr ())"
    using fit' by (intro write_rows_ok) (simp add: list_all_iff)
  moreover obtain m where "make_manifest args sel now h ?wins = Inr m"
    using make_manifest_ok [of ?wins args sel now h] fit' by blast
  moreover have "comparable_keys (map window_key_of (window_rows s))"
    using fit by (intro comparable_windows) blast
  moreover have "h \<noteq> []" using h by auto
  ultimately show ?thesis
    using sel s hd build_collect_index [OF s]
    by (simp add: build_main_def sort_windows_def build_write_def dict_write_def Let_def)
qed

lemma demo_runs: "\<exists>out. build_main demo_loads demo_args demo_selection (\<lambda>_. demo_artifact) now = (out, Inr ())"
  by (rule build_main_ok [where sel = demo_sel and h = demo_header and x = "''e''"]) simp_all


text \<open>C2: a run that succeeds writes, under the canonical header extended by the derived columns,
  exactly the windows of the included experiments (not excluded, nothing missing), each with its
  derived columns and none lost or duplicated, in ascending order of experiment, node and start;
  every included telemetry file has the canonical header; the manifest counts the rows written.\<close>

theorem build_conserves_windows:
  assumes sel: "load_experiment_selection (selection_file args) sel_file = Inr sel"
    and run: "build_main loads args sel_file arts now = (out, Inr ())"
  shows "\<exists>h wins m. windows_all out = Some ((h @ DERIVED_FIELDS) # map (row_cells (h @ DERIVED_FIELDS)) wins) \<and>
    mset wins = mset (concat (map (experiment_windows loads (artifacts_dir args) arts)
      (filter (is_included (set (exclude_ids_of args sel)) arts) (include_ids_of args sel)))) \<and>
    sorted (map window_key_of wins) \<and>
    (\<forall>x \<in> set (include_ids_of args sel). is_included (set (exclude_ids_of args sel)) arts x \<longrightarrow>
       headers_agree h (node_csvs (arts x))) \<and>
    manifest out = Some m \<and> row_count m = length wins"
  using sel run
proof (rule build_main_Inr)
  fix s :: build_state and m
  let ?wins = "sort_key window_key_of (window_rows s)"
  assume s: "build_collect loads (artifacts_dir args) (set (exclude_ids_of args sel)) arts (include_ids_of args sel) = Inr s"
    and m: "make_manifest args sel now (canonical_header s) ?wins = Inr m" "manifest out = Some m"
    and f: "dict_write (canonical_header s @ DERIVED_FIELDS) ?wins = (the (windows_all out), Inr ())"
      "windows_all out \<noteq> None"
  have "mset ?wins = mset (concat (map (experiment_windows loads (artifacts_dir args) arts)
      (filter (is_included (set (exclude_ids_of args sel)) arts) (include_ids_of args sel))))"
    using build_collect_rows [OF s] by simp
  moreover have "sorted (map window_key_of ?wins)" by (rule sorted_sort_key)
  ultimately show ?thesis
    using m make_manifest_Inr [OF m(1)] dict_write_Inr [OF f(1)] f(2)
      fold_build_header [OF s [unfolded build_collect_def]] by fastforce
qed

theorem build_conserves_windows_witness:
  "\<exists>out h wins. build_main demo_loads demo_args demo_selection (\<lambda>_. demo_artifact) [] = (out, Inr ()) \<and>
     windows_all out = Some ((h @ DERIVED_FIELDS) # map (row_cells (h @ DERIVED_FIELDS)) wins) \<and>
     mset wins = mset (experiment_windows demo_loads ''a'' (\<lambda>_. demo_artifact) ''e'')"
proof -
  obtain out where run: "build_main demo_loads demo_args demo_selection (\<lambda>_. demo_artifact) [] = (out, Inr ())"
    using demo_runs by blast
  then show ?thesis
    using build_conserves_windows [OF demo_selected(1) run] by auto
qed

text \<open>C19: whenever the run gets as far as writing \<open>raw_index.csv\<close>, the file has exactly one row for
  each selected experiment, in ascending order of the ids, and a row is flagged as included
  just when the experiment is not excluded and none of its parts is missing.\<close>

theorem build_index_one_row_per_experiment:
  assumes sel: "load_experiment_selection (selection_file args) sel_file = Inr sel"
    and run: "build_main loads args sel_file arts now = (out, res)"
    and idx: "raw_index out = Some f"
  shows "map (\<lambda>r. (row_get r ''experiment_id'', row_get r ''included'')) (dict_reader f) =
    map (\<lambda>x. (Some (Some x), Some (Some (if is_included (set (exclude_ids_of args sel)) arts x then ''1'' else ''0''))))
      (sort (include_ids_of args sel))"
proof -
  obtain s :: build_state where s: "build_collect loads (artifacts_dir args) (set (exclude_ids_of args sel)) arts
      (include_ids_of args sel) = Inr s"
    and f: "f = fst (dict_write INDEX_FIELDS (sort_index (index_rows s)))"
    using assms
    by (auto simp: build_main_def sort_windows_def build_write_def no_files_def Let_def
        split: sum.splits prod.splits if_splits)
  have ne: "INDEX_FIELDS \<noteq> []" and "distinct INDEX_FIELDS" and "''experiment_id'' \<in> set INDEX_FIELDS"
    and "''included'' \<in> set INDEX_FIELDS" by (simp_all add: INDEX_FIELDS_def)
  then show ?thesis
    unfolding f build_collect_index [OF s] fst_conv dict_reader_cells [OF ne]
    by (simp add: row_get_read_cells cell_of_def row_get_index_row)
qed

theorem build_index_witness:
  "\<exists>out f. build_main demo_loads demo_args demo_selection (\<lambda>_. demo_artifact) [] = (out, Inr ()) \<and>
     raw_index out = Some f \<and>
     map (\<lambda>r. (row_get r ''experiment_id'', row_get r ''included'')) (dict_reader f) =
       [(Some (Some ''e''), Some (Some ''1'')), (Some (Some ''f''), Some (Some ''0''))]"
proof -
  obtain out where run: "build_main demo_loads demo_args demo_selection (\<lambda>_. demo_artifact) [] = (out, Inr ())"
    using demo_runs by blast
  then obtain f where "raw_index out = Some f" using build_main_raw_index by blast
  then show ?thesis
    using build_index_one_row_per_experiment [OF demo_selected(1) run] run by auto
qed


text \<open>C20: when every selected experiment can be loaded, the included telemetry files are rectangular
  and share one header, which has an \<open>experiment_id\<close> column, and at least one of them exists, the
  run succeeds, and \<open>windows_all.csv\<close> is exactly the sorted concatenation of the experiments'
  windows.\<close>

theorem build_succeeds:
  assumes sel: "load_experiment_selection (selection_file args) sel_file = Inr sel"
    and ok: "list_all (\<lambda>x. loads_ok loads (arts x) \<and>
      (is_included (set (exclude_ids_of args sel)) arts x \<longrightarrow> telemetry_ok h (arts x))) (include_ids_of args sel)"
    and some: "x \<in> set (include_ids_of args sel)" "is_included (set (exclude_ids_of args sel)) arts x"
      "node_csvs (arts x) \<noteq> []"
    and h: "''experiment_id'' \<in> set h"
  shows "\<exists>out. build_main loads args sel_file arts now = (out, Inr ()) \<and>
    windows_all out = Some ((h @ DERIVED_FIELDS) # map (row_cells (h @ DERIVED_FIELDS))
      (sort_key window_key_of (concat (map (experiment_windows loads (artifacts_dir args) arts)
        (filter (is_included (set (exclude_ids_of args sel)) arts) (include_ids_of args sel))))))"
proof -
  obtain out where run: "build_main loads args sel_file arts now = (out, Inr ())"
    using build_main_ok [OF assms] by blast
  with sel show ?thesis
  proof (rule build_main_Inr)
    fix s :: build_state
    assume s: "build_collect loads (artifacts_dir args) (set (exclude_ids_of args sel)) arts (include_ids_of args sel) = Inr s"
      and f: "dict_write (canonical_header s @ DERIVED_FIELDS) (sort_key window_key_of (window_rows s)) =
        (the (windows_all out), Inr ())" "windows_all out \<noteq> None"
    have "\<exists>x \<in> set (include_ids_of args sel). is_included (set (exclude_ids_of args sel)) arts x \<and> node_csvs (arts x) \<noteq> []"
      using some by blast
    then have "canonical_header s = h"
      using fold_build_ok [OF ok, of "\<lparr>index_rows = [], window_rows = [], canonical_header = []\<rparr>" "artifacts_dir args"]
        s [unfolded build_collect_def]
      by (simp only: if_True simp_thms) auto
    then show ?thesis
      using run dict_write_Inr [OF f(1)] f(2) build_collect_rows [OF s] by auto
  qed
qed

theorem build_succeeds_witness:
  "\<exists>out. build_main demo_loads demo_args demo_selection (\<lambda>_. demo_artifact) [] = (out, Inr ()) \<and>
     windows_all out = Some ((demo_header @ DERIVED_FIELDS) # map (row_cells (demo_header @ DERIVED_FIELDS))
       (sort_key window_key_of (experiment_windows demo_loads ''a'' (\<lambda>_. demo_artifact) ''e'')))"
  using build_succeeds [where sel = demo_sel and h = demo_header and x = "''e''" and args = demo_args
    and sel_file = demo_selection and arts = "\<lambda>_. demo_artifact" and loads = demo_loads and now = "[]"]
  by simp

lemma add_node_csv_error:
  "add_node_csv d l node s = Inl e \<Longrightarrow> \<exists>m. e = SystemExit (''schema mismatch in '' @ m)"
  by (auto simp: add_node_csv_def Let_def split: prod.splits if_splits)

lemma fold_nodes_error:
  "fold_result (add_node_csv d l) nodes s = Inl e \<Longrightarrow> \<exists>m. e = SystemExit (''schema mismatch in '' @ m)"
proof (induction nodes arbitrary: s)
  case (Cons node nodes)
  then show ?case using add_node_csv_error by (cases "add_node_csv d l node s") simp_all
qed simp

lemma build_experiment_error:
  assumes "loads_ok loads (arts x)" and "build_experiment loads dir exclude_ids arts x s = Inl e"
  shows "\<exists>m. e = SystemExit (''schema mismatch in '' @ m)"
  using assms fold_nodes_error
  by (auto simp: loads_ok_def build_experiment_def Let_def split: sum.splits if_splits)

lemma build_collect_error:
  assumes "list_all (\<lambda>x. loads_ok loads (arts x)) ids"
    and "build_collect loads dir exclude_ids arts ids = Inl e"
  shows "\<exists>m. e = SystemExit (''schema mismatch in '' @ m)"
proof -
  have "fold_result (build_experiment loads dir exclude_ids arts) ids s = Inl e \<Longrightarrow> ?thesis" for s
    using assms(1)
  proof (induction ids arbitrary: s)
    case (Cons x ids)
    then show ?case
      using build_experiment_error [of loads arts x dir exclude_ids s]
      by (cases "build_experiment loads dir exclude_ids arts x s") simp_all
  qed simp
  with assms(2) show ?thesis by (simp add: build_collect_def)
qed

text \<open>C21: two included telemetry files with different, non-empty headers stop the run with the
  schema mismatch message, and nothing is written.\<close>

theorem build_rejects_schema_mismatch:
  assumes sel: "load_experiment_selection (selection_file args) sel_file = Inr sel"
    and ok: "list_all (\<lambda>x. loads_ok loads (arts x)) (include_ids_of args sel)"
    and x: "x \<in> set (include_ids_of args sel)" "is_included (set (exclude_ids_of args sel)) arts x"
      "(n, f) \<in> set (node_csvs (arts x))" "reader_header f \<noteq> []"
    and y: "y \<in> set (include_ids_of args sel)" "is_included (set (exclude_ids_of args sel)) arts y"
      "(k, g) \<in> set (node_csvs (arts y))" "reader_header g \<noteq> []"
    and diff: "reader_header f \<noteq> reader_header g"
  shows "\<exists>m. build_main loads args sel_file arts now = (no_files, Inl (SystemExit (''schema mismatch in '' @ m)))"
proof (cases "build_collect loads (artifacts_dir args) (set (exclude_ids_of args sel)) arts (include_ids_of args sel)")
  case (Inl e)
  then show ?thesis using build_collect_error [OF ok Inl] sel by (auto simp: build_main_def)
next
  case (Inr s)
  then have "headers_agree (canonical_header s) (node_csvs (arts x))"
    and "headers_agree (canonical_header s) (node_csvs (arts y))"
    using fold_build_header x(1,2) y(1,2) by (auto simp: build_collect_def)
  then have "reader_header f = canonical_header s" and "reader_header g = canonical_header s"
    using x(3,4) y(3,4) by (auto simp: headers_agree_def list_all_iff)
  with diff show ?thesis by simp
qed

definition demo_mismatch :: "string \<Rightarrow> artifact" where
  "demo_mismatch x = (if x = ''e'' then demo_artifact
     else demo_artifact\<lparr>telemetry := Some [(''a.csv'', [[''other'']])]\<rparr>)"

definition demo_args2 :: build_args where
  "demo_args2 = demo_args\<lparr>exclude_experiment := []\<rparr>"

lemma demo_mismatch_facts:
  "load_experiment_selection (selection_file demo_args2) demo_selection = Inr demo_sel"
  "include_ids_of demo_args2 demo_sel = [''f'', ''e'']"
  "exclude_ids_of demo_args2 demo_sel = []"
  "loads_ok demo_loads (demo_mismatch x)"
  "is_included {} demo_mismatch x"
  "node_csvs (demo_mismatch ''f'') = [(''a.csv'', [[''other'']])]"
  "node_csvs (demo_mismatch ''e'') =
     [(''a.csv'', [demo_header, [''e'', ''m'', ''7'']]),
      (''b.csv'', [demo_header, [''e'', ''n'', ''2''], [''e'', ''n'', ''1'']])]"
proof -
  have "load_experiment demo_loads (demo_artifact\<lparr>telemetry := t\<rparr>) = load_experiment demo_loads demo_artifact" for t
    by (simp add: load_experiment_def)
  then show "loads_ok demo_loads (demo_mismatch x)"
    using demo_loaded by (simp add: loads_ok_def demo_mismatch_def)
  show "is_included {} demo_mismatch x"
    by (simp add: is_included_def missing_parts_def demo_mismatch_def demo_artifact_def)
  show "node_csvs (demo_mismatch ''f'') = [(''a.csv'', [[''other'']])]"
    by (simp add: node_csvs_def demo_mismatch_def)
qed (code_simp, code_simp, code_simp, simp add: demo_mismatch_def)

theorem build_rejects_schema_mismatch_witness:
  "\<exists>m. build_main demo_loads demo_args2 demo_selection demo_mismatch [] =
     (no_files, Inl (SystemExit (''schema mismatch in '' @ m)))"
  by (rule build_rejects_schema_mismatch [where sel = demo_sel and x = "''e''" and y = "''f''"
        and n = "''a.csv''" and f = "[demo_header, [''e'', ''m'', ''7'']]" and k = "''a.csv''" and g = "[[''other'']]"])
    (simp_all add: demo_mismatch_facts reader_header_def demo_header_def)


text \<open>When every selected experiment can be loaded but no included one has a telemetry file, the
  run stops with \<open>no included telemetry rows found\<close>; the index is already written then, the
  windows and the manifest are not.\<close>

theorem build_without_telemetry_exits:
  assumes sel: "load_experiment_selection (selection_file args) sel_file = Inr sel"
    and ok: "list_all (\<lambda>x. loads_ok loads (arts x) \<and>
      (is_included (set (exclude_ids_of args sel)) arts x \<longrightarrow> node_csvs (arts x) = [])) (include_ids_of args sel)"
  shows "build_main loads args sel_file arts now =
    (no_files\<lparr>raw_index := Some (INDEX_FIELDS # map (\<lambda>x. row_cells INDEX_FIELDS
        (index_row (artifacts_dir args) (set (exclude_ids_of args sel)) x (arts x) (loaded_of loads (arts x))))
        (sort (include_ids_of args sel)))\<rparr>,
     Inl (SystemExit ''no included telemetry rows found''))"
proof -
  have "list_all (\<lambda>x. loads_ok loads (arts x) \<and>
      (is_included (set (exclude_ids_of args sel)) arts x \<longrightarrow> telemetry_ok [] (arts x))) (include_ids_of args sel)"
    using ok by (auto simp: list_all_iff telemetry_ok_def)
  from fold_build_ok [OF this, of "\<lparr>index_rows = [], window_rows = [], canonical_header = []\<rparr>" "artifacts_dir args"]
  obtain s where s: "build_collect loads (artifacts_dir args) (set (exclude_ids_of args sel)) arts
      (include_ids_of args sel) = Inr s" and "canonical_header s = []"
    by (auto simp: build_collect_def split: if_splits)
  moreover have "window_rows s = []"
    using build_collect_rows [OF s] ok by (auto simp: list_all_iff experiment_windows_def)
  ultimately show ?thesis
    using sel build_collect_index [OF s]
    by (simp add: build_main_def sort_windows_def comparable_keys_def all_or_none_def build_write_def
        comp_def)
qed

theorem build_without_telemetry_witness:
  "snd (build_main demo_loads demo_args demo_selection (\<lambda>_. demo_artifact\<lparr>telemetry := Some []\<rparr>) []) =
     Inl (SystemExit ''no included telemetry rows found'')"
proof -
  have "load_experiment demo_loads (demo_artifact\<lparr>telemetry := t\<rparr>) = load_experiment demo_loads demo_artifact" for t
    by (simp add: load_experiment_def)
  then show ?thesis
    using build_without_telemetry_exits [of demo_args demo_selection demo_sel demo_loads
      "\<lambda>_. demo_artifact\<lparr>telemetry := Some []\<rparr>" "[]"] demo_loaded
    by (simp add: loads_ok_def node_csvs_def)
qed

text \<open>C22: reading the probe log never divides by zero, and the success rate it reports is the
  correctly rounded quotient of two counts of which the first is at most the second, printed with
  eight characters between 0.000000 and 1.000000.\<close>

theorem traffic_stats_bounds:
  assumes "length (dict_reader f) \<le> 2 ^ 53"
  shows "\<exists>t q. load_traffic_stats f = Inr t \<and> probe_total t = length (dict_reader f) \<and>
    probe_success t \<le> probe_total t \<and> probe_rate t = fmt_fixed 6 (Fin q) \<and> 0 \<le> q \<and> q \<le> 1 \<and>
    q = (if probe_total t = 0 then 0 else fl (of_nat (probe_success t) / of_nat (probe_total t))) \<and>
    length (probe_rate t) = 8"
proof (cases "dict_reader f = []")
  case True
  then show ?thesis
    by (simp add: load_traffic_stats_def length_fmt_ratio)
next
  case False
  let ?n = "length (dict_reader f)" and ?k = "length (filter probe_ok (dict_reader f))"
  have "?k \<le> ?n" and "0 < ?n" using False by simp_all
  note ratio = count_ratio_unit [OF this assms]
  let ?q = "fl (of_nat ?k / of_nat ?n)"
  have "load_traffic_stats f =
      Inr \<lparr>probe_total = ?n, probe_success = ?k, probe_rate = fmt_fixed 6 (Fin ?q)\<rparr>"
    using False ratio(1) by (simp add: load_traffic_stats_def Let_def)
  moreover have "length (fmt_fixed 6 (Fin ?q)) = 8"
    using ratio(2,3) by (simp add: length_fmt_ratio)
  ultimately show ?thesis using ratio(2,3) False by auto
qed

theorem traffic_stats_witness:
  "\<exists>t. load_traffic_stats [[''ok''], [''1''], [''0'']] = Inr t \<and> probe_total t = 2 \<and>
     length (probe_rate t) = 8"
proof -
  have "length (dict_reader [[''ok''], [''1''], [''0'']]) = 2" by (simp add: dict_reader_def)
  then show ?thesis using traffic_stats_bounds [of "[[''ok''], [''1''], [''0'']]"] by auto
qed

definition event_label :: "json_object \<Rightarrow> string" where
  "event_label e = (case dict_get e ''label'' of Some (Some l) \<Rightarrow> l | _ \<Rightarrow> [])"

lemma event_labels_eq:
  "event_labels events = sort (uniq (filter (\<lambda>l. l \<noteq> [] \<and> l \<noteq> ''normal'') (map event_label events)))"
  by (simp add: event_labels_def event_label_def [abs_def])

lemma set_event_labels:
  "set (event_labels events) = event_label ` set events - {[], ''normal''}"
  by (auto simp: event_labels_eq)

text \<open>C23: the primary label of an experiment depends only on which labels its events carry: without
  an attack label it is \<open>normal\<close> for the steady-state scenario and \<open>unknown\<close> otherwise, with one it
  is that label, with several it is their comma-separated ascending list.\<close>

theorem scenario_label_spec:
  "(event_label ` set events - {[], ''normal''} = {} \<longrightarrow>
      scenario_to_label events scenario =
        (if scenario = Some ''normal_steady_state'' then ''normal'' else ''unknown'')) \<and>
   (event_label ` set events - {[], ''normal''} = {l} \<longrightarrow> scenario_to_label events scenario = l) \<and>
   (sorted ls \<and> distinct ls \<and> 1 < length ls \<and> event_label ` set events - {[], ''normal''} = set ls \<longrightarrow>
      scenario_to_label events scenario = join '','' ls)"
proof -
  have eq: "event_labels events = sorted_list_of_set (event_label ` set events - {[], ''normal''})"
    unfolding set_event_labels [symmetric]
    by (rule sorted_list_of_set.idem_if_sorted_distinct [symmetric]) (simp_all add: event_labels_eq)
  have labels: "event_labels events = ls"
    if "sorted ls" and "distinct ls" and "event_label ` set events - {[], ''normal''} = set ls" for ls
    unfolding eq that(3) by (rule sorted_list_of_set.idem_if_sorted_distinct [OF that(1,2)])
  have none: "scenario_to_label events scenario =
      (if scenario = Some ''normal_steady_state'' then ''normal'' else ''unknown'')"
    if "event_labels events = []" using that by (simp add: scenario_to_label_def)
  have one: "scenario_to_label events scenario = l" if "event_labels events = [l]"
    using that by (simp add: scenario_to_label_def)
  have many: "scenario_to_label events scenario = join '','' ls"
    if "event_labels events = ls" and "1 < length ls"
    using that by (cases ls rule: remdups_adj.cases) (simp_all add: scenario_to_label_def)
  show ?thesis
  proof (intro conjI impI)
    assume "event_label ` set events - {[], ''normal''} = {}"
    then have "event_label ` set events - {[], ''normal''} = set []" by (simp only: list.set)
    then show "scenario_to_label events scenario =
        (if scenario = Some ''normal_steady_state'' then ''normal'' else ''unknown'')"
      by (intro none labels) (simp_all only: sorted_wrt.simps distinct.simps)
  next
    assume "event_label ` set events - {[], ''normal''} = {l}"
    then have "event_label ` set events - {[], ''normal''} = set [l]" by (simp only: list.set)
    then show "scenario_to_label events scenario = l"
      by (intro one labels) (simp (no_asm), simp (no_asm))
  next
    assume "sorted ls \<and> distinct ls \<and> 1 < length ls \<and> event_label ` set events - {[], ''normal''} = set ls"
    then show "scenario_to_label events scenario = join '','' ls"
      by (elim conjE) (intro many labels)
  qed
qed

theorem scenario_label_witness:
  "scenario_to_label [[(''label'', Some ''b'')], [(''label'', None)], [(''label'', Some ''a'')]] None = ''a,b''"
proof -
  have "event_label ` set [[(''label'', Some ''b'')], [(''label'', None)], [(''label'', Some ''a'')]] -
      {[], ''normal''} = set [''a'', ''b'']"
    by (auto simp: event_label_def dict_get_def)
  then show ?thesis
    using scenario_label_spec [where events = "[[(''label'', Some ''b'')], [(''label'', None)], [(''label'', Some ''a'')]]"
      and scenario = None and ls = "[''a'', ''b'']"] by simp
qed

end
