(* ===== verification/Dataset_Split.thy ===== *)
theory Dataset_Split
  imports Csv_Rows
begin

text \<open>
  \<open>scripts/phase3_split_dataset.py\<close>: the rows of \<open>windows_all.csv\<close> are grouped by experiment, the
  experiments by their primary label, and each label's experiments are spread over train, val and
  test. All windows of an experiment get its split. The first data row is taken to have no surplus
  cells (a file written by \<open>DictWriter\<close> has none).
\<close>

section \<open>The program\<close>

type_synonym split_rows = "(string, row list) pydict"

text \<open>An experiment id is a cell, hence possibly \<open>None\<close>.\<close>

type_synonym exp_id = "string option"

definition attack_label :: "row \<Rightarrow> string" where
  "attack_label r = (case row_get r ''label'' of
     Some (Some l) \<Rightarrow> (if l \<noteq> ''normal'' then l else []) | _ \<Rightarrow> [])"

definition primary_label_for_experiment :: "row list \<Rightarrow> string" where
  "primary_label_for_experiment rows =
     (case sort (uniq (filter (\<lambda>l. l \<noteq> []) (map attack_label rows))) of
        [] \<Rightarrow> ''normal'' | l # _ \<Rightarrow> l)"

definition assign_sorted :: "exp_id list \<Rightarrow> (exp_id, string) pydict" where
  "assign_sorted ids =
     (let count = length ids in
      if count = 1 then dict_set (ids ! 0) ''train'' []
      else if count = 2 then dict_set (ids ! 1) ''test'' (dict_set (ids ! 0) ''train'' [])
      else if 3 \<le> count then
        fold (\<lambda>i. dict_set i ''train'') (drop 3 ids)
          (dict_set (ids ! 2) ''test'' (dict_set (ids ! 1) ''val'' (dict_set (ids ! 0) ''train'' [])))
      else [])"

definition split_group :: "exp_id list \<Rightarrow> (exp_id, string) pydict result" where
  "split_group ids = (if sortable ids then Inr (assign_sorted (sort ids)) else Inl TypeError)"

definition rows_by_experiment :: "row list \<Rightarrow> (exp_id, row list) pydict result" where
  "rows_by_experiment rows =
     bind_result (map_result (\<lambda>r. row_index r ''experiment_id'') rows)
       (\<lambda>ids. Inr (group_by fst snd (zip ids rows)))"

definition experiments_by_label :: "(exp_id, row list) pydict \<Rightarrow> (string, exp_id list) pydict" where
  "experiments_by_label by_exp =
     group_by (\<lambda>(_, rows). primary_label_for_experiment rows) fst by_exp"

record metadata =
  md_label :: string
  md_scenario :: "string option"

definition experiment_metadata :: "(exp_id, row list) pydict \<Rightarrow> (exp_id, metadata) pydict" where
  "experiment_metadata by_exp =
     map (\<lambda>(i, rows). (i, \<lparr>md_label = primary_label_for_experiment rows,
                           md_scenario = row_get_or [] (rows ! 0) ''experiment_type''\<rparr>)) by_exp"

definition assign_all :: "(string, exp_id list) pydict \<Rightarrow> (exp_id, string) pydict result" where
  "assign_all by_label =
     fold_result (\<lambda>(_, ids) acc. bind_result (split_group ids) (\<lambda>a. Inr (dict_update acc a)))
       (sort_key fst by_label) []"

text \<open>\<open>d[k]\<close> on a dictionary keyed by ids; the message of the \<open>KeyError\<close> is the id.\<close>

definition id_index :: "(exp_id, 'v) pydict \<Rightarrow> exp_id \<Rightarrow> 'v result" where
  "id_index d i = (case dict_get d i of Some v \<Rightarrow> Inr v
     | None \<Rightarrow> Inl (KeyError (case i of None \<Rightarrow> ''None'' | Some s \<Rightarrow> s)))"

definition place_row :: "(exp_id, string) pydict \<Rightarrow> row \<Rightarrow> split_rows \<Rightarrow> split_rows result" where
  "place_row assignments r d =
     bind_result (row_index r ''experiment_id'') (\<lambda>i.
     bind_result (id_index assignments i) (\<lambda>split.
     bind_result (dict_index d split) (\<lambda>rs.
       Inr (dict_set split (rs @ [set_field ''split'' split r]) d))))"

definition SPLITS :: "string list" where
  "SPLITS = [''train'', ''val'', ''test'']"

definition place_rows :: "(exp_id, string) pydict \<Rightarrow> row list \<Rightarrow> split_rows result" where
  "place_rows assignments rows =
     fold_result (place_row assignments) rows (map (\<lambda>s. (s, [])) SPLITS)"

record experiment_entry =
  e_split :: string
  e_label :: string
  e_scenario :: "string option"

record split_manifest =
  assignments_of :: "(exp_id, string) pydict"
  experiments_of :: "(exp_id, experiment_entry) pydict"

definition make_split_manifest ::
  "(exp_id, string) pydict \<Rightarrow> (exp_id, metadata) pydict \<Rightarrow> split_manifest result" where
  "make_split_manifest assignments md =
     (if \<not> sortable (dict_keys md) then Inl TypeError else
      bind_result (map_result (\<lambda>(i, m). bind_result (id_index assignments i) (\<lambda>s.
          Inr (i, \<lparr>e_split = s, e_label = md_label m, e_scenario = md_scenario m\<rparr>)))
        (sort_key fst md))
        (\<lambda>es. Inr \<lparr>assignments_of = assignments, experiments_of = es\<rparr>))"

record split_out =
  csv_files :: "(string, csv) pydict"
  splits_json :: "split_manifest option"

text \<open>The output files in the order in which they are opened, up to the first write that raises.\<close>

fun write_files :: "string list \<Rightarrow> (string \<times> row list) list \<Rightarrow> (string, csv) pydict \<times> unit result" where
  "write_files header [] = ([], Inr ())"
| "write_files header ((name, rows) # rest) =
     (let (f, res) = dict_write header rows
      in case res of Inl e \<Rightarrow> ([(name, f)], Inl e)
       | Inr _ \<Rightarrow> (let (fs, res') = write_files header rest in ((name, f) # fs, res')))"

definition window_file :: "string \<Rightarrow> string" where
  "window_file split = ''windows_'' @ split @ ''.csv''"

definition rows_of :: "split_rows \<Rightarrow> string \<Rightarrow> row list" where
  "rows_of d s = (case dict_get d s of None \<Rightarrow> [] | Some rs \<Rightarrow> rs)"

definition no_split :: split_out where
  "no_split = \<lparr>csv_files = [], splits_json = None\<rparr>"

definition split_main :: "string \<Rightarrow> csv \<Rightarrow> split_out \<times> unit result" where
  "split_main input_dir windows_all =
     (let rows = dict_reader windows_all in
      if rows = [] then (no_split, Inl (SystemExit (''no rows in '' @ input_dir @ ''/windows_all.csv''))) else
      (case bind_result (rows_by_experiment rows) (\<lambda>by_exp.
              bind_result (assign_all (experiments_by_label by_exp)) (\<lambda>assignments.
              bind_result (place_rows assignments rows) (\<lambda>split_rows.
                Inr (by_exp, assignments, split_rows)))) of
         Inl e \<Rightarrow> (no_split, Inl e)
       | Inr (by_exp, assignments, split_rows) \<Rightarrow>
         (let fieldnames = dict_keys (cols (hd rows));
              updated_all = concat (map (rows_of split_rows) SPLITS);
              (fs, res) = write_files fieldnames
                ((''windows_all.csv'', updated_all) # map (\<lambda>(s, rs). (window_file s, rs)) split_rows);
              out = no_split\<lparr>csv_files := fs\<rparr>
          in case res of Inl e \<Rightarrow> (out, Inl e)
           | Inr _ \<Rightarrow> (case make_split_manifest assignments (experiment_metadata by_exp) of
               Inl e \<Rightarrow> (out, Inl e)
             | Inr m \<Rightarrow> (out\<lparr>splits_json := Some m\<rparr>, Inr ())))))"

section \<open>The policy of one label\<close>

text \<open>What the rest of the script relies on: a policy gives each of its ids one of the three splits
  and does not depend on the order in which the ids arrive.\<close>

locale split_policy =
  fixes assign :: "'i list \<Rightarrow> ('i, string) pydict"
  assumes keys_assign: "set (dict_keys (assign ids)) = set ids"
    and wf_assign: "dict_wf (assign ids)"
    and range_assign: "dict_get (assign ids) i = Some s \<Longrightarrow> s \<in> set SPLITS"
    and order_assign: "mset ids = mset ids' \<Longrightarrow> assign ids = assign ids'"
begin

definition combine :: "'i list list \<Rightarrow> ('i, string) pydict" where
  "combine groups = fold (\<lambda>ids acc. dict_update acc (assign ids)) groups []"

lemma combine_snoc: "combine (gs @ [g]) = dict_update (combine gs) (assign g)"
  by (simp add: combine_def)

lemma keys_combine: "set (dict_keys (combine groups)) = \<Union> (set ` set groups)"
proof (induction groups rule: rev_induct)
  case Nil
  then show ?case by (simp add: combine_def dict_simps)
next
  case (snoc g gs)
  then show ?case by (auto simp: combine_snoc set_dict_keys_update keys_assign)
qed

lemma get_combine_last:
  assumes "i \<in> set g"
  shows "dict_get (combine (gs @ [g])) i = dict_get (assign g) i"
proof -
  obtain s where "dict_get (assign g) i = Some s"
    using assms dict_keys_get [of i "assign g"] by (auto simp: keys_assign)
  then show ?thesis
    using dict_get_update_in [OF wf_assign, of g i s] by (simp add: combine_snoc)
qed

lemma get_combine:
  assumes "g \<in> set groups" and "i \<in> set g" and "\<And>g'. g' \<in> set groups \<Longrightarrow> i \<in> set g' \<Longrightarrow> g' = g"
  shows "dict_get (combine groups) i = dict_get (assign g) i"
  using assms
proof (induction groups rule: rev_induct)
  case (snoc g' gs)
  show ?case
  proof (cases "g' = g")
    case True
    then show ?thesis using get_combine_last [of i g gs] snoc.prems(2) by simp
  next
    case False
    then have "i \<notin> set (dict_keys (assign g'))" using snoc.prems(3) [of g'] by (auto simp: keys_assign)
    then have "dict_get (combine (gs @ [g'])) i = dict_get (combine gs) i"
      by (simp add: combine_snoc dict_get_update_notin)
    moreover have "dict_get (combine gs) i = dict_get (assign g) i"
    proof (rule snoc.IH)
      show "g \<in> set gs" using snoc.prems(1) False by simp
      show "g'' = g" if "g'' \<in> set gs" and "i \<in> set g''" for g''
        using that snoc.prems(3) by simp
    qed (rule snoc.prems(2))
    ultimately show ?thesis by simp
  qed
qed simp

lemma range_combine: "dict_get (combine groups) i = Some s \<Longrightarrow> s \<in> set SPLITS"
proof (induction groups arbitrary: s rule: rev_induct)
  case Nil
  then show ?case by (simp add: combine_def dict_simps)
next
  case (snoc g gs)
  show ?case
  proof (cases "i \<in> set g")
    case True
    then show ?thesis using snoc.prems get_combine_last [of i g gs] range_assign [of g i s] by simp
  next
    case False
    then have "dict_get (combine (gs @ [g])) i = dict_get (combine gs) i"
      by (simp add: combine_snoc dict_get_update_notin keys_assign)
    then show ?thesis using snoc.IH snoc.prems by simp
  qed
qed

end


lemma keys_fold_set:
  "set (dict_keys (fold (\<lambda>i. dict_set i v) xs d)) = set xs \<union> set (dict_keys d)"
  by (induction xs arbitrary: d) (auto simp: dict_simps)

lemma get_fold_set:
  "dict_get (fold (\<lambda>i. dict_set i v) xs d) k = (if k \<in> set xs then Some v else dict_get d k)"
  by (induction xs arbitrary: d) (auto simp: dict_simps)

lemma assign_sorted_simps [simp]:
  "assign_sorted [] = []"
  "assign_sorted [a] = dict_set a ''train'' []"
  "assign_sorted [a, b] = dict_set b ''test'' (dict_set a ''train'' [])"
  "assign_sorted (a # b # c # rest) =
     fold (\<lambda>i. dict_set i ''train'') rest (dict_set c ''test'' (dict_set b ''val'' (dict_set a ''train'' [])))"
  by (simp_all add: assign_sorted_def)

lemma three_cases:
  obtains "ids = []" | a where "ids = [a]" | a b where "ids = [a, b]" | a b c rest where "ids = a # b # c # rest"
  by (metis list.exhaust)

lemma keys_assign_sorted: "set (dict_keys (assign_sorted ids)) = set ids"
  by (cases ids rule: three_cases) (auto simp: dict_simps keys_fold_set)

lemma wf_fold_set: "dict_wf d \<Longrightarrow> dict_wf (fold (\<lambda>i. dict_set i v) xs d)"
  by (induction xs arbitrary: d) (simp_all add: dict_simps)

lemma wf_assign_sorted: "dict_wf (assign_sorted ids)"
  by (cases ids rule: three_cases) (simp_all add: dict_simps wf_fold_set)

lemma range_assign_sorted: "dict_get (assign_sorted ids) i = Some s \<Longrightarrow> s \<in> set SPLITS"
  by (cases ids rule: three_cases)
    (auto simp: dict_simps get_fold_set SPLITS_def split: if_splits)

interpretation sp: split_policy "\<lambda>ids. assign_sorted (sort ids)"
proof
  fix ids ids' :: "exp_id list" and i s
  show "set (dict_keys (assign_sorted (sort ids))) = set ids" by (simp add: keys_assign_sorted)
  show "dict_wf (assign_sorted (sort ids))" by (rule wf_assign_sorted)
  show "dict_get (assign_sorted (sort ids)) i = Some s \<Longrightarrow> s \<in> set SPLITS" by (rule range_assign_sorted)
  show "mset ids = mset ids' \<Longrightarrow> assign_sorted (sort ids) = assign_sorted (sort ids')"
    by (metis properties_for_sort sorted_sort mset_sort)
qed

text \<open>Which split an id gets, by its position in ascending order.\<close>

definition split_at :: "nat \<Rightarrow> nat \<Rightarrow> string" where
  "split_at len n =
     (if n = 1 \<and> 3 \<le> len then ''val'' else if n = 2 \<or> n = 1 then ''test'' else ''train'')"

lemma get_assign_sorted:
  assumes "distinct ids" and "n < length ids"
  shows "dict_get (assign_sorted ids) (ids ! n) = Some (split_at (length ids) n)"
proof (cases ids rule: three_cases)
  case (4 a b c rest)
  with assms have d: "a \<noteq> b" "a \<noteq> c" "b \<noteq> c" "a \<notin> set rest" "b \<notin> set rest" "c \<notin> set rest"
    by auto
  consider "n = 0" | "n = 1" | "n = 2" | k where "n = Suc (Suc (Suc k))"
    by (metis One_nat_def Suc_1 not0_implies_Suc)
  then show ?thesis
  proof cases
    case 4: 4
    with assms(2) \<open>ids = a # b # c # rest\<close> have "ids ! n \<in> set rest" by simp
    then show ?thesis using \<open>ids = a # b # c # rest\<close> 4 by (simp add: get_fold_set split_at_def)
  qed (use 4 d in \<open>simp_all add: get_fold_set dict_simps split_at_def\<close>)
qed (use assms in \<open>auto simp: dict_simps split_at_def less_Suc_eq\<close>)


section \<open>What the script computes\<close>

definition exp_of :: "row \<Rightarrow> exp_id" where
  "exp_of r = (case row_get r ''experiment_id'' of None \<Rightarrow> None | Some v \<Rightarrow> v)"

definition has_id :: "row \<Rightarrow> bool" where
  "has_id r \<longleftrightarrow> row_get r ''experiment_id'' \<noteq> None"

definition label_of :: "row list \<Rightarrow> exp_id \<Rightarrow> string" where
  "label_of rows i = primary_label_for_experiment (filter (\<lambda>r. exp_of r = i) rows)"

definition label_group :: "row list \<Rightarrow> string \<Rightarrow> exp_id list" where
  "label_group rows l = filter (\<lambda>i. label_of rows i = l) (uniq (map exp_of rows))"

definition split_of :: "row list \<Rightarrow> exp_id \<Rightarrow> string" where
  "split_of rows i = (case dict_get (assign_sorted (sort (label_group rows (label_of rows i)))) i of
     Some s \<Rightarrow> s | None \<Rightarrow> [])"

definition split_part :: "row list \<Rightarrow> string \<Rightarrow> row list" where
  "split_part rows s = map (set_field ''split'' s) (filter (\<lambda>r. split_of rows (exp_of r) = s) rows)"

lemma has_id_index: "row_index r ''experiment_id'' = (if has_id r then Inr (exp_of r) else Inl (KeyError ''experiment_id''))"
  by (simp add: row_index_def dict_index_def has_id_def exp_of_def row_get_def split: option.splits)

lemma rows_by_experiment_Inr:
  "rows_by_experiment rows = Inr d \<longleftrightarrow>
     list_all has_id rows \<and> d = group_by exp_of (\<lambda>r. r) rows"
proof (cases "list_all has_id rows")
  case True
  then have "map_result (\<lambda>r. row_index r ''experiment_id'') rows = Inr (map exp_of rows)"
    by (intro map_result_total) (simp add: list_all_iff has_id_index)
  moreover have "zip (map exp_of rows) rows = map (\<lambda>r. (exp_of r, r)) rows"
    by (simp add: zip_map1 zip_same_conv_map)
  ultimately show ?thesis
    using True by (auto simp: rows_by_experiment_def group_by_map)
next
  case False
  then show ?thesis
    by (auto simp: rows_by_experiment_def bind_result_Inr map_result_Inr list_all2_conv_all_nth
        has_id_index list_all_length split: if_splits)
qed

lemma experiments_by_label_eq:
  "experiments_by_label (group_by exp_of (\<lambda>r. r) rows) =
     map (\<lambda>l. (l, label_group rows l)) (uniq (map (label_of rows) (uniq (map exp_of rows))))"
proof -
  have "experiments_by_label (group_by exp_of (\<lambda>r. r) rows) =
      group_by (label_of rows) (\<lambda>i. i) (uniq (map exp_of rows))"
    unfolding experiments_by_label_def group_by_eq [of exp_of] group_by_map
    by (simp add: label_of_def [abs_def])
  then show ?thesis by (simp add: group_by_eq label_group_def)
qed

lemma assign_all_Inr:
  "assign_all d = Inr a \<longleftrightarrow>
     list_all (\<lambda>(_, ids). sortable ids) d \<and> a = sp.combine (map snd (sort_key fst d))"
proof -
  have "fold_result (\<lambda>(_, ids) acc. bind_result (split_group ids) (\<lambda>a. Inr (dict_update acc a))) gs acc = Inr a
    \<longleftrightarrow> list_all (\<lambda>(_, ids). sortable ids) gs \<and>
      a = fold (\<lambda>ids acc. dict_update acc (assign_sorted (sort ids))) (map snd gs) acc"
    for gs :: "(string, exp_id list) pydict" and acc
    by (induction gs arbitrary: acc) (auto simp: split_group_def split: if_splits)
  then show ?thesis
    by (simp add: assign_all_def sp.combine_def list_all_iff)
qed

lemma sorted_groups:
  "sort_key fst (experiments_by_label (group_by exp_of (\<lambda>r. r) rows)) =
     map (\<lambda>l. (l, label_group rows l)) (sort (uniq (map (label_of rows) (uniq (map exp_of rows)))))"
  by (simp add: experiments_by_label_eq sort_key_map)

lemma split_of_eq:
  assumes "i \<in> exp_of ` set rows"
  shows "dict_get (assign_sorted (sort (label_group rows (label_of rows i)))) i = Some (split_of rows i)"
proof -
  have "i \<in> set (label_group rows (label_of rows i))" using assms by (auto simp: label_group_def)
  then show ?thesis
    using dict_keys_get [of i "assign_sorted (sort (label_group rows (label_of rows i)))"]
    by (auto simp: keys_assign_sorted split_of_def)
qed

lemma split_of_in: "i \<in> exp_of ` set rows \<Longrightarrow> split_of rows i \<in> set SPLITS"
  using split_of_eq range_assign_sorted by blast

lemma get_assignments:
  assumes "assign_all (experiments_by_label (group_by exp_of (\<lambda>r. r) rows)) = Inr a"
    and "i \<in> exp_of ` set rows"
  shows "dict_get a i = Some (split_of rows i)"
proof -
  let ?ls = "sort (uniq (map (label_of rows) (uniq (map exp_of rows))))"
  let ?g = "label_group rows (label_of rows i)"
  have a: "a = sp.combine (map (label_group rows) ?ls)"
    using assms(1) by (simp add: assign_all_Inr sorted_groups comp_def)
  have "dict_get (sp.combine (map (label_group rows) ?ls)) i = dict_get (assign_sorted (sort ?g)) i"
    using assms(2) by (intro sp.get_combine) (auto simp: label_group_def)
  then show ?thesis using split_of_eq [OF assms(2)] a by simp
qed


lemma dict_splits:
  "s \<in> set SPLITS \<Longrightarrow> dict_get (map (\<lambda>s. (s, F s)) SPLITS) s = Some (F s)"
  "s \<in> set SPLITS \<Longrightarrow> dict_set s v (map (\<lambda>s. (s, F s)) SPLITS) = map (\<lambda>t. (t, if t = s then v else F t)) SPLITS"
  by (auto simp: SPLITS_def dict_get_def dict_set_def)

lemma place_rows_Inr:
  assumes "\<And>r. r \<in> set rows \<Longrightarrow> has_id r \<and> dict_get a (exp_of r) = Some (sp r) \<and> sp r \<in> set SPLITS"
  shows "place_rows a rows =
    Inr (map (\<lambda>s. (s, map (set_field ''split'' s) (filter (\<lambda>r. sp r = s) rows))) SPLITS)"
  using assms unfolding place_rows_def
proof (induction rows rule: rev_induct)
  case (snoc r rows)
  let ?F = "\<lambda>s. map (set_field ''split'' s) (filter (\<lambda>r. sp r = s) rows)"
  have "fold_result (place_row a) rows (map (\<lambda>s. (s, [])) SPLITS) = Inr (map (\<lambda>s. (s, ?F s)) SPLITS)"
    using snoc by simp
  moreover have "place_row a r (map (\<lambda>s. (s, ?F s)) SPLITS) =
      Inr (dict_set (sp r) (?F (sp r) @ [set_field ''split'' (sp r) r]) (map (\<lambda>s. (s, ?F s)) SPLITS))"
    using snoc.prems [of r]
    by (simp add: place_row_def has_id_index id_index_def dict_index_def dict_splits(1))
  ultimately show ?case
    using snoc.prems [of r] by (simp add: fold_result_append dict_splits(2))
qed simp

lemma rows_of_splits: "s \<in> set SPLITS \<Longrightarrow> rows_of (map (\<lambda>s. (s, F s)) SPLITS) s = F s"
  by (simp add: rows_of_def dict_splits)

lemma write_files_Inr:
  "write_files h parts = (fs, Inr ()) \<Longrightarrow> fs = map (\<lambda>(n, rs). (n, h # map (row_cells h) rs)) parts"
proof (induction h parts arbitrary: fs rule: write_files.induct)
  case (2 h n rows rest)
  obtain f fs' where "dict_write h rows = (f, Inr ())" and "write_files h rest = (fs', Inr ())"
    and "fs = (n, f) # fs'"
    using 2(2) by (auto simp: Let_def split: prod.splits sum.splits)
  moreover from this have "f = h # map (row_cells h) rows" by (simp add: dict_write_Inr)
  ultimately show ?case using 2(1) by fastforce
qed simp

lemma write_files_ok:
  "list_all (\<lambda>(n, rs). list_all (row_fits h) rs) parts \<Longrightarrow>
     write_files h parts = (map (\<lambda>(n, rs). (n, h # map (row_cells h) rs)) parts, Inr ())"
  by (induction h parts rule: write_files.induct) (auto simp: dict_write_fits)

definition split_files :: "row list \<Rightarrow> (string \<times> row list) list" where
  "split_files rows = (''windows_all.csv'', concat (map (split_part rows) SPLITS)) #
     map (\<lambda>s. (window_file s, split_part rows s)) SPLITS"

lemma place_split_rows:
  assumes "list_all has_id rows"
    and "assign_all (experiments_by_label (group_by exp_of (\<lambda>r. r) rows)) = Inr a"
  shows "place_rows a rows = Inr (map (\<lambda>s. (s, split_part rows s)) SPLITS)"
  using assms get_assignments [OF assms(2)] split_of_in
  unfolding split_part_def by (intro place_rows_Inr) (auto simp: list_all_iff)

text \<open>The run up to the writing, and what it then writes.\<close>

lemma split_main_prepared:
  assumes "dict_reader f \<noteq> []"
    and "list_all has_id (dict_reader f)"
    and "assign_all (experiments_by_label (group_by exp_of (\<lambda>r. r) (dict_reader f))) = Inr a"
  shows "split_main dir f =
    (let rows = dict_reader f;
         (fs, res) = write_files (dict_keys (cols (hd rows))) (split_files rows);
         out = no_split\<lparr>csv_files := fs\<rparr>
     in case res of Inl e \<Rightarrow> (out, Inl e)
      | Inr _ \<Rightarrow> (case make_split_manifest a (experiment_metadata (group_by exp_of (\<lambda>r. r) rows)) of
           Inl e \<Rightarrow> (out, Inl e)
         | Inr m \<Rightarrow> (out\<lparr>splits_json := Some m\<rparr>, Inr ())))"
proof -
  have "rows_by_experiment (dict_reader f) = Inr (group_by exp_of (\<lambda>r. r) (dict_reader f))"
    using assms(2) by (simp add: rows_by_experiment_Inr)
  moreover have "concat (map (rows_of (map (\<lambda>s. (s, split_part (dict_reader f) s)) SPLITS)) SPLITS) =
      concat (map (split_part (dict_reader f)) SPLITS)"
    by (simp add: rows_of_splits cong: map_cong)
  ultimately show ?thesis
    using assms place_split_rows [OF assms(2,3)]
    by (simp add: split_main_def split_files_def comp_def Let_def del: write_files.simps)
qed

lemma split_main_Inr:
  assumes "split_main dir f = (out, Inr ())"
  obtains a m where "dict_reader f \<noteq> []" and "list_all has_id (dict_reader f)"
    and "assign_all (experiments_by_label (group_by exp_of (\<lambda>r. r) (dict_reader f))) = Inr a"
    and "csv_files out = map (\<lambda>(n, rs). (n, dict_keys (cols (hd (dict_reader f))) #
        map (row_cells (dict_keys (cols (hd (dict_reader f))))) rs)) (split_files (dict_reader f))"
    and "make_split_manifest a (experiment_metadata (group_by exp_of (\<lambda>r. r) (dict_reader f))) = Inr m"
    and "splits_json out = Some m"
proof -
  have ne: "dict_reader f \<noteq> []" using assms by (auto simp: split_main_def Let_def)
  obtain d a where d: "rows_by_experiment (dict_reader f) = Inr d"
    and a: "assign_all (experiments_by_label d) = Inr a"
    using assms ne by (auto simp: split_main_def Let_def bind_result_def split: sum.splits prod.splits)
  then have ids: "list_all has_id (dict_reader f)"
    and a': "assign_all (experiments_by_label (group_by exp_of (\<lambda>r. r) (dict_reader f))) = Inr a"
    by (simp_all add: rows_by_experiment_Inr)
  from assms show thesis
    unfolding split_main_prepared [OF ne ids a']
    using that [OF ne ids a'] write_files_Inr
    by (fastforce simp: Let_def no_split_def split: prod.splits sum.splits)
qed


section \<open>What the computation depends on\<close>

definition attack_labels :: "row list \<Rightarrow> exp_id \<Rightarrow> string set" where
  "attack_labels rows i = attack_label ` {r \<in> set rows. exp_of r = i} - {[]}"

lemma label_of_eq:
  "label_of rows i = (case sorted_list_of_set (attack_labels rows i) of [] \<Rightarrow> ''normal'' | l # _ \<Rightarrow> l)"
proof -
  let ?ls = "uniq (filter (\<lambda>l. l \<noteq> []) (map attack_label (filter (\<lambda>r. exp_of r = i) rows)))"
  have labels: "attack_labels rows i = set (sort ?ls)" by (auto simp: attack_labels_def)
  have "sorted_list_of_set (attack_labels rows i) = sort ?ls"
    unfolding labels by (rule sorted_list_of_set.idem_if_sorted_distinct) simp_all
  then show ?thesis by (simp add: label_of_def primary_label_for_experiment_def)
qed

lemma groups_cong:
  assumes "exp_of ` set rows = exp_of ` set rows'" and "\<And>i. attack_labels rows i = attack_labels rows' i"
  shows "sort (label_group rows l) = sort (label_group rows' l)"
    and "split_of rows i = split_of rows' i"
    and "assign_all (experiments_by_label (group_by exp_of (\<lambda>r. r) rows)) = Inr a \<longleftrightarrow>
         assign_all (experiments_by_label (group_by exp_of (\<lambda>r. r) rows')) = Inr a"
proof -
  have label: "label_of rows = label_of rows'" by (rule ext) (simp add: label_of_eq assms(2))
  have groups: "sort (label_group rows l) = sort (label_group rows' l)" for l
    unfolding label_group_def label
    by (rule sorted_distinct_set_unique) (use assms(1) in auto)
  then show "sort (label_group rows l) = sort (label_group rows' l)" .
  show "split_of rows i = split_of rows' i" by (simp add: split_of_def groups label)
  have labels: "sort (uniq (map (label_of rows) (uniq (map exp_of rows)))) =
      sort (uniq (map (label_of rows') (uniq (map exp_of rows'))))"
    by (rule sort_uniq_cong) (use assms(1) in \<open>simp add: label\<close>)
  have sortable: "sortable (label_group rows l) \<longleftrightarrow> sortable (label_group rows' l)" for l
    using groups [of l] sortable_sort by metis
  have combine: "sp.combine (map (label_group rows) ls) = sp.combine (map (label_group rows') ls)" for ls
    unfolding sp.combine_def by (induction ls rule: rev_induct) (simp_all add: groups)
  have all: "list_all (\<lambda>(_, ids). sortable ids) (experiments_by_label (group_by exp_of (\<lambda>r. r) rows)) \<longleftrightarrow>
      list_all (\<lambda>(_, ids). sortable ids) (experiments_by_label (group_by exp_of (\<lambda>r. r) rows'))"
    using assms(1) by (auto simp: experiments_by_label_eq list_all_iff sortable label)
  show "assign_all (experiments_by_label (group_by exp_of (\<lambda>r. r) rows)) = Inr a \<longleftrightarrow>
      assign_all (experiments_by_label (group_by exp_of (\<lambda>r. r) rows')) = Inr a"
    by (simp add: assign_all_Inr sorted_groups all labels combine comp_def)
qed

section \<open>Rows that carry their split\<close>

lemma exp_of_set_split [simp]: "exp_of (set_field ''split'' s r) = exp_of r"
  by (simp add: exp_of_def dict_simps)

lemma has_id_set_split [simp]: "has_id (set_field ''split'' s r) = has_id r"
  by (simp add: has_id_def dict_simps)

lemma attack_label_set_split [simp]: "attack_label (set_field ''split'' s r) = attack_label r"
  by (simp add: attack_label_def dict_simps)

lemma scenario_set_split [simp]:
  "row_get_or d (set_field ''split'' s r) ''experiment_type'' = row_get_or d r ''experiment_type''"
  by (simp add: row_get_or_def dict_simps)

lemma set_split_twice [simp]: "set_field k v (set_field k w r) = set_field k v r"
  by (simp add: set_field_def dict_set_def)

definition reordered :: "row list \<Rightarrow> row list" where
  "reordered rows = concat (map (split_part rows) SPLITS)"

lemma filter_exp_split_part:
  "filter (\<lambda>r. exp_of r = i) (split_part rows s) =
     (if split_of rows i = s then map (set_field ''split'' s) (filter (\<lambda>r. exp_of r = i) rows) else [])"
proof -
  have "filter (\<lambda>r. split_of rows (exp_of r) = s \<and> exp_of r = i) rows =
      (if split_of rows i = s then filter (\<lambda>r. exp_of r = i) rows else [])"
    by (auto intro: filter_cong simp: filter_empty_conv)
  then show ?thesis by (simp add: split_part_def filter_map comp_def)
qed

lemma filter_exp_reordered:
  "filter (\<lambda>r. exp_of r = i) (reordered rows) =
     map (set_field ''split'' (split_of rows i)) (filter (\<lambda>r. exp_of r = i) rows)"
proof (cases "i \<in> exp_of ` set rows")
  case True
  then have "split_of rows i \<in> set SPLITS" by (rule split_of_in)
  then show ?thesis
    by (auto simp: reordered_def SPLITS_def filter_exp_split_part)
next
  case False
  then have "filter (\<lambda>r. exp_of r = i) rows = []" by (auto simp: filter_empty_conv)
  then show ?thesis by (simp add: reordered_def SPLITS_def filter_exp_split_part)
qed

lemma exps_reordered: "exp_of ` set (reordered rows) = exp_of ` set rows"
proof -
  have "i \<in> exp_of ` set xs \<longleftrightarrow> filter (\<lambda>r. exp_of r = i) xs \<noteq> []" for i and xs :: "row list"
    by (auto simp: filter_empty_conv)
  then show ?thesis by (simp add: set_eq_iff filter_exp_reordered)
qed

lemma attack_labels_filter: "attack_labels rows i = attack_label ` set (filter (\<lambda>r. exp_of r = i) rows) - {[]}"
  by (auto simp: attack_labels_def)

lemma attack_labels_reordered: "attack_labels (reordered rows) i = attack_labels rows i"
  by (simp add: attack_labels_filter filter_exp_reordered image_image del: set_filter)

lemma split_of_reordered: "split_of (reordered rows) i = split_of rows i"
  by (rule groups_cong) (simp_all add: exps_reordered attack_labels_reordered)

lemma split_part_reordered:
  assumes "s \<in> set SPLITS"
  shows "split_part (reordered rows) s = split_part rows s"
proof -
  have "filter (\<lambda>r. split_of rows (exp_of r) = s) (split_part rows t) =
      (if t = s then split_part rows s else [])" for t
    by (auto simp: split_part_def filter_map comp_def filter_empty_conv)
  then have "filter (\<lambda>r. split_of rows (exp_of r) = s) (reordered rows) = split_part rows s"
    using assms by (auto simp: reordered_def SPLITS_def)
  then show ?thesis
    unfolding split_part_def [of "reordered rows"] split_of_reordered
    by (simp add: split_part_def comp_def)
qed

lemma split_files_reordered: "split_files (reordered rows) = split_files rows"
  by (simp add: split_files_def split_part_reordered cong: map_cong)


section \<open>The manifest\<close>

lemma manifest_assignments: "make_split_manifest a md = Inr m \<Longrightarrow> assignments_of m = a"
  by (auto simp: make_split_manifest_def bind_result_Inr split: if_splits)

lemma experiment_metadata_eq:
  "experiment_metadata (group_by exp_of (\<lambda>r. r) rows) =
     map (\<lambda>i. (i, \<lparr>md_label = label_of rows i,
        md_scenario = row_get_or [] (filter (\<lambda>r. exp_of r = i) rows ! 0) ''experiment_type''\<rparr>)) (uniq (map exp_of rows))"
  by (simp add: experiment_metadata_def group_by_eq label_of_def comp_def)

lemma sort_items: "sort_key fst (map (\<lambda>i. (i, F i)) ids) = map (\<lambda>i. (i, F i)) (sort ids)"
  by (simp add: sort_key_map)

lemma make_split_manifest_ok:
  assumes "sortable (uniq (map exp_of rows))" and "\<And>i. i \<in> exp_of ` set rows \<Longrightarrow> dict_get a i \<noteq> None"
  shows "\<exists>m. make_split_manifest a (experiment_metadata (group_by exp_of (\<lambda>r. r) rows)) = Inr m"
proof -
  let ?f = "\<lambda>(i, m). bind_result (id_index a i) (\<lambda>s. Inr (i, \<lparr>e_split = s, e_label = md_label m, e_scenario = md_scenario m\<rparr>))"
  have "\<exists>ys. map_result ?f (sort_key fst (experiment_metadata (group_by exp_of (\<lambda>r. r) rows))) = Inr ys"
  proof (rule map_result_exists)
    fix x assume "x \<in> set (sort_key fst (experiment_metadata (group_by exp_of (\<lambda>r. r) rows)))"
    then obtain i md where x: "x = (i, md)" and "i \<in> exp_of ` set rows"
      by (auto simp: experiment_metadata_eq)
    with assms(2) obtain s where "dict_get a i = Some s" by blast
    then show "\<exists>y. ?f x = Inr y" by (simp add: x id_index_def)
  qed
  moreover have "dict_keys (experiment_metadata (group_by exp_of (\<lambda>r. r) rows)) = uniq (map exp_of rows)"
    by (simp add: experiment_metadata_eq dict_keys_def comp_def)
  ultimately show ?thesis
    using assms(1) by (auto simp: make_split_manifest_def)
qed

lemma metadata_reordered:
  "sort_key fst (experiment_metadata (group_by exp_of (\<lambda>r. r) (reordered rows))) =
     sort_key fst (experiment_metadata (group_by exp_of (\<lambda>r. r) rows))"
proof -
  have ids: "sort (uniq (map exp_of (reordered rows))) = sort (uniq (map exp_of rows))"
    by (rule sort_uniq_cong) (simp add: exps_reordered)
  have label: "label_of (reordered rows) i = label_of rows i" for i
    by (simp add: label_of_eq attack_labels_reordered)
  have scenario: "row_get_or [] (filter (\<lambda>r. exp_of r = i) (reordered rows) ! 0) ''experiment_type'' =
      row_get_or [] (filter (\<lambda>r. exp_of r = i) rows ! 0) ''experiment_type''"
    if "i \<in> set (sort (uniq (map exp_of rows)))" for i
  proof -
    have "filter (\<lambda>r. exp_of r = i) rows \<noteq> []" using that by (auto simp: filter_empty_conv)
    then show ?thesis by (simp add: filter_exp_reordered)
  qed
  show ?thesis
    unfolding experiment_metadata_eq sort_items ids
    by (rule map_cong) (simp_all add: label scenario)
qed

section \<open>Inputs on which the script succeeds\<close>

definition split_input :: "string list \<Rightarrow> row list \<Rightarrow> bool" where
  "split_input h rows \<longleftrightarrow> rows \<noteq> [] \<and> list_all (row_fits h) rows \<and>
     ''experiment_id'' \<in> set h \<and> ''split'' \<in> set h"

lemma row_fits_set_field:
  assumes "row_fits h r" and "k \<in> set h"
  shows "row_fits h (set_field k v r)"
proof -
  have "dict_keys (cols (set_field k v r)) = h" using assms by (simp add: row_fits_def keys_set_field)
  moreover have "dict_wf (cols (set_field k v r))"
    using assms(1) by (simp add: row_fits_def set_field_def dict_simps)
  moreover have "\<exists>c. row_get (set_field k v r) k' = Some (Some c)" if "k' \<in> set h" for k'
    using row_fits_get [OF assms(1) that] by (auto simp: row_get_set_field)
  ultimately show ?thesis
    using assms(1) by (fastforce simp: row_fits_def list_all_iff extra_set_field split: option.splits)
qed

lemma split_part_fits:
  "split_input h rows \<Longrightarrow> list_all (row_fits h) (split_part rows s)"
  by (auto simp: split_part_def split_input_def list_all_iff intro: row_fits_set_field)

lemma reordered_fits: "split_input h rows \<Longrightarrow> list_all (row_fits h) (reordered rows)"
  using split_part_fits [of h rows] by (auto simp: reordered_def list_all_iff)

lemma fits_id:
  assumes "row_fits h r" and "''experiment_id'' \<in> set h"
  shows "has_id r" and "exp_of r \<noteq> None"
  using assms by (auto simp: has_id_def exp_of_def row_fits_def list_all_iff split: option.splits)

lemma sortable_input:
  assumes "split_input h rows" and "set ids \<subseteq> exp_of ` set rows"
  shows "sortable ids"
proof -
  have "None \<notin> exp_of ` set rows"
    using assms(1) fits_id(2) [of h] by (force simp: split_input_def list_all_iff)
  then show ?thesis using assms(2) by (auto simp: sortable_def)
qed

lemma split_input_prepared:
  assumes "split_input h rows"
  shows "list_all has_id rows"
    and "\<exists>a. assign_all (experiments_by_label (group_by exp_of (\<lambda>r. r) rows)) = Inr a"
    and "dict_keys (cols (hd rows)) = h"
proof -
  show "list_all has_id rows"
    using assms fits_id(1) [of h] by (auto simp: split_input_def list_all_iff)
  have "list_all (\<lambda>(_, ids). sortable ids) (experiments_by_label (group_by exp_of (\<lambda>r. r) rows))"
    unfolding experiments_by_label_eq list_all_iff
    by (auto simp: label_group_def intro!: sortable_input [OF assms])
  then show "\<exists>a. assign_all (experiments_by_label (group_by exp_of (\<lambda>r. r) rows)) = Inr a"
    by (simp add: assign_all_Inr)
  show "dict_keys (cols (hd rows)) = h"
    using assms by (cases rows) (auto simp: split_input_def row_fits_def)
qed

lemma split_main_ok:
  assumes "split_input h (dict_reader f)"
  shows "\<exists>out m a. split_main dir f = (out, Inr ()) \<and> splits_json out = Some m \<and>
    assign_all (experiments_by_label (group_by exp_of (\<lambda>r. r) (dict_reader f))) = Inr a \<and>
    make_split_manifest a (experiment_metadata (group_by exp_of (\<lambda>r. r) (dict_reader f))) = Inr m \<and>
    csv_files out = map (\<lambda>(n, rs). (n, h # map (row_cells h) rs)) (split_files (dict_reader f))"
proof -
  let ?rows = "dict_reader f"
  obtain a where a: "assign_all (experiments_by_label (group_by exp_of (\<lambda>r. r) ?rows)) = Inr a"
    using split_input_prepared(2) [OF assms] by blast
  have ne: "?rows \<noteq> []" using assms by (simp add: split_input_def)
  have "write_files h (split_files ?rows) = (map (\<lambda>(n, rs). (n, h # map (row_cells h) rs)) (split_files ?rows), Inr ())"
    using split_part_fits [OF assms] reordered_fits [OF assms]
    by (intro write_files_ok) (auto simp: split_files_def reordered_def list_all_iff)
  moreover obtain m where "make_split_manifest a (experiment_metadata (group_by exp_of (\<lambda>r. r) ?rows)) = Inr m"
    using make_split_manifest_ok [of ?rows a] sortable_input [OF assms, of "uniq (map exp_of ?rows)"]
      get_assignments [OF a] by auto
  ultimately show ?thesis
    unfolding split_main_prepared [OF ne split_input_prepared(1) [OF assms] a]
    using a by (simp add: Let_def no_split_def split_input_prepared(3) [OF assms])
qed

section \<open>A concrete run\<close>

definition demo_windows :: csv where
  "demo_windows =
     [[''experiment_id'', ''label'', ''split''],
      [''c'', ''x'', ''''], [''a'', ''normal'', ''''], [''b'', ''x'', ''''], [''a'', ''x'', ''''],
      [''d'', ''normal'', '''']]"

lemma demo_split_input: "split_input (reader_header demo_windows) (dict_reader demo_windows)"
  by code_simp

lemma demo_split_runs:
  obtains out m where "split_main [] demo_windows = (out, Inr ())" and "splits_json out = Some m"
  using split_main_ok [OF demo_split_input] by blast

section \<open>Properties\<close>

lemma split_main_parts:
  assumes "split_main dir f = (out, Inr ())" and "splits_json out = Some m"
  shows "\<And>i. i \<in> exp_of ` set (dict_reader f) \<Longrightarrow> dict_get (assignments_of m) i = Some (split_of (dict_reader f) i)"
    and "csv_files out = map (\<lambda>(n, rs). (n, dict_keys (cols (hd (dict_reader f))) #
        map (row_cells (dict_keys (cols (hd (dict_reader f))))) rs)) (split_files (dict_reader f))"
    and "assign_all (experiments_by_label (group_by exp_of (\<lambda>r. r) (dict_reader f))) = Inr (assignments_of m)"
proof -
  show a: "assign_all (experiments_by_label (group_by exp_of (\<lambda>r. r) (dict_reader f))) = Inr (assignments_of m)"
    using assms by (auto elim!: split_main_Inr dest!: manifest_assignments)
  show "\<And>i. i \<in> exp_of ` set (dict_reader f) \<Longrightarrow> dict_get (assignments_of m) i = Some (split_of (dict_reader f) i)"
    using get_assignments [OF a] by blast
qed (use assms in \<open>auto elim!: split_main_Inr\<close>)

text \<open>C1: no leakage: after a successful run every experiment has one of the three splits, and the
  file of a split holds, in input order, exactly the rows of the experiments assigned to it, each
  with that split in its \<open>split\<close> column; \<open>windows_all.csv\<close> is the three files one after the other.\<close>

theorem split_no_leakage:
  assumes run: "split_main dir f = (out, Inr ())" and m: "splits_json out = Some m"
  shows "(\<forall>r \<in> set (dict_reader f). \<exists>s \<in> set SPLITS. dict_get (assignments_of m) (exp_of r) = Some s) \<and>
    (\<exists>h part. (\<forall>s \<in> set SPLITS.
        part s = map (set_field ''split'' s)
          (filter (\<lambda>r. dict_get (assignments_of m) (exp_of r) = Some s) (dict_reader f)) \<and>
        dict_get (csv_files out) (window_file s) = Some (h # map (row_cells h) (part s))) \<and>
      dict_get (csv_files out) ''windows_all.csv'' =
        Some (h # map (row_cells h) (part ''train'' @ part ''val'' @ part ''test'')))"
proof -
  let ?rows = "dict_reader f" and ?h = "dict_keys (cols (hd (dict_reader f)))"
  note get = split_main_parts(1) [OF run m]
  have part: "split_part ?rows s = map (set_field ''split'' s)
      (filter (\<lambda>r. dict_get (assignments_of m) (exp_of r) = Some s) ?rows)" for s
    unfolding split_part_def using get
    by (intro arg_cong [where f = "map (set_field ''split'' s)"] filter_cong) auto
  have "\<forall>r \<in> set ?rows. \<exists>s \<in> set SPLITS. dict_get (assignments_of m) (exp_of r) = Some s"
    using get split_of_in by blast
  moreover have "\<forall>s \<in> set SPLITS. dict_get (csv_files out) (window_file s) = Some (?h # map (row_cells ?h) (split_part ?rows s))"
    and "dict_get (csv_files out) ''windows_all.csv'' = Some (?h # map (row_cells ?h)
      (split_part ?rows ''train'' @ split_part ?rows ''val'' @ split_part ?rows ''test''))"
    unfolding split_main_parts(2) [OF run m]
    by (simp_all add: split_files_def SPLITS_def window_file_def dict_get_def)
  ultimately show ?thesis
    by (intro conjI exI [of _ ?h] exI [of _ "split_part ?rows"] ballI) (simp_all add: part)
qed

theorem split_no_leakage_witness:
  "\<exists>out m. split_main [] demo_windows = (out, Inr ()) \<and> splits_json out = Some m \<and>
     (\<exists>s \<in> set SPLITS. dict_get (assignments_of m) (Some ''a'') = Some s)"
proof -
  obtain out m where run: "split_main [] demo_windows = (out, Inr ())" "splits_json out = Some m"
    by (rule demo_split_runs)
  have "\<exists>r \<in> set (dict_reader demo_windows). exp_of r = Some ''a''" by code_simp
  then obtain r where "r \<in> set (dict_reader demo_windows)" and "exp_of r = Some ''a''" by blast
  with split_no_leakage [OF run] have "\<exists>s \<in> set SPLITS. dict_get (assignments_of m) (Some ''a'') = Some s"
    by fastforce
  with run show ?thesis by blast
qed

text \<open>C16: the split of an experiment is decided by its place among the experiments with the same
  primary label, in ascending order of the ids: the first trains; of two, the second tests; of
  three or more, the second validates, the third tests and all others train.\<close>

theorem split_by_position:
  assumes run: "split_main dir f = (out, Inr ())" and m: "splits_json out = Some m"
    and k: "k < length (label_group (dict_reader f) l)"
  shows "dict_get (assignments_of m) (sort (label_group (dict_reader f) l) ! k) =
    Some (if k = 1 \<and> 3 \<le> length (label_group (dict_reader f) l) then ''val''
          else if k = 1 \<or> k = 2 then ''test'' else ''train'')"
proof -
  let ?g = "label_group (dict_reader f) l"
  let ?i = "sort ?g ! k"
  have "?i \<in> set ?g" using k by (metis length_sort nth_mem set_sort)
  then have l: "label_of (dict_reader f) ?i = l" and i: "?i \<in> exp_of ` set (dict_reader f)"
    by (auto simp: label_group_def)
  have "dict_get (assign_sorted (sort ?g)) ?i = Some (split_at (length (sort ?g)) k)"
    using k by (intro get_assign_sorted) (simp_all add: label_group_def)
  then show ?thesis
    using split_main_parts(1) [OF run m i] split_of_eq [OF i] l by (auto simp: split_at_def)
qed

theorem split_by_position_witness:
  "\<exists>out m. split_main [] demo_windows = (out, Inr ()) \<and> splits_json out = Some m \<and>
     dict_get (assignments_of m) (Some ''a'') = Some ''train'' \<and>
     dict_get (assignments_of m) (Some ''b'') = Some ''val'' \<and>
     dict_get (assignments_of m) (Some ''c'') = Some ''test''"
proof -
  obtain out m where run: "split_main [] demo_windows = (out, Inr ())" "splits_json out = Some m"
    by (rule demo_split_runs)
  have g: "sort (label_group (dict_reader demo_windows) ''x'') = [Some ''a'', Some ''b'', Some ''c'']"
    by code_simp
  have "length (label_group (dict_reader demo_windows) ''x'') = 3" by code_simp
  then show ?thesis
    using split_by_position [OF run, of 0 "''x''"] split_by_position [OF run, of 1 "''x''"]
      split_by_position [OF run, of 2 "''x''"] g run by (intro exI [of _ out] exI [of _ m]) simp
qed

text \<open>C18: in every label with at least three experiments, exactly one experiment validates, exactly
  one tests, and all the others train.\<close>

theorem split_label_counts:
  assumes run: "split_main dir f = (out, Inr ())" and m: "splits_json out = Some m"
    and k: "3 \<le> length (label_group (dict_reader f) l)"
  shows "length (filter (\<lambda>i. dict_get (assignments_of m) i = Some ''val'') (label_group (dict_reader f) l)) = 1 \<and>
    length (filter (\<lambda>i. dict_get (assignments_of m) i = Some ''test'') (label_group (dict_reader f) l)) = 1 \<and>
    length (filter (\<lambda>i. dict_get (assignments_of m) i = Some ''train'') (label_group (dict_reader f) l)) =
      length (label_group (dict_reader f) l) - 2"
proof -
  let ?g = "label_group (dict_reader f) l"
  let ?A = "\<lambda>i. dict_get (assignments_of m) i"
  obtain a b c rest where g: "sort ?g = a # b # c # rest"
    using k by (cases "sort ?g" rule: three_cases) (auto dest: arg_cong [where f = length])
  have len: "length ?g = Suc (Suc (Suc (length rest)))" using arg_cong [OF g, of length] by simp
  have eq: "?A i = Some (the (dict_get (assign_sorted (sort ?g)) i))" if "i \<in> set (sort ?g)" for i
  proof -
    have "label_of (dict_reader f) i = l" and i: "i \<in> exp_of ` set (dict_reader f)"
      using that by (auto simp: label_group_def)
    then show ?thesis using split_main_parts(1) [OF run m i] split_of_eq [OF i] by simp
  qed
  have "distinct (sort ?g)" by (simp add: label_group_def)
  then have d: "a \<noteq> b" "a \<noteq> c" "b \<noteq> c" "a \<notin> set rest" "b \<notin> set rest" "c \<notin> set rest"
    by (auto simp: g)
  have rest: "?A i = Some ''train''" if "i \<in> set rest" for i
    using eq [of i] that d by (auto simp: g get_fold_set)
  have "?A a = Some ''train''" and "?A b = Some ''val''" and "?A c = Some ''test''"
    using eq [of a] eq [of b] eq [of c] d by (simp_all add: g get_fold_set dict_simps)
  then have "length (filter (\<lambda>i. ?A i = Some s) (sort ?g)) =
      (if s = ''train'' then Suc (length rest) else if s = ''val'' \<or> s = ''test'' then 1 else 0)" for s
    using rest by (auto simp: g filter_empty_conv)
  moreover have "length (filter P (sort ?g)) = length (filter P ?g)" for P
    by (metis mset_filter mset_sort size_mset)
  ultimately show ?thesis by (simp add: len)
qed

theorem split_label_counts_witness:
  "\<exists>out m. split_main [] demo_windows = (out, Inr ()) \<and> splits_json out = Some m \<and>
     length (filter (\<lambda>i. dict_get (assignments_of m) i = Some ''val'')
       (label_group (dict_reader demo_windows) ''x'')) = 1"
proof -
  obtain out m where run: "split_main [] demo_windows = (out, Inr ())" "splits_json out = Some m"
    by (rule demo_split_runs)
  have "3 \<le> length (label_group (dict_reader demo_windows) ''x'')" by code_simp
  from split_label_counts [OF run this] run show ?thesis by blast
qed

text \<open>The assignment does not depend on the order of the rows in the input file.\<close>

theorem split_order_invariant:
  assumes "split_main dir f = (out, Inr ())" and "splits_json out = Some m"
    and "split_main dir' f' = (out', Inr ())" and "splits_json out' = Some m'"
    and "mset (dict_reader f) = mset (dict_reader f')"
  shows "assignments_of m = assignments_of m'"
proof -
  have set: "set (dict_reader f) = set (dict_reader f')" using assms(5) by (rule mset_eq_setD)
  have "assign_all (experiments_by_label (group_by exp_of (\<lambda>r. r) (dict_reader f'))) = Inr (assignments_of m)"
    using split_main_parts(3) [OF assms(1,2)]
      groups_cong(3) [of "dict_reader f" "dict_reader f'"] by (simp add: set attack_labels_def)
  then show ?thesis using split_main_parts(3) [OF assms(3,4)] by simp
qed

definition demo_windows_rev :: csv where
  "demo_windows_rev = hd demo_windows # rev (tl demo_windows)"

theorem split_order_invariant_witness:
  "\<exists>out m out' m'. split_main [] demo_windows = (out, Inr ()) \<and> splits_json out = Some m \<and>
     split_main [] demo_windows_rev = (out', Inr ()) \<and> splits_json out' = Some m' \<and>
     assignments_of m = assignments_of m'"
proof -
  obtain out m where run: "split_main [] demo_windows = (out, Inr ())" "splits_json out = Some m"
    by (rule demo_split_runs)
  have rev: "dict_reader demo_windows_rev = rev (dict_reader demo_windows)" by code_simp
  then have "split_input (reader_header demo_windows) (dict_reader demo_windows_rev)"
    using demo_split_input by (simp add: split_input_def)
  from split_main_ok [OF this]
  obtain out' m' where run': "split_main [] demo_windows_rev = (out', Inr ())" "splits_json out' = Some m'"
    by blast
  from split_order_invariant [OF run run'] rev run run' show ?thesis by auto
qed

text \<open>C17: splitting a table with a cell in every column, among them \<open>experiment_id\<close> and \<open>split\<close>,
  succeeds, and splitting the resulting \<open>windows_all.csv\<close> again reproduces every output file and
  the manifest: the script is idempotent.\<close>

theorem split_idempotent:
  assumes ok: "split_input h (dict_reader f)"
  shows "\<exists>out f'. split_main dir f = (out, Inr ()) \<and> dict_get (csv_files out) ''windows_all.csv'' = Some f' \<and>
    split_main dir f' = (out, Inr ())"
proof -
  let ?rows = "dict_reader f" and ?f' = "h # map (row_cells h) (reordered (dict_reader f))"
  obtain out m a where run: "split_main dir f = (out, Inr ())" and m: "splits_json out = Some m"
    and a: "assign_all (experiments_by_label (group_by exp_of (\<lambda>r. r) ?rows)) = Inr a"
    and man: "make_split_manifest a (experiment_metadata (group_by exp_of (\<lambda>r. r) ?rows)) = Inr m"
    and files: "csv_files out = map (\<lambda>(n, rs). (n, h # map (row_cells h) rs)) (split_files ?rows)"
    using split_main_ok [OF ok] by blast
  have "h \<noteq> []" using ok by (auto simp: split_input_def)
  then have read: "dict_reader ?f' = reordered ?rows"
    by (rule dict_reader_written) (rule reordered_fits [OF ok])
  have "reordered ?rows \<noteq> []"
    using exps_reordered [of ?rows] ok by (auto simp: split_input_def)
  then have "split_input h (dict_reader ?f')"
    using ok reordered_fits [OF ok] by (simp add: read split_input_def)
  from split_main_ok [OF this]
  obtain out' m' a' where run': "split_main dir ?f' = (out', Inr ())" and m': "splits_json out' = Some m'"
    and a': "assign_all (experiments_by_label (group_by exp_of (\<lambda>r. r) (reordered ?rows))) = Inr a'"
    and man': "make_split_manifest a' (experiment_metadata (group_by exp_of (\<lambda>r. r) (reordered ?rows))) = Inr m'"
    and files': "csv_files out' = map (\<lambda>(n, rs). (n, h # map (row_cells h) rs)) (split_files (reordered ?rows))"
    unfolding read by blast
  have "a' = a"
    using a a' groups_cong(3) [of "reordered ?rows" ?rows] by (simp add: exps_reordered attack_labels_reordered)
  moreover have "sort_key fst (experiment_metadata (group_by exp_of (\<lambda>r. r) (reordered ?rows))) =
      sort_key fst (experiment_metadata (group_by exp_of (\<lambda>r. r) ?rows))"
    by (rule metadata_reordered)
  ultimately have "m' = m"
    using man man' by (auto simp: make_split_manifest_def split: if_splits)
  then have "out' = out"
    using files files' m m' by (cases out; cases out') (simp add: split_files_reordered)
  moreover have "dict_get (csv_files out) ''windows_all.csv'' = Some ?f'"
    by (simp add: files split_files_def reordered_def dict_get_def)
  ultimately show ?thesis using run run' by blast
qed

theorem split_idempotent_witness:
  "\<exists>out f'. split_main [] demo_windows = (out, Inr ()) \<and>
     dict_get (csv_files out) ''windows_all.csv'' = Some f' \<and> split_main [] f' = (out, Inr ())"
  by (rule split_idempotent [OF demo_split_input])

end
