(* ===== verification/Py_Json.thy ===== *)
theory Py_Json
  imports Py_Float
begin

text \<open>
  The values \<open>json.loads\<close> produces. An object is a dictionary: its keys are distinct and in order of
  first occurrence. The texts of JSON files are in \<open>Json_Text\<close>; elsewhere a script's JSON input is the
  decoded value, its JSON output the value it passes to \<open>json.dump\<close>.
\<close>

datatype json =
    JNull
  | JBool bool
  | JInt int
  | JFloat dbl
  | JStr string
  | JArr "json list"
  | JObj "(string \<times> json) list"

end
