(* ===== verification/Dataset_Report.thy ===== *)
theory Dataset_Report
  imports Csv_Rows Py_Json
begin

text \<open>
  \<open>scripts/phase3_dataset_report.py\<close>: counts the windows by label, split, node, experiment and
  scenario, checks every window and every included experiment, and writes a summary, a quality
  report and an updated manifest. A message is a constructor with the values its text shows; a line
  of a Markdown file is a constructor, too, its wording left out.
\<close>

section \<open>Messages and lines\<close>

type_synonym cell = "string option"

datatype quality_error =
    Invalid_Bounds cell cell int int
  | Rate_Out_Of_Range cell dbl
  | Negative_Delta cell cell string
  | Missing_Label cell cell
  | Missing_Recovery cell

datatype quality_warning =
    Backend_Mismatch cell cell cell
  | No_Coverage cell string

datatype passed_item =
    All_Windows_Written
  | All_Splits_Generated
  | No_Negative_Delta
  | All_Targets_Seen

datatype line =
    Title
  | Generated_At string
  | Row_Total nat
  | Experiment_Total nat
  | Node_Total nat
  | Section nat
  | Blank
  | Split_Line string nat
  | Label_Line cell nat "(string \<times> nat) list"
  | Scenario_Line string nat
  | Node_Line cell nat
  | Experiment_Line string cell cell cell
  | Error_Total nat
  | Warning_Total nat
  | Passed passed_item
  | Error_Item quality_error
  | No_Errors
  | Warning_Item quality_warning
  | More_Warnings nat
  | No_Warnings

definition DELTA_FIELDS :: "string list" where
  "DELTA_FIELDS =
     [''delta_tcp_packets'', ''delta_nodeport_hit'', ''delta_backend_selected'',
      ''delta_backend_lookup_miss'', ''delta_rr_update'', ''delta_snat_install'',
      ''delta_request_rewrite'', ''delta_revnat_hit'', ''delta_ct_lookup_miss'',
      ''delta_response_rewrite'', ''delta_fwd_ct_hit'', ''delta_new_conn'', ''delta_map_miss'',
      ''delta_rewrite_fail'', ''delta_redirect_ok'', ''delta_redirect_fail'', ''delta_fallback_pass'']"

definition SPLIT_NAMES :: "string list" where
  "SPLIT_NAMES = [''train'', ''val'', ''test'']"

section \<open>Checking the windows\<close>

definition as_int :: "cell \<Rightarrow> int" where
  "as_int v = (case v of None \<Rightarrow> 0 | Some s \<Rightarrow> (case py_int s of None \<Rightarrow> 0 | Some i \<Rightarrow> i))"

text \<open>\<open>float(row.get(\<dots>, "0") or 0.0)\<close>.\<close>

definition success_rate :: "row \<Rightarrow> dbl result" where
  "success_rate r = (case row_get_or ''0'' r ''traffic_probe_success_rate'' of
     None \<Rightarrow> Inr (Fin 0)
   | Some s \<Rightarrow> if s = [] then Inr (Fin 0)
       else (case py_float s of None \<Rightarrow> Inl ValueError | Some x \<Rightarrow> Inr x))"

text \<open>The cell of a column that is known to exist.\<close>

definition cell :: "row \<Rightarrow> string \<Rightarrow> cell" where
  "cell r k = (case row_get r k of None \<Rightarrow> None | Some v \<Rightarrow> v)"

definition bounds_errors :: "row \<Rightarrow> quality_error list" where
  "bounds_errors r =
     (let start = as_int (row_get_or ''0'' r ''window_start_unix_ms'');
          end_ms = as_int (row_get_or ''0'' r ''window_end_unix_ms'')
      in if end_ms \<le> start
         then [Invalid_Bounds (cell r ''experiment_id'') (cell r ''node_name'') start end_ms] else [])"

definition backend_warnings :: "row \<Rightarrow> quality_warning list" where
  "backend_warnings r =
     (if as_int (row_get_or ''0'' r ''backend_total'') \<noteq>
         as_int (row_get_or ''0'' r ''backend_local'') + as_int (row_get_or ''0'' r ''backend_remote'')
      then [Backend_Mismatch (cell r ''experiment_id'') (cell r ''node_name'')
              (cell r ''window_start_unix_ms'')] else [])"

definition rate_errors :: "row \<Rightarrow> dbl \<Rightarrow> quality_error list" where
  "rate_errors r rate =
     (if dlt rate (Fin 0) \<or> dlt (Fin 1) rate then [Rate_Out_Of_Range (cell r ''experiment_id'') rate] else [])"

definition delta_errors :: "row \<Rightarrow> quality_error list" where
  "delta_errors r =
     map (Negative_Delta (cell r ''experiment_id'') (cell r ''node_name''))
       (filter (\<lambda>field. as_int (row_get_or ''0'' r field) < 0) DELTA_FIELDS)"

record scan =
  label_split :: "(cell, (cell, nat) pydict) pydict"
  errors :: "quality_error list"
  warnings :: "quality_warning list"

definition scan_row :: "row \<Rightarrow> scan \<Rightarrow> scan result" where
  "scan_row r s =
     bind_result (success_rate r) (\<lambda>rate.
       Inr \<lparr>label_split = dict_set (cell r ''label'')
              (bump (cell r ''split'') (dict_get_or [] (label_split s) (cell r ''label''))) (label_split s),
            errors = errors s @ bounds_errors r @ rate_errors r rate @ delta_errors r,
            warnings = warnings s @ backend_warnings r\<rparr>)"

definition scan_rows :: "row list \<Rightarrow> scan result" where
  "scan_rows rows = fold_result scan_row rows \<lparr>label_split = [], errors = [], warnings = []\<rparr>"

section \<open>Checking the experiments\<close>

definition label_by_experiment :: "row list \<Rightarrow> (cell, cell list) pydict" where
  "label_by_experiment rows =
     group_by (\<lambda>r. cell r ''experiment_id'') (\<lambda>r. cell r ''label'')
       (filter (\<lambda>r. cell r ''label'' \<noteq> Some ''normal'') rows)"

definition recovery_by_experiment :: "row list \<Rightarrow> (cell, nat) pydict" where
  "recovery_by_experiment rows =
     counter (map (\<lambda>r. cell r ''experiment_id'')
       (filter (\<lambda>r. row_get r ''recovery_active'' = Some (Some ''1'')) rows))"

definition experiment_errors ::
  "(cell, cell list) pydict \<Rightarrow> (cell, nat) pydict \<Rightarrow> cell \<Rightarrow> cell \<Rightarrow> quality_error list" where
  "experiment_errors labels recovery experiment_id primary_label =
     (if primary_label \<noteq> Some ''normal'' \<and> primary_label \<notin> set (dict_get_or [] labels experiment_id)
      then [Missing_Label experiment_id primary_label] else []) @
     (if primary_label \<noteq> Some ''normal'' \<and> dict_get_or 0 recovery experiment_id = 0
      then [Missing_Recovery experiment_id] else [])"

definition check_entry ::
  "(cell, cell list) pydict \<Rightarrow> (cell, nat) pydict \<Rightarrow> row \<Rightarrow> quality_error list \<Rightarrow> quality_error list result" where
  "check_entry labels recovery entry errs =
     bind_result (row_index entry ''included'') (\<lambda>included.
       if included \<noteq> Some ''1'' then Inr errs else
       bind_result (row_index entry ''experiment_id'') (\<lambda>experiment_id.
       bind_result (row_index entry ''primary_label'') (\<lambda>primary_label.
         Inr (errs @ experiment_errors labels recovery experiment_id primary_label))))"

text \<open>The labels in ascending order, and what is missing for each.\<close>

definition label_warnings :: "cell \<times> (cell, nat) pydict \<Rightarrow> quality_warning list" where
  "label_warnings item =
     (let (label, split_counts) = item in
      if label = Some ''normal'' then [] else
      (if dict_get_or 0 split_counts (Some ''test'') = 0 then [No_Coverage label ''test''] else []) @
      (if dict_get_or 0 split_counts (Some ''val'') = 0 then [No_Coverage label ''val''] else []))"

definition coverage_warnings :: "(cell, (cell, nat) pydict) pydict \<Rightarrow> quality_warning list result" where
  "coverage_warnings ls =
     (if sortable (dict_keys ls) then Inr (concat (map label_warnings (sort_key fst ls))) else Inl TypeError)"

text \<open>A column that every row must have.\<close>

definition column :: "row list \<Rightarrow> string \<Rightarrow> cell list result" where
  "column rows k = map_result (\<lambda>r. row_index r k) rows"

record findings =
  f_labels :: "cell list"
  f_splits :: "cell list"
  f_nodes :: "cell list"
  f_experiments :: "cell list"
  f_scenarios :: "string list"
  f_label_split :: "(cell, (cell, nat) pydict) pydict"
  f_errors :: "quality_error list"
  f_warnings :: "quality_warning list"

definition scenario_cell :: "row \<Rightarrow> string" where
  "scenario_cell r = (case row_get r ''experiment_type'' of Some (Some s) \<Rightarrow> s | _ \<Rightarrow> [])"

definition check_dataset :: "row list \<Rightarrow> row list \<Rightarrow> findings result" where
  "check_dataset windows_all raw_index =
     bind_result (column windows_all ''label'') (\<lambda>labels.
     bind_result (column windows_all ''split'') (\<lambda>splits.
     bind_result (column windows_all ''node_name'') (\<lambda>nodes.
     bind_result (column windows_all ''experiment_id'') (\<lambda>experiments.
     bind_result (scan_rows windows_all) (\<lambda>s.
     bind_result (fold_result
        (check_entry (label_by_experiment windows_all) (recovery_by_experiment windows_all))
        raw_index (errors s)) (\<lambda>errs.
     bind_result (coverage_warnings (label_split s)) (\<lambda>cov.
       Inr \<lparr>f_labels = labels, f_splits = splits, f_nodes = nodes, f_experiments = experiments,
            f_scenarios = map scenario_cell windows_all, f_label_split = label_split s,
            f_errors = errs, f_warnings = warnings s @ cov\<rparr>)))))))"

section \<open>The files\<close>

text \<open>A file being written: its lines so far, and the exception that ended it, if any.\<close>

type_synonym writing = "line list \<times> unit result"

definition then_write :: "writing \<Rightarrow> writing \<Rightarrow> writing" where
  "then_write w v = (case w of (ls, Inl e) \<Rightarrow> (ls, Inl e) | (ls, Inr _) \<Rightarrow> (ls @ fst v, snd v))"

definition write_lines :: "line list \<Rightarrow> writing" where
  "write_lines ls = (ls, Inr ())"

text \<open>\<open>sorted(counter.items())\<close>.\<close>

definition sorted_items :: "(cell, 'v) pydict \<Rightarrow> (cell \<times> 'v) list result" where
  "sorted_items d = (if sortable (dict_keys d) then Inr (sort_key fst d) else Inl TypeError)"

definition write_items :: "'a list result \<Rightarrow> ('a \<Rightarrow> line) \<Rightarrow> writing" where
  "write_items xs f = (case xs of Inl e \<Rightarrow> ([], Inl e) | Inr ys \<Rightarrow> write_lines (map f ys))"

fun write_experiments :: "(string \<times> (string, cell) pydict) list \<Rightarrow> writing" where
  "write_experiments [] = ([], Inr ())"
| "write_experiments ((experiment_id, meta) # rest) =
     (case bind_result (dict_index meta ''split'') (\<lambda>s.
           bind_result (dict_index meta ''primary_label'') (\<lambda>l.
           bind_result (dict_index meta ''scenario'') (\<lambda>c.
             Inr (Experiment_Line experiment_id s l c)))) of
        Inl e \<Rightarrow> ([], Inl e)
      | Inr line \<Rightarrow> then_write (write_lines [line]) (write_experiments rest))"

definition per_split :: "(cell, (cell, nat) pydict) pydict \<Rightarrow> cell \<Rightarrow> (string \<times> nat) list" where
  "per_split ls label =
     map (\<lambda>s. (s, dict_get_or 0 (dict_get_or [] ls label) (Some s))) SPLIT_NAMES"

text \<open>The decoded \<open>splits.json\<close>, cut down to its \<open>experiments\<close> member.\<close>

type_synonym splits_file = "(string, (string, cell) pydict) pydict option"

definition summary_file :: "string \<Rightarrow> findings \<Rightarrow> splits_file \<Rightarrow> writing" where
  "summary_file now f splits =
     foldr then_write
       [write_lines [Title, Generated_At now, Row_Total (length (f_labels f)),
          Experiment_Total (length (counter (f_experiments f))),
          Node_Total (length (counter (f_nodes f))), Blank, Section 1],
        write_lines (map (\<lambda>s. Split_Line s (dict_get_or 0 (counter (f_splits f)) (Some s))) SPLIT_NAMES),
        write_lines [Blank, Section 2],
        write_items (sorted_items (counter (f_labels f)))
          (\<lambda>(l, n). Label_Line l n (per_split (f_label_split f) l)),
        write_lines [Blank, Section 3],
        write_lines (map (\<lambda>(s, n). Scenario_Line (if s = [] then ''unknown'' else s) n)
          (sort_key fst (counter (f_scenarios f)))),
        write_lines [Blank, Section 4],
        write_items (sorted_items (counter (f_nodes f))) (\<lambda>(n, k). Node_Line n k),
        write_lines [Blank, Section 5],
        (case splits of None \<Rightarrow> ([], Inl (KeyError ''experiments''))
         | Some es \<Rightarrow> write_experiments (sort_key fst es))]
       (write_lines [Blank])"

definition passed_items :: "passed_item list" where
  "passed_items = [All_Windows_Written, All_Splits_Generated, No_Negative_Delta, All_Targets_Seen]"

definition warning_lines :: "quality_warning list \<Rightarrow> line list" where
  "warning_lines ws =
     (if ws = [] then [No_Warnings]
      else map Warning_Item (take 20 ws) @ (if 20 < length ws then [More_Warnings (length ws - 20)] else []))"

definition quality_file :: "string \<Rightarrow> findings \<Rightarrow> line list" where
  "quality_file now f =
     [Title, Generated_At now, Error_Total (length (f_errors f)), Warning_Total (length (f_warnings f)),
      Blank, Section 1] @
     map Passed passed_items @ [Blank, Section 2] @
     (if f_errors f \<noteq> [] then map Error_Item (f_errors f) else [No_Errors]) @ [Blank, Section 3] @
     warning_lines (f_warnings f) @ [Blank]"

text \<open>A dictionary key on its way into a JSON object.\<close>

definition key_text :: "cell \<Rightarrow> string" where
  "key_text k = (case k of None \<Rightarrow> ''null'' | Some s \<Rightarrow> s)"

definition distribution :: "(cell \<times> nat) list \<Rightarrow> json" where
  "distribution items = JObj (map (\<lambda>(k, n). (key_text k, JInt (int n))) items)"

text \<open>The scenario \<open>unknown\<close> and the empty one share a key; the later in ascending order wins.\<close>

definition scenario_distribution :: "string list \<Rightarrow> json" where
  "scenario_distribution ss =
     JObj (dict_update [] (map (\<lambda>(s, n). (if s = [] then ''unknown'' else s, JInt (int n)))
       (sort_key fst (counter ss))))"

definition update_manifest ::
  "string \<Rightarrow> string \<Rightarrow> findings \<Rightarrow> json option \<Rightarrow> json result" where
  "update_manifest dir now f old =
     (case (case old of None \<Rightarrow> JObj [] | Some j \<Rightarrow> j) of
        JObj members \<Rightarrow>
          bind_result (sorted_items (counter (f_labels f))) (\<lambda>labels.
          bind_result (sorted_items (counter (f_splits f))) (\<lambda>splits.
            Inr (JObj (dict_update members
              [(''dataset_version'', JStr ''phase3_v1''),
               (''generated_at_utc'', JStr now),
               (''row_count'', JInt (int (length (f_labels f)))),
               (''experiment_count'', JInt (int (length (counter (f_experiments f))))),
               (''node_count'', JInt (int (length (counter (f_nodes f))))),
               (''label_distribution'', distribution labels),
               (''split_distribution'', distribution splits),
               (''scenario_distribution'', scenario_distribution (f_scenarios f)),
               (''quality_error_count'', JInt (int (length (f_errors f)))),
               (''quality_warning_count'', JInt (int (length (f_warnings f)))),
               (''summary_markdown'', JStr (dir @ ''/dataset_summary.md'')),
               (''quality_markdown'', JStr (dir @ ''/quality_report.md''))]))))
      | _ \<Rightarrow> Inl AttributeError)"

record report_files =
  summary_md :: "line list option"
  quality_md :: "line list option"
  manifest_json :: "json option"

text \<open>The decoded inputs: \<open>splits.json\<close> and the old manifest may fail to decode.\<close>

definition report_main ::
  "string \<Rightarrow> string \<Rightarrow> csv \<Rightarrow> csv \<Rightarrow> splits_file result \<Rightarrow> json result option \<Rightarrow> report_files \<times> unit result" where
  "report_main dir now windows_csv index_csv splits_json old_manifest =
     (let none = \<lparr>summary_md = None, quality_md = None, manifest_json = None\<rparr>;
          windows_all = dict_reader windows_csv
      in if windows_all = [] then (none, Inl (SystemExit ''windows_all.csv is empty'')) else
      (case bind_result splits_json (\<lambda>splits.
              bind_result (check_dataset windows_all (dict_reader index_csv)) (\<lambda>f. Inr (splits, f))) of
         Inl e \<Rightarrow> (none, Inl e)
       | Inr (splits, f) \<Rightarrow>
         (let (summary, res) = summary_file now f splits;
              out = none\<lparr>summary_md := Some summary\<rparr>
          in case res of Inl e \<Rightarrow> (out, Inl e)
           | Inr _ \<Rightarrow>
             (let out2 = out\<lparr>quality_md := Some (quality_file now f)\<rparr>
              in case bind_result (case old_manifest of None \<Rightarrow> Inr None | Some r \<Rightarrow> bind_result r (\<lambda>j. Inr (Some j)))
                        (update_manifest dir now f) of
                   Inl e \<Rightarrow> (out2, Inl e)
                 | Inr m \<Rightarrow> (out2\<lparr>manifest_json := Some m\<rparr>, Inr ())))))"

section \<open>What the scan finds\<close>

definition row_errors :: "row \<Rightarrow> quality_error list" where
  "row_errors r = bounds_errors r @ rate_errors r (projr (success_rate r)) @ delta_errors r"

definition cells_count :: "row list \<Rightarrow> cell \<Rightarrow> cell \<Rightarrow> nat" where
  "cells_count rows l s = length (filter (\<lambda>r. cell r ''label'' = l \<and> cell r ''split'' = s) rows)"

lemma dict_get_or_set [dict_simps]:
  "dict_get_or d (dict_set k v e) k' = (if k' = k then v else dict_get_or d e k')"
  by (simp add: dict_get_or_def dict_simps)

lemma scan_rows_Inr:
  "scan_rows rows = Inr s \<Longrightarrow>
     (\<forall>r \<in> set rows. \<exists>x. success_rate r = Inr x) \<and>
     errors s = concat (map row_errors rows) \<and> warnings s = concat (map backend_warnings rows) \<and>
     set (dict_keys (label_split s)) = (\<lambda>r. cell r ''label'') ` set rows \<and>
     (\<forall>l sp. dict_get_or 0 (dict_get_or [] (label_split s) l) sp = cells_count rows l sp)"
proof (induction rows arbitrary: s rule: rev_induct)
  case Nil
  then show ?case by (auto simp: scan_rows_def cells_count_def dict_get_or_def dict_simps)
next
  case (snoc r rows)
  obtain s0 rate where s0: "scan_rows rows = Inr s0" and rate: "success_rate r = Inr rate"
    and s: "scan_row r s0 = Inr s"
    using snoc.prems by (auto simp: scan_rows_def fold_result_append bind_result_Inr scan_row_def)
  note IH = snoc.IH [OF s0]
  have "set (dict_keys (label_split s)) = (\<lambda>r. cell r ''label'') ` set (rows @ [r])"
    using s rate IH by (auto simp: scan_row_def dict_simps split: if_splits)
  moreover have "dict_get_or 0 (dict_get_or [] (label_split s) l) sp = cells_count (rows @ [r]) l sp" for l sp
    using s rate IH by (auto simp: scan_row_def dict_simps bump_def cells_count_def)
  ultimately show ?case
    using s rate IH by (auto simp: scan_row_def row_errors_def)
qed

lemma check_entries_Inr:
  assumes "fold_result (check_entry ls rs) entries errs = Inr errs'"
  shows "errs' = errs @ concat (map (\<lambda>e. if cell e ''included'' = Some ''1''
    then experiment_errors ls rs (cell e ''experiment_id'') (cell e ''primary_label'') else []) entries)"
  using assms
proof (induction entries arbitrary: errs)
  case (Cons e entries)
  obtain errs1 where 1: "check_entry ls rs e errs = Inr errs1"
    and 2: "fold_result (check_entry ls rs) entries errs1 = Inr errs'"
    using Cons.prems by (auto simp: bind_result_Inr)
  have "errs1 = errs @ (if cell e ''included'' = Some ''1''
      then experiment_errors ls rs (cell e ''experiment_id'') (cell e ''primary_label'') else [])"
    using 1 by (auto simp: bind_result_Inr check_entry_def row_index_Inr cell_def split: if_splits)
  then show ?case using Cons.IH [OF 2] by simp
qed simp

lemma check_dataset_Inr:
  assumes "check_dataset w idx = Inr f"
  obtains s cov where "scan_rows w = Inr s" and "coverage_warnings (label_split s) = Inr cov"
    and "f_errors f = concat (map row_errors w) @ concat (map (\<lambda>e. if cell e ''included'' = Some ''1''
      then experiment_errors (label_by_experiment w) (recovery_by_experiment w)
        (cell e ''experiment_id'') (cell e ''primary_label'') else []) idx)"
    and "f_warnings f = concat (map backend_warnings w) @ cov"
    and "f_label_split f = label_split s"
    and "f_labels f = map (\<lambda>r. cell r ''label'') w" and "f_splits f = map (\<lambda>r. cell r ''split'') w"
    and "f_nodes f = map (\<lambda>r. cell r ''node_name'') w"
    and "f_experiments f = map (\<lambda>r. cell r ''experiment_id'') w"
proof -
  have col: "xs = map (\<lambda>r. cell r k) w" if "column w k = Inr xs" for k xs
    using that unfolding column_def map_result_Inr
    by (auto simp: row_index_Inr cell_def list_all2_conv_all_nth intro!: nth_equalityI)
  obtain s errs cov where s: "scan_rows w = Inr s" and "coverage_warnings (label_split s) = Inr cov"
    and "fold_result (check_entry (label_by_experiment w) (recovery_by_experiment w)) idx (errors s) = Inr errs"
    and "f = \<lparr>f_labels = map (\<lambda>r. cell r ''label'') w, f_splits = map (\<lambda>r. cell r ''split'') w,
      f_nodes = map (\<lambda>r. cell r ''node_name'') w, f_experiments = map (\<lambda>r. cell r ''experiment_id'') w,
      f_scenarios = map scenario_cell w, f_label_split = label_split s, f_errors = errs,
      f_warnings = warnings s @ cov\<rparr>"
    using assms by (auto simp: check_dataset_def bind_result_Inr dest!: col)
  with check_entries_Inr [OF this(3)] scan_rows_Inr [OF s] show thesis by (auto intro!: that)
qed

lemma experiment_errors_Nil:
  "experiment_errors (label_by_experiment w) (recovery_by_experiment w) i l = [] \<longleftrightarrow>
     l = Some ''normal'' \<or>
     ((\<exists>r \<in> set w. cell r ''experiment_id'' = i \<and> cell r ''label'' = l) \<and>
      (\<exists>r \<in> set w. cell r ''experiment_id'' = i \<and> row_get r ''recovery_active'' = Some (Some ''1'')))"
proof (cases "l = Some ''normal''")
  case True
  then show ?thesis by (simp add: experiment_errors_def)
next
  case False
  have "l \<in> set (dict_get_or [] (label_by_experiment w) i) \<longleftrightarrow>
      (\<exists>r \<in> set w. cell r ''experiment_id'' = i \<and> cell r ''label'' = l)"
    using False by (auto simp: label_by_experiment_def dict_get_or_def dict_get_group_by)
  moreover have "dict_get_or 0 (recovery_by_experiment w) i = 0 \<longleftrightarrow>
      \<not> (\<exists>r \<in> set w. cell r ''experiment_id'' = i \<and> row_get r ''recovery_active'' = Some (Some ''1''))"
    by (auto simp: recovery_by_experiment_def dict_get_or_def dict_get_counter count_list_0_iff)
  ultimately show ?thesis using False by (auto simp: experiment_errors_def)
qed

section \<open>Outcomes of the script\<close>

lemma report_main_Inr:
  assumes "report_main dir now w idx sp old = (out, Inr ())"
  obtains f members where "check_dataset (dict_reader w) (dict_reader idx) = Inr f"
    and "quality_md out = Some (quality_file now f)"
    and "manifest_json out = Some (JObj members)"
    and "dict_get members ''row_count'' = Some (JInt (int (length (dict_reader w))))"
    and "dict_get members ''quality_error_count'' = Some (JInt (int (length (f_errors f))))"
    and "dict_get members ''quality_warning_count'' = Some (JInt (int (length (f_warnings f))))"
    and "dict_get members ''label_distribution'' = Some (distribution (sort_key fst (counter (f_labels f))))"
    and "dict_get members ''split_distribution'' = Some (distribution (sort_key fst (counter (f_splits f))))"
proof -
  obtain splits f old' m where f: "check_dataset (dict_reader w) (dict_reader idx) = Inr f"
    and m: "update_manifest dir now f old' = Inr m"
    and out: "quality_md out = Some (quality_file now f)" "manifest_json out = Some m"
    using assms
    by (auto simp: report_main_def Let_def bind_result_Inr split: if_splits sum.splits prod.splits)
  have "f_labels f = map (\<lambda>r. cell r ''label'') (dict_reader w)" using f by (auto elim: check_dataset_Inr)
  then have len: "length (f_labels f) = length (dict_reader w)" by simp
  obtain old_members where old: "(case old' of None \<Rightarrow> JObj [] | Some j \<Rightarrow> j) = JObj old_members"
    using m by (auto simp: update_manifest_def split: json.splits)
  show thesis
    using m out f len old
    by (auto simp: update_manifest_def bind_result_Inr sorted_items_def dict_update_def dict_simps
        split: if_splits intro!: that)
qed

definition window_clean :: "row \<Rightarrow> bool" where
  "window_clean r \<longleftrightarrow>
     as_int (row_get_or ''0'' r ''window_start_unix_ms'') < as_int (row_get_or ''0'' r ''window_end_unix_ms'') \<and>
     \<not> dlt (projr (success_rate r)) (Fin 0) \<and> \<not> dlt (Fin 1) (projr (success_rate r)) \<and>
     list_all (\<lambda>field. 0 \<le> as_int (row_get_or ''0'' r field)) DELTA_FIELDS"

definition entry_clean :: "row list \<Rightarrow> row \<Rightarrow> bool" where
  "entry_clean w e \<longleftrightarrow> cell e ''included'' \<noteq> Some ''1'' \<or> cell e ''primary_label'' = Some ''normal'' \<or>
     (list_ex (\<lambda>r. cell r ''experiment_id'' = cell e ''experiment_id'' \<and>
        cell r ''label'' = cell e ''primary_label'') w \<and>
      list_ex (\<lambda>r. cell r ''experiment_id'' = cell e ''experiment_id'' \<and>
        row_get r ''recovery_active'' = Some (Some ''1'')) w)"

lemma row_errors_Nil: "row_errors r = [] \<longleftrightarrow> window_clean r"
  by (auto simp: row_errors_def bounds_errors_def rate_errors_def delta_errors_def window_clean_def
      Let_def filter_empty_conv list_all_iff not_less)

lemma entry_errors_Nil:
  "(if cell e ''included'' = Some ''1'' then experiment_errors (label_by_experiment w) (recovery_by_experiment w)
      (cell e ''experiment_id'') (cell e ''primary_label'') else []) = [] \<longleftrightarrow> entry_clean w e"
  by (auto simp: experiment_errors_Nil entry_clean_def list_ex_iff)

lemma concat_map_Nil: "concat (map g xs) = [] \<longleftrightarrow> list_all (\<lambda>x. g x = []) xs"
  by (induction xs) simp_all

lemma f_errors_Nil:
  assumes "check_dataset w idx = Inr f"
  shows "f_errors f = [] \<longleftrightarrow> list_all window_clean w \<and> list_all (entry_clean w) idx"
  using assms
proof (rule check_dataset_Inr)
  assume "f_errors f = concat (map row_errors w) @ concat (map (\<lambda>e. if cell e ''included'' = Some ''1''
      then experiment_errors (label_by_experiment w) (recovery_by_experiment w)
        (cell e ''experiment_id'') (cell e ''primary_label'') else []) idx)"
  then show ?thesis
    by (simp only: append_is_Nil_conv concat_map_Nil row_errors_Nil entry_errors_Nil)
qed

definition demo_table :: csv where
  "demo_table =
     [[''experiment_id'', ''node_name'', ''label'', ''split'', ''window_start_unix_ms'',
       ''window_end_unix_ms'', ''recovery_active'', ''delta_tcp_packets''],
      [''e'', ''n'', ''x'', ''train'', ''1'', ''2'', ''1'', ''-1''],
      [''e'', ''n'', ''normal'', ''train'', ''2'', ''3'', ''0'', ''7'']]"

definition demo_index :: csv where
  "demo_index = [[''experiment_id'', ''primary_label'', ''included''], [''e'', ''x'', ''1''], [''f'', ''y'', ''0'']]"

definition demo_splits :: splits_file where
  "demo_splits = Some [(''e'', [(''split'', Some ''train''), (''primary_label'', Some ''x''), (''scenario'', None)])]"

lemma demo_report:
  obtains out ls where "report_main [] [] demo_table demo_index (Inr demo_splits) None = (out, Inr ())"
    and "quality_md out = Some ls"
proof -
  have "snd (report_main [] [] demo_table demo_index (Inr demo_splits) None) = Inr ()" by code_simp
  then obtain out where run: "report_main [] [] demo_table demo_index (Inr demo_splits) None = (out, Inr ())"
    by (metis prod.collapse)
  from this report_main_Inr [OF run] that show thesis by blast
qed

section \<open>Properties\<close>

text \<open>C37: a finished quality report states zero errors exactly when every window ends after it starts,
  has a success rate not below 0 and not above 1, and no negative delta, and every included
  experiment whose primary label is not \<open>normal\<close> has a window with that label and a window in
  recovery.\<close>

theorem report_error_free_iff:
  assumes "report_main dir now w idx sp old = (out, Inr ())" and "quality_md out = Some ls"
  shows "Error_Total 0 \<in> set ls \<longleftrightarrow>
    list_all window_clean (dict_reader w) \<and> list_all (entry_clean (dict_reader w)) (dict_reader idx)"
proof -
  obtain f where f: "check_dataset (dict_reader w) (dict_reader idx) = Inr f" and ls: "ls = quality_file now f"
    using assms by (auto elim!: report_main_Inr)
  have "Error_Total 0 \<in> set ls \<longleftrightarrow> f_errors f = []"
    by (auto simp: ls quality_file_def warning_lines_def passed_items_def)
  then show ?thesis by (simp add: f_errors_Nil [OF f])
qed

theorem report_error_free_iff_witness:
  "\<exists>out ls. report_main [] [] demo_table demo_index (Inr demo_splits) None = (out, Inr ()) \<and>
     quality_md out = Some ls \<and> Error_Total 0 \<notin> set ls"
proof -
  obtain out ls where run: "report_main [] [] demo_table demo_index (Inr demo_splits) None = (out, Inr ())"
    "quality_md out = Some ls" by (rule demo_report)
  have "\<not> list_all window_clean (dict_reader demo_table)" by code_simp
  then show ?thesis using report_error_free_iff [OF run] run by blast
qed

lemma distribution_sum:
  "distribution items = JObj ms \<Longrightarrow> sum_list (map (\<lambda>(_, j). case j of JInt n \<Rightarrow> n | _ \<Rightarrow> 0) ms) =
     int (sum_list (map snd items))"
  by (induction items arbitrary: ms) (auto simp: distribution_def)

lemma sum_sorted_counter: "sum_list (map snd (sort_key fst (counter xs))) = length xs"
  by (metis mset_map mset_sort sum_counter sum_mset_sum_list)

text \<open>The report and the manifest agree: the manifest's error and warning counts are the totals
  the quality report states, the report lists every error, and the label and the split distribution
  each add up to the number of windows.\<close>

theorem report_counts_agree:
  assumes "report_main dir now w idx sp old = (out, Inr ())" and "quality_md out = Some ls"
  shows "\<exists>ms n k labels splits. manifest_json out = Some (JObj ms) \<and>
    dict_get ms ''row_count'' = Some (JInt (int (length (dict_reader w)))) \<and>
    dict_get ms ''quality_error_count'' = Some (JInt (int n)) \<and> Error_Total n \<in> set ls \<and>
    n = length (filter (\<lambda>l. case l of Error_Item _ \<Rightarrow> True | _ \<Rightarrow> False) ls) \<and>
    dict_get ms ''quality_warning_count'' = Some (JInt (int k)) \<and> Warning_Total k \<in> set ls \<and>
    dict_get ms ''label_distribution'' = Some (JObj labels) \<and>
    sum_list (map (\<lambda>(_, j). case j of JInt n \<Rightarrow> n | _ \<Rightarrow> 0) labels) = int (length (dict_reader w)) \<and>
    dict_get ms ''split_distribution'' = Some (JObj splits) \<and>
    sum_list (map (\<lambda>(_, j). case j of JInt n \<Rightarrow> n | _ \<Rightarrow> 0) splits) = int (length (dict_reader w))"
  using assms(1)
proof (rule report_main_Inr)
  fix f ms
  assume f: "check_dataset (dict_reader w) (dict_reader idx) = Inr f"
    and q: "quality_md out = Some (quality_file now f)" and m: "manifest_json out = Some (JObj ms)"
    and counts: "dict_get ms ''row_count'' = Some (JInt (int (length (dict_reader w))))"
      "dict_get ms ''quality_error_count'' = Some (JInt (int (length (f_errors f))))"
      "dict_get ms ''quality_warning_count'' = Some (JInt (int (length (f_warnings f))))"
    and dist: "dict_get ms ''label_distribution'' = Some (distribution (sort_key fst (counter (f_labels f))))"
      "dict_get ms ''split_distribution'' = Some (distribution (sort_key fst (counter (f_splits f))))"
  have ls: "ls = quality_file now f" using q assms(2) by simp
  have cols: "f_labels f = map (\<lambda>r. cell r ''label'') (dict_reader w)"
    "f_splits f = map (\<lambda>r. cell r ''split'') (dict_reader w)" using f by (auto elim: check_dataset_Inr)
  obtain labels splits where ls': "distribution (sort_key fst (counter (f_labels f))) = JObj labels"
    "distribution (sort_key fst (counter (f_splits f))) = JObj splits" by (simp add: distribution_def)
  have "length (filter (\<lambda>l. case l of Error_Item _ \<Rightarrow> True | _ \<Rightarrow> False) ls) = length (f_errors f)"
    by (simp add: ls quality_file_def warning_lines_def passed_items_def filter_map comp_def)
  moreover have "Error_Total (length (f_errors f)) \<in> set ls" "Warning_Total (length (f_warnings f)) \<in> set ls"
    by (simp_all add: ls quality_file_def)
  ultimately show ?thesis
    using m counts dist [unfolded ls'] distribution_sum [OF ls'(1)] distribution_sum [OF ls'(2)]
    by (simp add: sum_sorted_counter cols)
qed

theorem report_counts_agree_witness:
  "\<exists>out ms. report_main [] [] demo_table demo_index (Inr demo_splits) None = (out, Inr ()) \<and>
     manifest_json out = Some (JObj ms) \<and> dict_get ms ''row_count'' = Some (JInt 2)"
proof -
  obtain out ls where run: "report_main [] [] demo_table demo_index (Inr demo_splits) None = (out, Inr ())"
    "quality_md out = Some ls" by (rule demo_report)
  have "length (dict_reader demo_table) = 2" by code_simp
  then show ?thesis using report_counts_agree [OF run] run by auto
qed

text \<open>The list of passed checks is printed whatever the checks found: here a window has a negative
  delta, which the report lists as an error, and the same report certifies that no delta is
  negative.\<close>

theorem report_passes_despite_errors:
  "\<exists>out ls. report_main [] [] demo_table demo_index (Inr demo_splits) None = (out, Inr ()) \<and>
     quality_md out = Some ls \<and> Passed No_Negative_Delta \<in> set ls \<and>
     Error_Item (Negative_Delta (Some ''e'') (Some ''n'') ''delta_tcp_packets'') \<in> set ls"
proof -
  obtain out ls where run: "report_main [] [] demo_table demo_index (Inr demo_splits) None = (out, Inr ())"
    "quality_md out = Some ls" by (rule demo_report)
  then obtain f where f: "check_dataset (dict_reader demo_table) (dict_reader demo_index) = Inr f"
    and ls: "ls = quality_file [] f" by (auto elim!: report_main_Inr)
  have "\<exists>r \<in> set (dict_reader demo_table).
      Negative_Delta (Some ''e'') (Some ''n'') ''delta_tcp_packets'' \<in> set (delta_errors r)" by code_simp
  then have "Negative_Delta (Some ''e'') (Some ''n'') ''delta_tcp_packets'' \<in> set (f_errors f)"
    using f by (auto elim!: check_dataset_Inr simp: row_errors_def)
  then show ?thesis using run by (auto simp: ls quality_file_def passed_items_def)
qed

lemma coverage_warnings_set:
  assumes s: "scan_rows w = Inr s" and cov: "coverage_warnings (label_split s) = Inr cov"
  shows "No_Coverage l sp \<in> set cov \<longleftrightarrow> l \<noteq> Some ''normal'' \<and> (\<exists>r \<in> set w. cell r ''label'' = l) \<and>
    sp \<in> {''test'', ''val''} \<and> cells_count w l (Some sp) = 0"
proof -
  note facts = scan_rows_Inr [OF s]
  have wf: "dict_wf (label_split s)"
    using s
  proof (induction w arbitrary: s rule: rev_induct)
    case (snoc r w)
    then obtain s0 where s0: "scan_rows w = Inr s0" and step: "scan_row r s0 = Inr s"
      by (auto simp: scan_rows_def fold_result_append bind_result_Inr)
    then show ?case
      using snoc.IH [OF s0] by (auto simp: scan_row_def bind_result_Inr intro: dict_wf_set)
  qed (simp add: scan_rows_def dict_simps)
  have items: "(l, c) \<in> set (label_split s) \<longleftrightarrow>
      l \<in> set (dict_keys (label_split s)) \<and> c = dict_get_or [] (label_split s) l" for c
  proof -
    have "(l, c) \<in> set (label_split s) \<longleftrightarrow> dict_get (label_split s) l = Some c"
      using wf by (simp add: dict_get_def dict_wf_def)
    then show ?thesis by (auto simp: dict_get_or_def dict_keys_get split: option.splits)
  qed
  have "set cov = (\<Union>item \<in> set (label_split s). set (label_warnings item))"
    using cov by (auto simp: coverage_warnings_def split: if_splits)
  moreover have "l' = l" if "No_Coverage l sp \<in> set (label_warnings (l', c))" for l' c
    using that by (auto simp: label_warnings_def split: if_splits)
  ultimately have "No_Coverage l sp \<in> set cov \<longleftrightarrow>
      (\<exists>c. (l, c) \<in> set (label_split s) \<and> No_Coverage l sp \<in> set (label_warnings (l, c)))"
    by (metis (no_types, lifting) UN_iff surj_pair)
  also have "\<dots> \<longleftrightarrow> l \<in> set (dict_keys (label_split s)) \<and>
      No_Coverage l sp \<in> set (label_warnings (l, dict_get_or [] (label_split s) l))"
    by (simp add: items)
  finally show ?thesis
    using facts by (auto simp: label_warnings_def image_iff)
qed

text \<open>A coverage warning is raised for a label and a split exactly when the label is not
  \<open>normal\<close>, occurs in the windows, the split is \<open>test\<close> or \<open>val\<close>, and no window with that label is
  in that split.\<close>

theorem report_coverage_warning_iff:
  assumes "check_dataset w idx = Inr f"
  shows "No_Coverage l sp \<in> set (f_warnings f) \<longleftrightarrow>
    l \<noteq> Some ''normal'' \<and> (\<exists>r \<in> set w. cell r ''label'' = l) \<and> sp \<in> {''test'', ''val''} \<and>
    (\<forall>r \<in> set w. cell r ''label'' = l \<longrightarrow> cell r ''split'' \<noteq> Some sp)"
  using assms
proof (rule check_dataset_Inr)
  fix s cov
  assume s: "scan_rows w = Inr s" and cov: "coverage_warnings (label_split s) = Inr cov"
    and f: "f_warnings f = concat (map backend_warnings w) @ cov"
  have "No_Coverage l sp \<notin> set (concat (map backend_warnings w))"
    by (auto simp: backend_warnings_def)
  moreover have "cells_count w l (Some sp) = 0 \<longleftrightarrow> (\<forall>r \<in> set w. cell r ''label'' = l \<longrightarrow> cell r ''split'' \<noteq> Some sp)"
    by (auto simp: cells_count_def filter_empty_conv)
  ultimately show ?thesis using coverage_warnings_set [OF s cov] by (simp add: f)
qed

theorem report_coverage_warning_witness:
  "\<exists>f. check_dataset (dict_reader demo_table) (dict_reader demo_index) = Inr f \<and>
     No_Coverage (Some ''x'') ''test'' \<in> set (f_warnings f)"
proof -
  obtain out ls where "report_main [] [] demo_table demo_index (Inr demo_splits) None = (out, Inr ())"
    by (rule demo_report)
  then obtain f where f: "check_dataset (dict_reader demo_table) (dict_reader demo_index) = Inr f"
    by (auto elim!: report_main_Inr)
  have "(\<exists>r \<in> set (dict_reader demo_table). cell r ''label'' = Some ''x'') \<and>
      (\<forall>r \<in> set (dict_reader demo_table). cell r ''label'' = Some ''x'' \<longrightarrow> cell r ''split'' \<noteq> Some ''test'')"
    by code_simp
  then show ?thesis using f report_coverage_warning_iff [OF f, of "Some ''x''" "''test''"] by auto
qed

text \<open>C38: a success rate that is neither empty nor a number is not reported but ends the script with
  \<open>ValueError\<close> before any file is written.\<close>

theorem report_bad_rate_raises:
  assumes "list_all (row_fits h) (dict_reader w)"
    and "set [''label'', ''split'', ''node_name'', ''experiment_id''] \<subseteq> set h"
    and "\<exists>r \<in> set (dict_reader w). \<exists>s. row_get r ''traffic_probe_success_rate'' = Some (Some s) \<and> s \<noteq> [] \<and> py_float s = None"
  shows "report_main dir now w idx (Inr sp) old =
    (\<lparr>summary_md = None, quality_md = None, manifest_json = None\<rparr>, Inl ValueError)"
proof -
  let ?w = "dict_reader w"
  have col: "\<exists>xs. column ?w k = Inr xs" if "k \<in> set h" for k
    unfolding column_def
  proof (rule map_result_exists)
    fix r assume "r \<in> set ?w"
    then have "row_fits h r" using assms(1) by (simp add: list_all_iff)
    then show "\<exists>y. row_index r k = Inr y" using that by (auto simp: row_index_Inr elim: row_fits_get)
  qed
  obtain c1 c2 c3 c4 where "column ?w ''label'' = Inr c1" "column ?w ''split'' = Inr c2"
    "column ?w ''node_name'' = Inr c3" "column ?w ''experiment_id'' = Inr c4"
    using assms(2) col [of "''label''"] col [of "''split''"] col [of "''node_name''"] col [of "''experiment_id''"]
    by auto
  moreover have "scan_rows ?w = Inl ValueError"
  proof (cases "scan_rows ?w")
    case (Inl e)
    have "e = ValueError" if "fold_result scan_row rows s = Inl e" for rows s
      using that
    proof (induction rows arbitrary: s)
      case (Cons r rows)
      then show ?case
        by (cases "success_rate r") (auto simp: scan_row_def success_rate_def split: option.splits if_splits)
    qed simp
    then show ?thesis using Inl by (simp add: scan_rows_def)
  next
    case (Inr s)
    then have "\<forall>r \<in> set ?w. \<exists>x. success_rate r = Inr x" using scan_rows_Inr by blast
    then show ?thesis using assms(3) by (fastforce simp: success_rate_def row_get_or_def)
  qed
  moreover have "?w \<noteq> []" using assms(3) by auto
  ultimately show ?thesis
    by (simp add: report_main_def check_dataset_def)
qed

theorem report_bad_rate_raises_witness:
  "snd (report_main [] []
     [[''label'', ''split'', ''node_name'', ''experiment_id'', ''traffic_probe_success_rate''],
      [''x'', ''train'', ''n'', ''e'', ''bad'']] [] (Inr None) None) = Inl ValueError"
proof -
  let ?h = "[''label'', ''split'', ''node_name'', ''experiment_id'', ''traffic_probe_success_rate'']"
  let ?w = "[?h, [''x'', ''train'', ''n'', ''e'', ''bad'']]"
  have fits: "list_all (row_fits ?h) (dict_reader ?w)" by code_simp
  have rate: "row_get (hd (dict_reader ?w)) ''traffic_probe_success_rate'' = Some (Some ''bad'')"
    and ne: "dict_reader ?w \<noteq> []" by code_simp+
  have "py_float ''bad'' = None" by code_simp
  then show ?thesis
    using report_bad_rate_raises [OF fits, of "[]" "[]" "[]" None None] rate hd_in_set [OF ne] by fastforce
qed

text \<open>At most twenty warnings are listed; when there are more, the report says how many are left
  out, and the listed ones are the first in the order of the checks.\<close>

theorem report_warnings_truncated:
  "filter (\<lambda>l. case l of Warning_Item _ \<Rightarrow> True | _ \<Rightarrow> False) (quality_file now f) =
     map Warning_Item (take 20 (f_warnings f)) \<and>
   (More_Warnings k \<in> set (quality_file now f) \<longleftrightarrow>
     20 < length (f_warnings f) \<and> k = length (f_warnings f) - 20) \<and>
   (No_Warnings \<in> set (quality_file now f) \<longleftrightarrow> f_warnings f = [])"
proof -
  have "filter (\<lambda>l. case l of Warning_Item _ \<Rightarrow> True | _ \<Rightarrow> False) (map Error_Item es) = []" for es
    by (simp add: filter_empty_conv)
  moreover have "filter (\<lambda>l. case l of Warning_Item _ \<Rightarrow> True | _ \<Rightarrow> False) (map Warning_Item ws) = map Warning_Item ws" for ws
    by (simp add: filter_map comp_def)
  ultimately show ?thesis
    by (auto simp: quality_file_def warning_lines_def passed_items_def)
qed

end
