(* ===== verification/Pipeline.thy ===== *)
theory Pipeline
  imports Dataset_Build Dataset_Split Dataset_Report
begin

text \<open>
  The three scripts of phase 3 one after the other: what the builder writes is what the splitter
  reads, and the checks of the report look at what the splitter wrote.
\<close>

section \<open>What the builder leaves for the splitter\<close>

text \<open>The windows of the included experiments, in the order of the file.\<close>

definition built_windows ::
  "loader \<Rightarrow> build_args \<Rightarrow> selection \<Rightarrow> (string \<Rightarrow> artifact) \<Rightarrow> row list" where
  "built_windows loads args sel arts = sort_key window_key_of
     (concat (map (experiment_windows loads (artifacts_dir args) arts)
       (filter (is_included (set (exclude_ids_of args sel)) arts) (include_ids_of args sel))))"

text \<open>An experiment whose files fit: telemetry under the header \<open>h\<close>, a scenario, and a probe log whose
  length a float can count.\<close>

definition experiment_fits :: "loader \<Rightarrow> string list \<Rightarrow> artifact \<Rightarrow> bool" where
  "experiment_fits loads h a \<longleftrightarrow> telemetry_ok h a \<and> scenario_of (loaded_of loads a) \<noteq> None \<and>
     (case traffic_csv a of None \<Rightarrow> True | Some f \<Rightarrow> length (dict_reader f) \<le> 2 ^ 53)"

lemma built_window_cases:
  assumes "r \<in> set (built_windows loads args sel arts)"
    and fit: "\<forall>x \<in> set (include_ids_of args sel). is_included (set (exclude_ids_of args sel)) arts x \<longrightarrow> experiment_fits loads h (arts x)"
  obtains x r0 where "r = derive_row (path_join (artifacts_dir args) x) (loaded_of loads (arts x)) r0" and "row_fits h r0"
    and "experiment_fits loads h (arts x)"
proof -
  obtain x where x: "x \<in> set (include_ids_of args sel)" "is_included (set (exclude_ids_of args sel)) arts x"
    and r: "r \<in> set (experiment_windows loads (artifacts_dir args) arts x)"
    using assms(1) by (auto simp: built_windows_def)
  have f: "experiment_fits loads h (arts x)" using fit x by blast
  then have "telemetry_ok h (arts x)" by (simp add: experiment_fits_def)
  from experiment_windows_fit [OF this r] f that show thesis by metis
qed

lemma built_windows_input:
  assumes fit: "\<forall>x \<in> set (include_ids_of args sel). is_included (set (exclude_ids_of args sel)) arts x \<longrightarrow> experiment_fits loads h (arts x)"
    and h: "set h \<inter> set DERIVED_FIELDS = {}" "''experiment_id'' \<in> set h"
    and ne: "built_windows loads args sel arts \<noteq> []"
  shows "split_input (h @ DERIVED_FIELDS) (built_windows loads args sel arts)"
proof -
  have "row_fits (h @ DERIVED_FIELDS) r" if r: "r \<in> set (built_windows loads args sel arts)" for r
  proof (rule built_window_cases [OF r fit])
    fix x r0
    assume "r = derive_row (path_join (artifacts_dir args) x) (loaded_of loads (arts x)) r0" and "row_fits h r0"
      and "experiment_fits loads h (arts x)"
    then show ?thesis using row_fits_derive_row [OF _ h(1)] by (simp add: experiment_fits_def)
  qed
  then show ?thesis using ne h(2) by (simp add: split_input_def list_all_iff DERIVED_FIELDS_def)
qed

section \<open>The success rate on its way to the report\<close>

lemma loaded_rate:
  assumes "experiment_fits loads h a"
  shows "\<exists>q. probe_rate (l_traffic (loaded_of loads a)) = fmt_fixed 6 (Fin q) \<and> 0 \<le> q \<and> q \<le> 1"
proof -
  have none: "probe_rate no_traffic = fmt_fixed 6 (Fin 0)"
    by (simp add: no_traffic_def float_eval print_eval eval_nat_numeral)
  have log: "\<exists>q. probe_rate t = fmt_fixed 6 (Fin q) \<and> 0 \<le> q \<and> q \<le> 1"
    if "load_traffic_stats f = Inr t" "length (dict_reader f) \<le> 2 ^ 53" for f t
  proof (cases "dict_reader f = []")
    case True
    with that(1) show ?thesis by (intro exI [of _ 0]) (auto simp: load_traffic_stats_def)
  next
    case False
    note ratio = count_ratio_unit [of "length (filter probe_ok (dict_reader f))" "length (dict_reader f)"]
    from False that ratio show ?thesis by (auto simp: load_traffic_stats_def Let_def)
  qed
  show ?thesis
  proof (cases "load_experiment loads a")
    case (Inl e)
    then show ?thesis using none by (intro exI [of _ 0]) (simp add: loaded_of_def)
  next
    case (Inr l)
    then have "(case traffic_csv a of Some f \<Rightarrow> load_traffic_stats f | None \<Rightarrow> Inr no_traffic) = Inr (l_traffic l)"
      by (auto simp: load_experiment_def bind_result_Inr)
    then show ?thesis
      using Inr none log assms by (cases "traffic_csv a") (auto simp: loaded_of_def experiment_fits_def)
  qed
qed

lemma printed_rate_accepted:
  assumes "0 \<le> q" and "q \<le> 1" and "row_get r ''traffic_probe_success_rate'' = Some (Some (fmt_fixed 6 (Fin q)))"
  shows "\<exists>p. success_rate r = Inr (Fin p) \<and> 0 \<le> p \<and> p \<le> 1 \<and> rate_errors r (Fin p) = []"
proof -
  let ?k = "round_half_even (q * 10 ^ 6)" and ?u = "of_int (round_half_even (q * 10 ^ 6)) / 10 ^ 6 :: rat"
  have k: "0 \<le> ?k" "?k \<le> 10 ^ 6"
    using assms(1,2) by (intro round_half_even_ge round_half_even_le; simp)+
  then have u: "0 \<le> ?u" "?u \<le> 1" by (simp_all add: divide_le_eq_1)
  then have "rnd ?u = Fin (fl ?u)" by (intro rnd_small) simp_all
  then obtain p where p: "py_float (fmt_fixed 6 (Fin q)) = Some (Fin p)" "0 \<le> p" "p \<le> 1"
    using py_float_fmt [OF assms(1), of 6] binary64.nonneg [OF u(1)] binary64.le_one [OF u(2)] by (cases "?k = 0") auto
  have "length (fmt_fixed 6 (Fin q)) = 8" using length_fmt_ratio [OF assms(1,2), of 6] by simp
  then have "fmt_fixed 6 (Fin q) \<noteq> []" by auto
  then have "success_rate r = Inr (Fin p)"
    using p(1) by (simp add: success_rate_def row_get_or_def assms(3))
  then show ?thesis using p(2,3) by (simp add: rate_errors_def)
qed

lemma built_rate_accepted:
  assumes "r \<in> set (built_windows loads args sel arts)"
    and "\<forall>x \<in> set (include_ids_of args sel). is_included (set (exclude_ids_of args sel)) arts x \<longrightarrow> experiment_fits loads h (arts x)"
  shows "\<exists>p. success_rate (set_field ''split'' s r) = Inr (Fin p) \<and> 0 \<le> p \<and> p \<le> 1 \<and>
    rate_errors (set_field ''split'' s r) (Fin p) = []"
proof (rule built_window_cases [OF assms])
  fix x r0
  assume r: "r = derive_row (path_join (artifacts_dir args) x) (loaded_of loads (arts x)) r0"
    and "experiment_fits loads h (arts x)"
  from loaded_rate [OF this(2)] obtain q where q: "probe_rate (l_traffic (loaded_of loads (arts x))) = fmt_fixed 6 (Fin q)"
    "0 \<le> q" "q \<le> 1" by blast
  have "row_get (set_field ''split'' s r) ''traffic_probe_success_rate'' = Some (Some (fmt_fixed 6 (Fin q)))"
    by (simp add: r derive_row_def dict_simps q(1))
  from printed_rate_accepted [OF q(2,3) this] show ?thesis .
qed

section \<open>The files between the scripts\<close>

lemma built_file:
  assumes sel: "load_experiment_selection (selection_file args) sel_file = Inr sel"
    and loads: "\<forall>x \<in> set (include_ids_of args sel). loads_ok loads (arts x)"
    and fit: "\<forall>x \<in> set (include_ids_of args sel). is_included (set (exclude_ids_of args sel)) arts x \<longrightarrow> experiment_fits loads h (arts x)"
    and h: "set h \<inter> set DERIVED_FIELDS = {}" "''experiment_id'' \<in> set h"
    and ne: "built_windows loads args sel arts \<noteq> []"
  shows "\<exists>out f. build_main loads args sel_file arts now = (out, Inr ()) \<and> windows_all out = Some f \<and>
    dict_reader f = built_windows loads args sel arts"
proof -
  let ?wins = "built_windows loads args sel arts"
  have ok: "list_all (\<lambda>x. loads_ok loads (arts x) \<and>
      (is_included (set (exclude_ids_of args sel)) arts x \<longrightarrow> telemetry_ok h (arts x))) (include_ids_of args sel)"
    using loads fit by (auto simp: list_all_iff experiment_fits_def)
  obtain x where x: "x \<in> set (include_ids_of args sel)" "is_included (set (exclude_ids_of args sel)) arts x" "node_csvs (arts x) \<noteq> []"
  proof -
    obtain r where "r \<in> set ?wins" using ne by (cases ?wins) auto
    then obtain x where "x \<in> set (include_ids_of args sel)" "is_included (set (exclude_ids_of args sel)) arts x"
      "r \<in> set (experiment_windows loads (artifacts_dir args) arts x)"
      by (auto simp: built_windows_def)
    then show thesis by (intro that [of x]) (auto simp: experiment_windows_def)
  qed
  obtain out where run: "build_main loads args sel_file arts now = (out, Inr ())"
    using build_main_ok [OF sel ok x h(2)] by blast
  from sel run show ?thesis
  proof (rule build_main_Inr)
    fix s :: build_state
    assume s: "build_collect loads (artifacts_dir args) (set (exclude_ids_of args sel)) arts (include_ids_of args sel) = Inr s"
      and f: "dict_write (canonical_header s @ DERIVED_FIELDS) (sort_key window_key_of (window_rows s)) =
        (the (windows_all out), Inr ())" "windows_all out \<noteq> None"
    have "canonical_header s = h"
      using fold_build_ok [OF ok, of "\<lparr>index_rows = [], window_rows = [], canonical_header = []\<rparr>" "artifacts_dir args"]
        s [unfolded build_collect_def] x
      by (simp only: if_True simp_thms) auto
    then have "windows_all out = Some ((h @ DERIVED_FIELDS) # map (row_cells (h @ DERIVED_FIELDS)) ?wins)"
      using dict_write_Inr [OF f(1)] f(2) build_collect_rows [OF s] by (auto simp: built_windows_def)
    moreover have "list_all (row_fits (h @ DERIVED_FIELDS)) ?wins"
      using built_windows_input [OF fit h ne] by (simp add: split_input_def)
    then have "dict_reader ((h @ DERIVED_FIELDS) # map (row_cells (h @ DERIVED_FIELDS)) ?wins) = ?wins"
      using h(2) by (intro dict_reader_written) auto
    ultimately show ?thesis using run by blast
  qed
qed

lemma split_file_read:
  assumes "split_input h (dict_reader f)" and "split_main dir f = (out, Inr ())" and "splits_json out = Some m"
  shows "s \<in> set SPLITS \<Longrightarrow> \<exists>g. dict_get (csv_files out) (window_file s) = Some g \<and> dict_reader g = split_part (dict_reader f) s"
    and "\<exists>g. dict_get (csv_files out) ''windows_all.csv'' = Some g \<and> dict_reader g = reordered (dict_reader f)"
proof -
  let ?rows = "dict_reader f"
  obtain files where files: "csv_files out = map (\<lambda>(n, rs). (n, h # map (row_cells h) rs)) (split_files ?rows)"
    using split_main_ok [OF assms(1), of dir] assms(2) by auto
  have h: "h \<noteq> []" using assms(1) by (auto simp: split_input_def)
  have "dict_get (csv_files out) (window_file s) = Some (h # map (row_cells h) (split_part ?rows s))" if "s \<in> set SPLITS"
    using that unfolding files by (auto simp: split_files_def SPLITS_def window_file_def dict_get_def)
  then show "s \<in> set SPLITS \<Longrightarrow> \<exists>g. dict_get (csv_files out) (window_file s) = Some g \<and> dict_reader g = split_part ?rows s"
    using dict_reader_written [OF h split_part_fits [OF assms(1)]] by blast
  have "dict_get (csv_files out) ''windows_all.csv'' = Some (h # map (row_cells h) (reordered ?rows))"
    unfolding files by (simp add: split_files_def reordered_def dict_get_def)
  then show "\<exists>g. dict_get (csv_files out) ''windows_all.csv'' = Some g \<and> dict_reader g = reordered ?rows"
    using dict_reader_written [OF h reordered_fits [OF assms(1)]] by blast
qed

lemma three_parts:
  "\<forall>r \<in> set xs. f r \<in> {a, b, c} \<Longrightarrow> distinct [a, b, c] \<Longrightarrow>
     length (filter (\<lambda>r. f r = a) xs) + length (filter (\<lambda>r. f r = b) xs) + length (filter (\<lambda>r. f r = c) xs) = length xs"
  by (induction xs) auto

lemma length_reordered: "\<forall>r \<in> set rows. split_of rows (exp_of r) \<in> set SPLITS \<Longrightarrow> length (reordered rows) = length rows"
  using three_parts [of rows "\<lambda>r. split_of rows (exp_of r)" "''train''" "''val''" "''test''"]
  by (simp add: reordered_def split_part_def SPLITS_def)

section \<open>Properties\<close>

text \<open>C4: the splitter takes what the builder writes. When every selected experiment can be loaded, the
included ones have telemetry under one header with an \<open>experiment_id\<close> column, a scenario and a probe
log, and there is at least one window, building and then splitting ends without an error. The three
split files together hold exactly the built windows, each experiment's in one file and with that
split in the \<open>split\<close> column, in the builder's order; and the success rate of every window of the new
\<open>windows_all.csv\<close> is a number between 0 and 1 that the report reads and finds no fault with.\<close>

theorem build_then_split:
  assumes sel: "load_experiment_selection (selection_file args) sel_file = Inr sel"
    and loads: "\<forall>x \<in> set (include_ids_of args sel). loads_ok loads (arts x)"
    and fit: "\<forall>x \<in> set (include_ids_of args sel). is_included (set (exclude_ids_of args sel)) arts x \<longrightarrow> experiment_fits loads h (arts x)"
    and h: "set h \<inter> set DERIVED_FIELDS = {}" "''experiment_id'' \<in> set h"
    and ne: "built_windows loads args sel arts \<noteq> []"
  shows "\<exists>out f sout m g. build_main loads args sel_file arts now = (out, Inr ()) \<and> windows_all out = Some f \<and>
    split_main dir f = (sout, Inr ()) \<and> splits_json sout = Some m \<and>
    (\<forall>r \<in> set (built_windows loads args sel arts). \<exists>s \<in> set SPLITS. dict_get (assignments_of m) (exp_of r) = Some s) \<and>
    (\<forall>s \<in> set SPLITS. \<exists>p. dict_get (csv_files sout) (window_file s) = Some p \<and>
       dict_reader p = map (set_field ''split'' s)
         (filter (\<lambda>r. dict_get (assignments_of m) (exp_of r) = Some s) (built_windows loads args sel arts))) \<and>
    dict_get (csv_files sout) ''windows_all.csv'' = Some g \<and>
    length (dict_reader g) = length (built_windows loads args sel arts) \<and>
    (\<forall>r \<in> set (dict_reader g). \<exists>p. success_rate r = Inr (Fin p) \<and> 0 \<le> p \<and> p \<le> 1 \<and> rate_errors r (Fin p) = [])"
proof -
  let ?wins = "built_windows loads args sel arts"
  from built_file [OF assms, where now = now] obtain out f where build: "build_main loads args sel_file arts now = (out, Inr ())"
    "windows_all out = Some f" and f: "dict_reader f = ?wins" by (elim exE conjE)
  have input: "split_input (h @ DERIVED_FIELDS) (dict_reader f)"
    unfolding f by (rule built_windows_input [OF fit h ne])
  from split_main_ok [OF input, of dir] obtain sout m where split: "split_main dir f = (sout, Inr ())" "splits_json sout = Some m"
    by (elim exE conjE)
  note get = split_main_parts(1) [OF split, unfolded f] and read = split_file_read [OF input split, unfolded f]
  have some: "dict_get (assignments_of m) (exp_of r) = Some (split_of ?wins (exp_of r)) \<and> split_of ?wins (exp_of r) \<in> set SPLITS"
    if "r \<in> set ?wins" for r
    using that get split_of_in by blast
  have part: "split_part ?wins s = map (set_field ''split'' s)
      (filter (\<lambda>r. dict_get (assignments_of m) (exp_of r) = Some s) ?wins)" for s
    unfolding split_part_def using some by (intro arg_cong [where f = "map (set_field ''split'' s)"] filter_cong) auto
  from read(2) obtain g where g: "dict_get (csv_files sout) ''windows_all.csv'' = Some g" "dict_reader g = reordered ?wins"
    by (elim exE conjE)
  have "length (dict_reader g) = length ?wins" unfolding g(2) using some by (intro length_reordered) blast
  moreover have "\<forall>r \<in> set (dict_reader g). \<exists>p. success_rate r = Inr (Fin p) \<and> 0 \<le> p \<and> p \<le> 1 \<and> rate_errors r (Fin p) = []"
    unfolding g(2) using built_rate_accepted [OF _ fit] by (auto simp: reordered_def split_part_def)
  moreover have "\<forall>s \<in> set SPLITS. \<exists>p. dict_get (csv_files sout) (window_file s) = Some p \<and> dict_reader p =
      map (set_field ''split'' s) (filter (\<lambda>r. dict_get (assignments_of m) (exp_of r) = Some s) ?wins)"
    by (intro ballI read(1) [unfolded part])
  ultimately show ?thesis using build split some g(1) by blast
qed

subsection \<open>Witness\<close>

lemma demo_experiment_fits: "experiment_fits demo_loads demo_header demo_artifact"
proof -
  obtain l where l: "load_experiment demo_loads demo_artifact = Inr l"
    using demo_loaded by (auto simp: loads_ok_def split: sum.splits)
  then have "l_meta l = [(''scenario'', Some ''x''), (''label'', Some ''x'')]"
    by (auto simp: load_experiment_def demo_artifact_def demo_loads_def bind_result_Inr)
  then have "scenario_of (loaded_of demo_loads demo_artifact) = Some ''x''"
    by (simp add: loaded_of_def l scenario_of_def dict_get_or_def dict_get_def)
  then show ?thesis
    by (simp add: experiment_fits_def) (simp add: demo_artifact_def dict_reader_def)
qed

theorem build_then_split_witness:
  "\<exists>out f sout g. build_main demo_loads demo_args demo_selection (\<lambda>_. demo_artifact) [] = (out, Inr ()) \<and>
     windows_all out = Some f \<and> split_main [] f = (sout, Inr ()) \<and>
     dict_get (csv_files sout) ''windows_all.csv'' = Some g \<and> length (dict_reader g) = 3"
proof -
  have fit: "\<forall>x \<in> set (include_ids_of demo_args demo_sel). is_included (set (exclude_ids_of demo_args demo_sel)) (\<lambda>_. demo_artifact) x \<longrightarrow>
      experiment_fits demo_loads demo_header demo_artifact"
    by (simp add: demo_experiment_fits)
  have loads: "\<forall>x \<in> set (include_ids_of demo_args demo_sel). loads_ok demo_loads demo_artifact" by simp
  have h: "set demo_header \<inter> set DERIVED_FIELDS = {}" by code_simp
  have n: "length (built_windows demo_loads demo_args demo_sel (\<lambda>_. demo_artifact)) = 3"
    by (simp add: built_windows_def experiment_windows_def dict_reader_def demo_header_def)
  then have "built_windows demo_loads demo_args demo_sel (\<lambda>_. demo_artifact) \<noteq> []" by auto
  from build_then_split [OF demo_selected(1) loads fit h demo_header_id this, of "[]" "[]"] n
  show ?thesis by auto
qed

end
