(* ===== verification/Stats_Dump.thy ===== *)
theory Stats_Dump
  imports Py_Json "HOL-Library.Word"
begin

text \<open>
  \<open>scripts/dump_nodeport_stats_map.py\<close>: reads the per-CPU counters of the data plane through
  \<open>bpftool -j map dump\<close>, sums each counter over the CPUs, and prints one line per counter. What the
  subprocess returns, whether the pinned map exists and what \<open>json.loads\<close> makes of the output are
  parameters; each of them may raise instead (no \<open>bpftool\<close> on the path, no permission to look at the
  map, output that is no UTF-8 or no JSON).
\<close>

definition DEFAULT_MAP_PIN :: string where
  "DEFAULT_MAP_PIN = ''/sys/fs/bpf/nodeport_tc/maps/nodeport_stats_map''"

definition STAT_NAMES :: "string list" where
  "STAT_NAMES =
     [''tcp_packets'', ''nodeport_hit'', ''backend_selected'', ''backend_lookup_miss'', ''rr_update'',
      ''snat_install'', ''request_rewrite'', ''revnat_hit'', ''ct_lookup_miss'', ''response_rewrite'',
      ''same_node_skip'', ''fwd_ct_hit'', ''new_conn'', ''map_miss'', ''rewrite_fail'', ''redirect_ok'',
      ''redirect_fail'', ''fallback_pass'']"

section \<open>Parsing\<close>

text \<open>\<open>int.from_bytes(bs, "little")\<close>.\<close>

fun from_bytes_little :: "int list \<Rightarrow> int" where
  "from_bytes_little [] = 0"
| "from_bytes_little (b # bs) = b + 256 * from_bytes_little bs"

text \<open>\<open>bytes(int(item, 0) for item in value)\<close>: \<open>None\<close> for the \<open>ValueError\<close> of an item that is no
  number or no byte.\<close>

fun bytes_of_strings :: "json list \<Rightarrow> int list option" where
  "bytes_of_strings [] = Some []"
| "bytes_of_strings (JStr s # rest) =
     (case py_int0 s of
        Some b \<Rightarrow> if 0 \<le> b \<and> b \<le> 255 then map_option (Cons b) (bytes_of_strings rest) else None
      | None \<Rightarrow> None)"
| "bytes_of_strings (_ # rest) = None"

definition is_str :: "json \<Rightarrow> bool" where
  "is_str j = (case j of JStr _ \<Rightarrow> True | _ \<Rightarrow> False)"

fun parse_int :: "json \<Rightarrow> int option"
  and parse_first :: "json list \<Rightarrow> int option"
  and parse_member :: "(string \<times> json) list \<Rightarrow> int option" where
  "parse_int (JBool b) = Some (if b then 1 else 0)"
| "parse_int (JInt i) = Some i"
| "parse_int (JStr s) = py_int0 (strip s)"
| "parse_int (JObj members) = parse_member members"
| "parse_int (JArr items) =
     (if items \<noteq> [] \<and> list_all is_str items then map_option from_bytes_little (bytes_of_strings items)
      else parse_first items)"
| "parse_int JNull = None"
| "parse_int (JFloat x) = None"
| "parse_first [] = None"
| "parse_first (j # js) = (case parse_int j of Some i \<Rightarrow> Some i | None \<Rightarrow> parse_first js)"
| "parse_member [] = None"
| "parse_member ((k, j) # ms) = (case parse_int j of Some i \<Rightarrow> Some i | None \<Rightarrow> parse_member ms)"

text \<open>\<open>d.get(k)\<close>, whose default is \<open>None\<close>.\<close>

definition obj_get :: "(string, json) pydict \<Rightarrow> string \<Rightarrow> json" where
  "obj_get d k = dict_get_or JNull d k"

definition add_parsed :: "json \<Rightarrow> int \<Rightarrow> int" where
  "add_parsed j acc = (case parse_int j of Some i \<Rightarrow> acc + i | None \<Rightarrow> acc)"

definition values_total :: "json list \<Rightarrow> int" where
  "values_total items =
     fold (\<lambda>item. add_parsed (case item of JObj d \<Rightarrow> obj_get d ''value'' | j \<Rightarrow> j)) items 0"

definition formatted_total :: "json list \<Rightarrow> int" where
  "formatted_total items =
     fold (\<lambda>item acc. case item of JObj d \<Rightarrow> add_parsed (obj_get d ''value'') acc | _ \<Rightarrow> acc) items 0"

definition value_total :: "(string, json) pydict \<Rightarrow> int" where
  "value_total entry = (case parse_int (obj_get entry ''value'') of Some i \<Rightarrow> i | None \<Rightarrow> 0)"

definition parse_entry_total :: "(string, json) pydict \<Rightarrow> int" where
  "parse_entry_total entry =
     (case dict_get entry ''values'' of
        Some (JArr items) \<Rightarrow> values_total items
      | _ \<Rightarrow>
        (case dict_get_or (JObj []) entry ''formatted'' of
           JObj formatted \<Rightarrow>
             (case obj_get formatted ''values'' of
                JArr items \<Rightarrow> formatted_total items
              | _ \<Rightarrow> value_total entry)
         | _ \<Rightarrow> value_total entry))"

section \<open>The counters\<close>

record completed =
  returncode :: int
  stdout :: string
  stderr :: string

definition put_entry :: "json \<Rightarrow> int list \<Rightarrow> int list result" where
  "put_entry j vals =
     (case j of
        JObj entry \<Rightarrow>
          (case parse_int (obj_get entry ''key'') of
             Some i \<Rightarrow> Inr (if 0 \<le> i \<and> i < int (length vals)
               then vals[nat i := parse_entry_total entry] else vals)
           | None \<Rightarrow> Inr vals)
      | _ \<Rightarrow> Inl AttributeError)"

text \<open>What a \<open>for\<close> loop over a decoded value visits: the items of an array, the keys of an object,
  the characters of a string; anything else is not iterable.\<close>

definition iterate :: "json \<Rightarrow> json list result" where
  "iterate payload =
     (case payload of
        JArr items \<Rightarrow> Inr items
      | JObj members \<Rightarrow> Inr (map (JStr \<circ> fst) members)
      | JStr s \<Rightarrow> Inr (map (\<lambda>c. JStr [c]) s)
      | _ \<Rightarrow> Inl TypeError)"

definition load_stats ::
  "(string \<Rightarrow> json result) \<Rightarrow> (string \<Rightarrow> completed result) \<Rightarrow> string \<Rightarrow> int list result" where
  "load_stats loads bpftool map_pin =
     bind_result (bpftool map_pin) (\<lambda>result.
      if returncode result \<noteq> 0 then
        Inl (RuntimeError (''bpftool failed for '' @ map_pin @ '': '' @
          (if strip (stderr result) \<noteq> [] then strip (stderr result) else strip (stdout result))))
      else
        bind_result (loads (stdout result)) (\<lambda>payload.
        bind_result (iterate payload) (\<lambda>entries.
          fold_result put_entry entries (replicate (length STAT_NAMES) 0))))"

record console =
  out_lines :: "string list"
  err_lines :: "string list"

text \<open>\<open>main\<close> and the \<open>RuntimeError\<close> handler around it: the printed lines and the exit code, or the
  exception that escapes.\<close>

definition dump_main ::
  "(string \<Rightarrow> json result) \<Rightarrow> (string \<Rightarrow> completed result) \<Rightarrow> (string \<Rightarrow> bool result) \<Rightarrow> string list \<Rightarrow>
     console \<times> int result" where
  "dump_main loads bpftool exists argv =
     (let map_pin = (if 1 < length argv then argv ! 1 else DEFAULT_MAP_PIN) in
      case bind_result (exists map_pin) (\<lambda>there.
          if \<not> there then Inr None
          else bind_result (load_stats loads bpftool map_pin) (\<lambda>vals. Inr (Some vals))) of
        Inr None \<Rightarrow> (\<lparr>out_lines = [], err_lines = [''missing stats map: '' @ map_pin]\<rparr>, Inr 1)
      | Inr (Some vals) \<Rightarrow>
          (\<lparr>out_lines = map (\<lambda>(name, v). name @ ''='' @ int_str v) (zip STAT_NAMES vals), err_lines = []\<rparr>, Inr 0)
      | Inl (RuntimeError m) \<Rightarrow> (\<lparr>out_lines = [], err_lines = [''error: '' @ m]\<rparr>, Inr 1)
      | Inl e \<Rightarrow> (\<lparr>out_lines = [], err_lines = []\<rparr>, Inl e))"

section \<open>Little-endian byte arrays\<close>

text \<open>How \<open>bpftool\<close> shows a value: its bytes from the least significant one, each as \<open>0xhh\<close>.\<close>

definition hex_char :: "int \<Rightarrow> char" where
  "hex_char d = ''0123456789abcdef'' ! nat d"

definition hex_byte :: "int \<Rightarrow> string" where
  "hex_byte b = ''0x'' @ [hex_char (b div 16), hex_char (b mod 16)]"

fun le_bytes :: "nat \<Rightarrow> int \<Rightarrow> int list" where
  "le_bytes 0 n = []"
| "le_bytes (Suc k) n = n mod 256 # le_bytes k (n div 256)"

definition bpftool_value :: "nat \<Rightarrow> int \<Rightarrow> json" where
  "bpftool_value k n = JArr (map (JStr \<circ> hex_byte) (le_bytes k n))"

lemma hex_char_digit:
  assumes "0 \<le> d" and "d < 16"
  shows "digit_val 16 (hex_char d) = Some d" and "hex_char d \<noteq> CHR ''_''" and "\<not> is_space (hex_char d)"
proof -
  have "list_all (\<lambda>d. digit_val 16 (hex_char d) = Some d \<and> hex_char d \<noteq> CHR ''_'' \<and> \<not> is_space (hex_char d)) [0..15]"
    by code_simp
  moreover have "d \<in> set [0..15]" using assms by simp
  ultimately show "digit_val 16 (hex_char d) = Some d" and "hex_char d \<noteq> CHR ''_''" and "\<not> is_space (hex_char d)"
    unfolding list_all_iff by blast+
qed

lemma py_int0_hex_byte:
  assumes "0 \<le> b" and "b < 256"
  shows "py_int0 (hex_byte b) = Some b"
proof -
  have d: "0 \<le> b div 16" "b div 16 < 16" "0 \<le> b mod 16" "b mod 16 < 16" using assms by auto
  have "strip (hex_byte b) = hex_byte b"
    using hex_char_digit(3) [OF d(3,4)] by (intro strip_id) (simp add: hex_byte_def is_space_def)
  then have "py_int0 (hex_byte b) = Some (b div 16 * 16 + b mod 16)"
    using hex_char_digit [OF d(1,2)] hex_char_digit [OF d(3,4)]
    by (simp add: py_int0_def hex_byte_def scan_base0_def base_prefix_def with_sign_def)
  then show ?thesis by simp
qed

lemma le_bytes_range: "b \<in> set (le_bytes k n) \<Longrightarrow> 0 \<le> b \<and> b < 256"
  by (induction k arbitrary: n) auto

lemma from_le_bytes: "0 \<le> n \<Longrightarrow> n < 256 ^ k \<Longrightarrow> from_bytes_little (le_bytes k n) = n"
proof (induction k arbitrary: n)
  case (Suc k)
  have "n div 256 < 256 ^ k" using Suc.prems by (simp add: div_less_iff_less_mult mult.commute)
  then show ?case using Suc by simp
qed simp

lemma bytes_of_hex: "list_all (\<lambda>b. 0 \<le> b \<and> b < 256) bs \<Longrightarrow> bytes_of_strings (map (JStr \<circ> hex_byte) bs) = Some bs"
  by (induction bs) (simp_all add: py_int0_hex_byte)

lemma parse_bpftool_value:
  assumes "0 < k" and "0 \<le> n" and "n < 256 ^ k"
  shows "parse_int (bpftool_value k n) = Some n"
proof -
  have "le_bytes k n \<noteq> []" using assms(1) by (cases k) simp_all
  moreover have "list_all (\<lambda>b. 0 \<le> b \<and> b < 256) (le_bytes k n)"
    using le_bytes_range by (auto simp: list_all_iff)
  ultimately show ?thesis
    using from_le_bytes [OF assms(2,3)]
    by (simp add: bpftool_value_def is_str_def list_all_iff bytes_of_hex)
qed

section \<open>What \<open>bpftool\<close> prints for the per-CPU array\<close>

definition bpftool_cpu :: "nat \<times> 64 word \<Rightarrow> json" where
  "bpftool_cpu c = (case c of (cpu, w) \<Rightarrow>
     JObj [(''cpu'', JInt (int cpu)), (''value'', bpftool_value 8 (uint w))])"

definition bpftool_entry :: "nat \<times> 64 word list \<Rightarrow> (string, json) pydict" where
  "bpftool_entry e = (case e of (i, ws) \<Rightarrow>
     [(''key'', bpftool_value 4 (int i)), (''values'', JArr (map bpftool_cpu (enumerate 0 ws)))])"

definition bpftool_dump :: "64 word list list \<Rightarrow> json" where
  "bpftool_dump counters = JArr (map (JObj \<circ> bpftool_entry) (enumerate 0 counters))"

lemma parse_word: "parse_int (bpftool_value 8 (uint (w :: 64 word))) = Some (uint w)"
proof (rule parse_bpftool_value)
  show "uint w < 256 ^ 8" using uint_lt2p [of w] by simp
qed simp_all

lemma values_total_words:
  "values_total (map bpftool_cpu (enumerate n ws)) = sum_list (map uint ws)"
proof -
  have "fold (\<lambda>item. add_parsed (case item of JObj d \<Rightarrow> obj_get d ''value'' | j \<Rightarrow> j))
      (map bpftool_cpu (enumerate n ws)) acc = acc + sum_list (map uint ws)" for acc
    by (induction ws arbitrary: n acc)
      (simp_all add: bpftool_cpu_def obj_get_def dict_get_or_def dict_get_def add_parsed_def parse_word)
  then show ?thesis by (simp add: values_total_def)
qed

lemma entry_total_words: "parse_entry_total (bpftool_entry (i, ws)) = sum_list (map uint ws)"
  by (simp add: parse_entry_total_def bpftool_entry_def dict_get_def values_total_words)

lemma entry_key:
  "i < 2 ^ 32 \<Longrightarrow> parse_int (obj_get (bpftool_entry (i, ws)) ''key'') = Some (int i)"
  by (simp add: bpftool_entry_def obj_get_def dict_get_or_def dict_get_def)
    (rule parse_bpftool_value, simp_all)

lemma filter_fst_enumerate:
  "i < length xs \<Longrightarrow> filter (\<lambda>e. fst e = n + i) (enumerate n xs) = [(n + i, xs ! i)]"
proof (induction xs arbitrary: n i)
  case (Cons x xs)
  show ?case
  proof (cases i)
    case 0
    have "filter (\<lambda>e. fst e = n) (enumerate (Suc n) xs) = []"
      by (auto simp: filter_empty_conv in_set_enumerate_eq)
    then show ?thesis using 0 by simp
  next
    case (Suc k)
    then show ?thesis using Cons.IH [of k "Suc n"] Cons.prems by simp
  qed
qed simp

section \<open>Filling the counters\<close>

definition entry_index :: "(string, json) pydict \<Rightarrow> int option" where
  "entry_index entry = parse_int (obj_get entry ''key'')"

text \<open>The last entry with a given key decides the counter.\<close>

definition counter_of :: "(string, json) pydict list \<Rightarrow> nat \<Rightarrow> int" where
  "counter_of entries i =
     (let es = filter (\<lambda>e. entry_index e = Some (int i)) entries
      in if es = [] then 0 else parse_entry_total (last es))"

lemma put_entries:
  "fold_result put_entry (map JObj entries) (replicate n 0) = Inr (map (counter_of entries) [0..<n])"
proof (induction entries rule: rev_induct)
  case Nil
  then show ?case by (simp add: counter_of_def map_replicate_const)
next
  case (snoc e es)
  have last: "counter_of (es @ [e]) i = (if entry_index e = Some (int i) then parse_entry_total e else counter_of es i)" for i
    by (simp add: counter_of_def)
  have "put_entry (JObj e) (map (counter_of es) [0..<n]) = Inr (map (counter_of (es @ [e])) [0..<n])"
  proof (cases "entry_index e")
    case None
    then show ?thesis by (simp add: put_entry_def last entry_index_def)
  next
    case (Some k)
    have "(map (counter_of es) [0..<n])[nat k := parse_entry_total e] = map (counter_of (es @ [e])) [0..<n]"
      if "0 \<le> k"
      using that Some by (intro nth_equalityI) (auto simp: nth_list_update last)
    moreover have "map (counter_of es) [0..<n] = map (counter_of (es @ [e])) [0..<n]"
      if "\<not> (0 \<le> k \<and> k < int n)"
      using that Some by (auto simp: last)
    ultimately show ?thesis
      using Some by (simp add: put_entry_def entry_index_def)
  qed
  then show ?case using snoc by (simp add: fold_result_append)
qed

section \<open>Properties\<close>

text \<open>Whatever entries an array of objects holds, in whatever order, the result has one number
  for each counter name: the total of the last entry with its index, or 0. Entries with an
  unreadable or out-of-range key change nothing.\<close>

theorem load_stats_last_entry:
  assumes "bpftool pin = Inr c" and "returncode c = 0" and "loads (stdout c) = Inr (JArr (map JObj entries))"
  shows "load_stats loads bpftool pin = Inr (map (counter_of entries) [0..<length STAT_NAMES])"
  using assms put_entries by (simp add: load_stats_def iterate_def)

definition demo_bpftool :: "string \<Rightarrow> completed result" where
  "demo_bpftool pin = Inr \<lparr>returncode = 0, stdout = [], stderr = []\<rparr>"

definition demo_counters :: "64 word list list" where
  "demo_counters = [1, 2] # replicate 17 [-1, 1]"

theorem load_stats_last_entry_witness:
  "load_stats (\<lambda>_. Inr (JArr (map JObj [[(''key'', JInt 1), (''value'', JInt 7)],
       [(''key'', JInt 99), (''value'', JInt 5)], [(''key'', JInt 1), (''value'', JInt 8)]]))) demo_bpftool [] =
     Inr (0 # 8 # replicate 16 0)"
proof -
  let ?es = "[[(''key'', JInt 1), (''value'', JInt 7)], [(''key'', JInt 99), (''value'', JInt 5)],
      [(''key'', JInt 1), (''value'', JInt 8)]]"
  have "map (counter_of ?es) [0..<length STAT_NAMES] = 0 # 8 # replicate 16 0" by code_simp
  then show ?thesis
    using load_stats_last_entry [where bpftool = demo_bpftool and pin = "[]" and entries = ?es
        and loads = "\<lambda>_. Inr (JArr (map JObj ?es))", OF demo_bpftool_def] by simp
qed

text \<open>C5: round trip: when \<open>bpftool\<close> prints a per-CPU array of 64-bit counters, keys and values as
  little-endian bytes in hexadecimal, the script recovers for each counter the exact sum over the
  CPUs, without wrap-around at 64 bits.\<close>

theorem load_stats_reads_per_cpu_counters:
  assumes "bpftool pin = Inr c" and "returncode c = 0" and "loads (stdout c) = Inr (bpftool_dump counters)"
    and len: "length counters = length STAT_NAMES"
  shows "load_stats loads bpftool pin = Inr (map (\<lambda>ws. sum_list (map uint ws)) counters)"
proof -
  let ?es = "map bpftool_entry (enumerate 0 counters)"
  have n: "length counters = 18" using len by (simp add: STAT_NAMES_def)
  have idx: "entry_index (bpftool_entry e) = Some (int (fst e))" if "e \<in> set (enumerate 0 counters)" for e
  proof -
    obtain i ws where e: "e = (i, ws)" by (cases e)
    then have "i < 18" using that n by (auto simp: in_set_enumerate_eq)
    then show ?thesis by (simp add: e entry_index_def entry_key)
  qed
  have "counter_of ?es i = sum_list (map uint (counters ! i))" if "i < length counters" for i
  proof -
    have "filter (\<lambda>e. entry_index e = Some (int i)) ?es =
        map bpftool_entry (filter (\<lambda>e. fst e = i) (enumerate 0 counters))"
      by (simp add: filter_map comp_def idx cong: filter_cong)
    also have "filter (\<lambda>e. fst e = i) (enumerate 0 counters) = [(i, counters ! i)]"
      using that filter_fst_enumerate [of i counters 0] by simp
    finally show ?thesis by (simp add: counter_of_def entry_total_words)
  qed
  then have "map (counter_of ?es) [0..<length counters] = map (\<lambda>ws. sum_list (map uint ws)) counters"
    by (intro nth_equalityI) simp_all
  moreover have "bpftool_dump counters = JArr (map JObj ?es)" by (simp add: bpftool_dump_def)
  ultimately show ?thesis
    using assms put_entries [of ?es 18] by (simp add: load_stats_def iterate_def n)
qed

theorem load_stats_reads_per_cpu_counters_witness:
  "load_stats (\<lambda>_. Inr (bpftool_dump demo_counters)) demo_bpftool [] = Inr (3 # replicate 17 (2 ^ 64))"
proof -
  have "map (\<lambda>ws. sum_list (map uint ws)) demo_counters = 3 # replicate 17 (2 ^ 64)"
    by (simp add: demo_counters_def unsigned_minus_1_eq_mask mask_eq_exp_minus_1)
  then show ?thesis
    using load_stats_reads_per_cpu_counters [where bpftool = demo_bpftool and pin = "[]" and counters = demo_counters
        and loads = "\<lambda>_. Inr (bpftool_dump demo_counters)", OF demo_bpftool_def]
    by (simp only:) (simp add: demo_counters_def STAT_NAMES_def)
qed

lemma fold_put_entry_error:
  "fold_result put_entry js vals = Inl e \<Longrightarrow> e = AttributeError"
proof (induction js arbitrary: vals)
  case (Cons j js)
  then show ?case
    by (cases "put_entry j vals") (auto simp: put_entry_def split: json.splits option.splits)
qed simp

lemma fold_put_entry_length: "fold_result put_entry js vals = Inr vals' \<Longrightarrow> length vals' = length vals"
proof (induction js arbitrary: vals)
  case (Cons j js)
  then obtain v where "put_entry j vals = Inr v" and "fold_result put_entry js v = Inr vals'"
    by (auto simp: bind_result_Inr)
  moreover from this have "length v = length vals"
    by (auto simp: put_entry_def split: json.splits option.splits if_splits)
  ultimately show ?case using Cons.IH by simp
qed simp

lemma takeWhile_name: "CHR ''='' \<notin> set n \<Longrightarrow> takeWhile (\<lambda>c. c \<noteq> CHR ''='') (n @ CHR ''='' # v) = n"
  "CHR ''='' \<notin> set n \<Longrightarrow> dropWhile (\<lambda>c. c \<noteq> CHR ''='') (n @ CHR ''='' # v) = CHR ''='' # v"
  by (induction n) auto

text \<open>What can end the run before the counters are printed.\<close>

definition dump_failure ::
  "(string \<Rightarrow> json result) \<Rightarrow> (string \<Rightarrow> completed result) \<Rightarrow> (string \<Rightarrow> bool result) \<Rightarrow> string \<Rightarrow> py_error \<Rightarrow> bool" where
  "dump_failure loads bpftool exists pin e \<longleftrightarrow>
     exists pin = Inl e \<or>
     exists pin = Inr True \<and> bpftool pin = Inl e \<or>
     exists pin = Inr True \<and> (\<exists>c. bpftool pin = Inr c \<and>
       (if returncode c \<noteq> 0
        then \<exists>detail. e = RuntimeError (''bpftool failed for '' @ pin @ '': '' @ detail)
        else loads (stdout c) = Inl e \<or>
          (\<exists>j. loads (stdout c) = Inr j \<and>
             (e = TypeError \<and> (\<forall>js. iterate j \<noteq> Inr js) \<or>
              e = AttributeError \<and> (\<exists>js x. iterate j = Inr js \<and> x \<in> set js \<and> (\<forall>d. x \<noteq> JObj d))))))"

lemma iterate_error: "iterate j = Inl e \<Longrightarrow> e = TypeError"
  by (auto simp: iterate_def split: json.splits)

lemma fold_put_entry_bad: "fold_result put_entry js vals = Inl e \<Longrightarrow> \<exists>x \<in> set js. \<forall>d. x \<noteq> JObj d"
proof (induction js arbitrary: vals)
  case (Cons j js)
  then show ?case
    by (cases "put_entry j vals") (auto simp: put_entry_def split: json.splits option.splits)
qed simp

lemma load_stats_failure:
  assumes "exists pin = Inr True" and "load_stats loads bpftool pin = Inl e"
  shows "dump_failure loads bpftool exists pin e"
proof (cases "bpftool pin")
  case (Inl d)
  then show ?thesis using assms by (simp add: load_stats_def dump_failure_def)
next
  case (Inr c)
  show ?thesis
  proof (cases "returncode c = 0")
    case True
    then consider "loads (stdout c) = Inl e" | j where "loads (stdout c) = Inr j" "iterate j = Inl e"
      | j js where "loads (stdout c) = Inr j" "iterate j = Inr js" "fold_result put_entry js (replicate (length STAT_NAMES) 0) = Inl e"
      using assms(2) Inr by (auto simp: load_stats_def bind_result_def split: sum.splits)
    then show ?thesis
    proof cases
      case 2
      then show ?thesis using Inr True assms(1) iterate_error [OF 2(2)] by (auto simp: dump_failure_def)
    next
      case (3 j js)
      then show ?thesis
        using Inr True assms(1) fold_put_entry_error [OF 3(3)] fold_put_entry_bad [OF 3(3)] by (auto simp: dump_failure_def)
    qed (use Inr True assms(1) in \<open>simp add: dump_failure_def\<close>)
  qed (use Inr assms in \<open>auto simp: load_stats_def dump_failure_def\<close>)
qed

lemma printed_counters:
  assumes "length vals = length STAT_NAMES"
  defines "printed \<equiv> map (\<lambda>(name, v). name @ ''='' @ int_str v) (zip STAT_NAMES vals)"
  shows "map (takeWhile (\<lambda>c. c \<noteq> CHR ''='')) printed = STAT_NAMES"
    and "map (\<lambda>l. py_int (drop 1 (dropWhile (\<lambda>c. c \<noteq> CHR ''='') l))) printed = map Some vals"
proof -
  have names: "CHR ''='' \<notin> set n" if "n \<in> set STAT_NAMES" for n
    using that by (auto simp: STAT_NAMES_def)
  have "map (takeWhile (\<lambda>c. c \<noteq> CHR ''='')) printed = map fst (zip STAT_NAMES vals)"
    unfolding printed_def using names by (auto simp: takeWhile_name dest!: set_zip_leftD)
  then show "map (takeWhile (\<lambda>c. c \<noteq> CHR ''='')) printed = STAT_NAMES" using assms(1) by simp
  have "map (\<lambda>l. py_int (drop 1 (dropWhile (\<lambda>c. c \<noteq> CHR ''='') l))) printed = map (Some \<circ> snd) (zip STAT_NAMES vals)"
    unfolding printed_def using names by (auto simp: takeWhile_name dest!: set_zip_leftD)
  then show "map (\<lambda>l. py_int (drop 1 (dropWhile (\<lambda>c. c \<noteq> CHR ''='') l))) printed = map Some vals"
    using assms(1) by (simp flip: map_map)
qed

text \<open>C39: all counters or none. Exit code 0 means that the map was there and exactly one line per counter
name was printed, in order, each with the number that was read. Otherwise no counter is printed:
the exit code is 1 with one message, either that the map is missing or the text of the
\<open>RuntimeError\<close> that ended the run, or another exception escapes without output. What ends the run is
one of: an exception of looking for the map or of starting \<open>bpftool\<close>, a return code other than 0, output
that cannot be decoded, a decoded value that is not iterable (\<open>TypeError\<close>), or one with an entry that
is no object (\<open>AttributeError\<close>).\<close>

theorem dump_main_all_or_nothing:
  "let pin = (if 1 < length argv then argv ! 1 else DEFAULT_MAP_PIN); (con, outcome) = dump_main loads bpftool exists argv in
   (case outcome of
      Inr code \<Rightarrow>
        code = 0 \<and> err_lines con = [] \<and> exists pin = Inr True \<and>
          (\<exists>vals. load_stats loads bpftool pin = Inr vals \<and> length vals = length STAT_NAMES \<and>
             map (takeWhile (\<lambda>c. c \<noteq> CHR ''='')) (out_lines con) = STAT_NAMES \<and>
             map (\<lambda>l. py_int (drop 1 (dropWhile (\<lambda>c. c \<noteq> CHR ''='') l))) (out_lines con) = map Some vals)
        \<or> code = 1 \<and> out_lines con = [] \<and> exists pin = Inr False \<and> err_lines con = [''missing stats map: '' @ pin]
        \<or> code = 1 \<and> out_lines con = [] \<and>
          (\<exists>m. err_lines con = [''error: '' @ m] \<and> dump_failure loads bpftool exists pin (RuntimeError m))
    | Inl e \<Rightarrow> out_lines con = [] \<and> err_lines con = [] \<and> (\<forall>m. e \<noteq> RuntimeError m) \<and>
        dump_failure loads bpftool exists pin e)"
proof -
  define pin where "pin = (if 1 < length argv then argv ! 1 else DEFAULT_MAP_PIN)"
  have run: "dump_main loads bpftool exists argv =
      (case bind_result (exists pin) (\<lambda>there. if \<not> there then Inr None
          else bind_result (load_stats loads bpftool pin) (\<lambda>vals. Inr (Some vals))) of
        Inr None \<Rightarrow> (\<lparr>out_lines = [], err_lines = [''missing stats map: '' @ pin]\<rparr>, Inr 1)
      | Inr (Some vals) \<Rightarrow>
          (\<lparr>out_lines = map (\<lambda>(name, v). name @ ''='' @ int_str v) (zip STAT_NAMES vals), err_lines = []\<rparr>, Inr 0)
      | Inl (RuntimeError m) \<Rightarrow> (\<lparr>out_lines = [], err_lines = [''error: '' @ m]\<rparr>, Inr 1)
      | Inl e \<Rightarrow> (\<lparr>out_lines = [], err_lines = []\<rparr>, Inl e))"
    unfolding dump_main_def pin_def Let_def by (rule refl)
  consider "exists pin = Inr False"
    | e where "bind_result (exists pin) (\<lambda>there. if \<not> there then Inr None
        else bind_result (load_stats loads bpftool pin) (\<lambda>vals. Inr (Some vals))) = Inl e"
      "dump_failure loads bpftool exists pin e"
    | vals where "exists pin = Inr True" "load_stats loads bpftool pin = Inr vals"
  proof (cases "exists pin")
    case (Inl e)
    then have "dump_failure loads bpftool exists pin e" by (simp add: dump_failure_def)
    with Inl show thesis by (intro that(2) [of e]) simp_all
  next
    case (Inr there)
    then show thesis
    proof (cases "load_stats loads bpftool pin")
      case (Inl e)
      with Inr show thesis
        using that(1) that(2) [of e] load_stats_failure [of exists pin loads bpftool e] by (cases there) simp_all
    qed (use Inr that in \<open>cases there; simp\<close>)
  qed
  then show ?thesis
  proof cases
    case 1
    then show ?thesis unfolding Let_def pin_def [symmetric] by (simp add: run)
  next
    case (2 e)
    then show ?thesis unfolding Let_def pin_def [symmetric] by (cases e) (simp_all add: run)
  next
    case (3 vals)
    then have "length vals = length STAT_NAMES"
      by (auto simp: load_stats_def bind_result_Inr dest!: fold_put_entry_length split: if_splits)
    from printed_counters [OF this] this 3 show ?thesis unfolding Let_def pin_def [symmetric] by (simp add: run)
  qed
qed

lemma dump_main_all_or_nothing_witness:
  "\<exists>con. dump_main (\<lambda>_. Inr (JArr [])) demo_bpftool (\<lambda>_. Inr True) [] = (con, Inr 0) \<and>
     map (takeWhile (\<lambda>c. c \<noteq> CHR ''='')) (out_lines con) = STAT_NAMES \<and>
     map (\<lambda>l. py_int (drop 1 (dropWhile (\<lambda>c. c \<noteq> CHR ''='') l))) (out_lines con) = map Some (replicate 18 0)"
proof -
  have vals: "load_stats (\<lambda>_. Inr (JArr [])) demo_bpftool pin = Inr (replicate 18 0)" for pin
    by (simp add: load_stats_def demo_bpftool_def iterate_def STAT_NAMES_def eval_nat_numeral)
  obtain con where con: "dump_main (\<lambda>_. Inr (JArr [])) demo_bpftool (\<lambda>_. Inr True) [] = (con, Inr 0)"
    by (simp add: dump_main_def vals)
  from dump_main_all_or_nothing [of "[]" "\<lambda>_. Inr (JArr [])" demo_bpftool "\<lambda>_. Inr True", unfolded con Let_def prod.case sum.case]
  show ?thesis using con by (auto simp: vals)
qed

end
