(* ===== verification/Http_Bench.thy ===== *)
theory Http_Bench
  imports Csv_Rows Py_Json
begin

text \<open>
  \<open>scripts/phase5_http_bench.py\<close>: a closed-loop HTTP benchmark. Worker threads issue requests
  until a deadline and append a row for every request begun after the warm-up to a shared list,
  under a lock; the main thread then summarises the rows. A request's outcome, the clocks and the
  scheduler are the environment: the workers are a step relation with one step per visible action.
\<close>

section \<open>Percentiles\<close>

text \<open>\<open>xs[i]\<close> of a list: a negative index counts from the end.\<close>

definition list_index :: "'a list \<Rightarrow> int \<Rightarrow> 'a result" where
  "list_index xs i =
     (let k = (if i < 0 then i + int (length xs) else i)
      in if 0 \<le> k \<and> k < int (length xs) then Inr (xs ! nat k) else Inl IndexError)"

definition percentile :: "dbl list \<Rightarrow> dbl \<Rightarrow> dbl result" where
  "percentile vals ratio =
     (if vals = [] then Inr (Fin 0) else
      (let ordered = py_sorted dlt vals in
       if length ordered = 1 then Inr (ordered ! 0) else
       (let index = dmul ratio (dbl_of_int (int (length ordered) - 1)) in
        bind_result (dfloor index) (\<lambda>lo.
        bind_result (dceil index) (\<lambda>up.
          if lo = up then list_index ordered lo else
          (let weight = dsub index (dbl_of_int lo) in
           bind_result (list_index ordered lo) (\<lambda>a.
           bind_result (list_index ordered up) (\<lambda>b.
             Inr (dadd (dmul a (dsub (Fin 1) weight)) (dmul b weight))))))))))"

section \<open>One request\<close>

text \<open>What the HTTP library does with a request: a status and a body length, or an exception. Making the
  connection object is not guarded: when \<open>HTTPConnection\<close> itself raises, for a host it takes for
  invalid, the exception ends the worker (step \<open>refused\<close> below).\<close>

datatype outcome = Responded int nat | Raised string

record bench_row =
  ts_unix_ms :: int
  ok :: bool
  status_code :: int
  latency_ms :: string
  error :: string

text \<open>The connection (is one kept?), \<open>ok\<close>, status, latency and error name after a request between
  the clock readings \<open>t0\<close> and \<open>t1\<close>.\<close>

definition request_once :: "outcome \<Rightarrow> dbl \<Rightarrow> dbl \<Rightarrow> bool \<times> bool \<times> int \<times> dbl \<times> string" where
  "request_once outcome t0 t1 =
     (let latency = dmul (dsub t1 t0) (Fin 1000) in
      case outcome of
        Responded status len \<Rightarrow> (True, 200 \<le> status \<and> status < 400, status, latency, [])
      | Raised name \<Rightarrow> (False, False, 0, latency, name))"

definition make_row :: "int \<Rightarrow> bool \<Rightarrow> int \<Rightarrow> dbl \<Rightarrow> string \<Rightarrow> bench_row" where
  "make_row timestamp success status latency err =
     \<lparr>ts_unix_ms = timestamp, ok = success, status_code = status, latency_ms = fmt_fixed 3 latency, error = err\<rparr>"

section \<open>The workers\<close>

datatype worker_pc =
    Testing
  | Reading
  | Requesting bool
  | Waiting bench_row
  | Appending bench_row
  | Finished
  | Crashed

record worker =
  pc :: worker_pc
  connected :: bool

record bench =
  workers :: "worker list"
  lock_owner :: "nat option"
  request_rows :: "bench_row list"
  clock :: dbl

datatype event = Silent | Measured bench_row | Refused

definition set_worker :: "nat \<Rightarrow> worker \<Rightarrow> bench \<Rightarrow> bench" where
  "set_worker i w s = s\<lparr>workers := (workers s)[i := w]\<rparr>"

inductive bench_step :: "dbl \<Rightarrow> dbl \<Rightarrow> bench \<Rightarrow> event \<Rightarrow> bench \<Rightarrow> bool"
  for measure_start measure_end where
  tick: "c \<noteq> NaN \<Longrightarrow> dle (clock s) c \<Longrightarrow> bench_step measure_start measure_end s Silent (s\<lparr>clock := c\<rparr>)"
| enter: "i < length (workers s) \<Longrightarrow> workers s ! i = \<lparr>pc = Testing, connected = k\<rparr> \<Longrightarrow>
    dlt (clock s) measure_end \<Longrightarrow>
    bench_step measure_start measure_end s Silent (set_worker i \<lparr>pc = Reading, connected = k\<rparr> s)"
| leave: "i < length (workers s) \<Longrightarrow> workers s ! i = \<lparr>pc = Testing, connected = k\<rparr> \<Longrightarrow>
    \<not> dlt (clock s) measure_end \<Longrightarrow>
    bench_step measure_start measure_end s Silent (set_worker i \<lparr>pc = Finished, connected = False\<rparr> s)"
| read: "i < length (workers s) \<Longrightarrow> workers s ! i = \<lparr>pc = Reading, connected = k\<rparr> \<Longrightarrow>
    bench_step measure_start measure_end s Silent
      (set_worker i \<lparr>pc = Requesting (dle measure_start (clock s)), connected = k\<rparr> s)"
| warmed: "i < length (workers s) \<Longrightarrow> workers s ! i = \<lparr>pc = Requesting False, connected = k\<rparr> \<Longrightarrow>
    request_once outcome t0 t1 = (k', success, status, latency, err) \<Longrightarrow>
    bench_step measure_start measure_end s Silent (set_worker i \<lparr>pc = Testing, connected = k'\<rparr> s)"
| measured: "i < length (workers s) \<Longrightarrow> workers s ! i = \<lparr>pc = Requesting True, connected = k\<rparr> \<Longrightarrow>
    request_once outcome t0 t1 = (k', success, status, latency, err) \<Longrightarrow>
    row = make_row timestamp success status latency err \<Longrightarrow>
    bench_step measure_start measure_end s (Measured row) (set_worker i \<lparr>pc = Waiting row, connected = k'\<rparr> s)"
| acquire: "i < length (workers s) \<Longrightarrow> workers s ! i = \<lparr>pc = Waiting row, connected = k\<rparr> \<Longrightarrow>
    lock_owner s = None \<Longrightarrow>
    bench_step measure_start measure_end s Silent
      (set_worker i \<lparr>pc = Appending row, connected = k\<rparr> (s\<lparr>lock_owner := Some i\<rparr>))"
| append_release: "i < length (workers s) \<Longrightarrow> workers s ! i = \<lparr>pc = Appending row, connected = k\<rparr> \<Longrightarrow>
    bench_step measure_start measure_end s Silent
      (set_worker i \<lparr>pc = Testing, connected = k\<rparr>
        (s\<lparr>request_rows := request_rows s @ [row], lock_owner := None\<rparr>))"
| refused: "i < length (workers s) \<Longrightarrow> workers s ! i = \<lparr>pc = Requesting m, connected = False\<rparr> \<Longrightarrow>
    bench_step measure_start measure_end s Refused (set_worker i \<lparr>pc = Crashed, connected = False\<rparr> s)"

inductive_cases bench_stepE: "bench_step ms me s e s'"

definition bench_init :: "nat \<Rightarrow> dbl \<Rightarrow> bench" where
  "bench_init concurrency now =
     \<lparr>workers = replicate concurrency \<lparr>pc = Testing, connected = False\<rparr>, lock_owner = None,
      request_rows = [], clock = now\<rparr>"

inductive bench_run :: "dbl \<Rightarrow> dbl \<Rightarrow> bench \<Rightarrow> event list \<Rightarrow> bench \<Rightarrow> bool" for ms me s where
  start: "bench_run ms me s [] s"
| step: "bench_run ms me s es s' \<Longrightarrow> bench_step ms me s' e s'' \<Longrightarrow> bench_run ms me s (es @ [e]) s''"

text \<open>What \<open>thread.join()\<close> waits for: every worker has returned or was ended by an exception.\<close>

definition all_finished :: "bench \<Rightarrow> bool" where
  "all_finished s \<longleftrightarrow> list_all (\<lambda>w. pc w = Finished \<or> pc w = Crashed) (workers s)"

section \<open>The summary\<close>

record bench_args =
  url :: string
  warmup_seconds :: dbl
  duration_seconds :: dbl
  concurrency_arg :: nat

text \<open>The parts of the URL as \<open>urlparse\<close> gives them; \<open>None\<close> for an absent one.\<close>

record parsed_url =
  hostname :: "string option"
  port_part :: "int option"
  path_part :: string
  query_part :: string

definition request_target :: "string \<Rightarrow> parsed_url \<Rightarrow> (string \<times> int \<times> string) result" where
  "request_target u p =
     (let port = (case port_part p of None \<Rightarrow> 80 | Some n \<Rightarrow> if n = 0 then 80 else n);
          path = (if path_part p = [] then ''/'' else path_part p);
          path' = (if query_part p = [] then path else path @ ''?'' @ query_part p)
      in case hostname p of
           None \<Rightarrow> Inl (SystemExit (''invalid url: '' @ u))
         | Some h \<Rightarrow> if h = [] then Inl (SystemExit (''invalid url: '' @ u)) else Inr (h, port, path'))"

record bench_summary =
  total_requests :: nat
  successful_requests :: nat
  success_rate :: dbl
  throughput_rps :: dbl
  p50_latency_ms :: dbl
  p99_latency_ms :: dbl
  measurement_start_unix_ms :: int
  measurement_end_unix_ms :: int

definition read_latency :: "bench_row \<Rightarrow> dbl result" where
  "read_latency r = (case py_float (latency_ms r) of None \<Rightarrow> Inl ValueError | Some x \<Rightarrow> Inr x)"

definition ratio_50 :: dbl where "ratio_50 = Fin (1 / 2)"

definition ratio_99 :: dbl where "ratio_99 = rnd (99 / 100)"

text \<open>The two wall-clock marks are converted before the workers start; they are inputs of the summary here. A
  clock or duration they cannot be made of ends the script without a file at either place.\<close>

definition summarise :: "bench_args \<Rightarrow> dbl \<Rightarrow> bench_row list \<Rightarrow> bench_summary result" where
  "summarise args wall_start rows =
     (let total = length rows;
          successful = filter ok rows;
          success = length successful
      in bind_result (dtrunc (dmul (dadd wall_start (warmup_seconds args)) (Fin 1000))) (\<lambda>start_ms.
         bind_result (dtrunc (dmul (dadd (dadd wall_start (warmup_seconds args)) (duration_seconds args)) (Fin 1000))) (\<lambda>end_ms.
         bind_result (map_result read_latency successful) (\<lambda>latencies.
         bind_result (if dlt (Fin 0) (duration_seconds args)
            then ddiv (dbl_of_int (int total)) (duration_seconds args) else Inr (Fin 0)) (\<lambda>throughput.
         bind_result (if total \<noteq> 0 then count_ratio success total else Inr (Fin 0)) (\<lambda>rate.
         bind_result (percentile latencies ratio_50) (\<lambda>p50.
         bind_result (percentile latencies ratio_99) (\<lambda>p99.
           Inr \<lparr>total_requests = total, successful_requests = success, success_rate = py_round 6 rate,
                throughput_rps = py_round 6 throughput, p50_latency_ms = py_round 3 p50,
                p99_latency_ms = py_round 3 p99, measurement_start_unix_ms = start_ms,
                measurement_end_unix_ms = end_ms\<rparr>))))))))"

definition BENCH_FIELDS :: "string list" where
  "BENCH_FIELDS = [''ts_unix_ms'', ''ok'', ''status_code'', ''latency_ms'', ''error'']"

definition bench_cells :: "bench_row \<Rightarrow> row" where
  "bench_cells r = \<lparr>cols = zip BENCH_FIELDS
     (map Some [int_str (ts_unix_ms r), if ok r then ''1'' else ''0'', int_str (status_code r), latency_ms r, error r]),
   extra = []\<rparr>"

text \<open>After all workers have been joined: the rows in order of their time stamps, their file, and the
  summary.\<close>

definition bench_finish :: "bench_args \<Rightarrow> dbl \<Rightarrow> bench \<Rightarrow> (csv \<times> bench_summary) result" where
  "bench_finish args wall_start s =
     (let rows = sort_key ts_unix_ms (request_rows s)
      in bind_result (summarise args wall_start rows) (\<lambda>summary.
           Inr (fst (dict_write BENCH_FIELDS (map bench_cells rows)), summary)))"

section \<open>Invariants of the workers\<close>

definition measured_rows :: "event list \<Rightarrow> bench_row list" where
  "measured_rows es = concat (map (\<lambda>e. case e of Measured r \<Rightarrow> [r] | _ \<Rightarrow> []) es)"

definition held :: "worker \<Rightarrow> bench_row multiset" where
  "held w = (case pc w of Waiting r \<Rightarrow> {#r#} | Appending r \<Rightarrow> {#r#} | _ \<Rightarrow> {#})"

text \<open>The rows that workers carry on their way to the list.\<close>

definition pending :: "bench \<Rightarrow> bench_row multiset" where
  "pending s = sum_list (map held (workers s))"

lemma sum_list_set:
  "i < length xs \<Longrightarrow> sum_list (map f (xs[i := x])) + f (xs ! i) = sum_list (map f xs) + (f x :: 'b :: comm_monoid_add)"
proof (induction xs arbitrary: i)
  case (Cons y ys)
  then show ?case by (cases i) (simp_all add: ac_simps)
qed simp

lemma pending_set_worker:
  "i < length (workers s) \<Longrightarrow> pending (set_worker i w s) + held (workers s ! i) = pending s + held w"
  by (simp add: pending_def set_worker_def sum_list_set)

lemma set_worker_simps [simp]:
  "request_rows (set_worker i w s) = request_rows s"
  "lock_owner (set_worker i w s) = lock_owner s"
  "clock (set_worker i w s) = clock s"
  "workers (set_worker i w s) = (workers s)[i := w]"
  by (simp_all add: set_worker_def)

lemma pending_frame [simp]:
  "pending (s\<lparr>clock := c\<rparr>) = pending s"
  "pending (s\<lparr>lock_owner := l\<rparr>) = pending s"
  "pending (s\<lparr>request_rows := rs\<rparr>) = pending s"
  by (simp_all add: pending_def)

lemma step_conserves:
  assumes "bench_step ms me s e s'"
  shows "mset (request_rows s') + pending s' = mset (request_rows s) + pending s + mset (measured_rows [e])"
  using assms
proof (cases rule: bench_step.cases)
  case (append_release i row k)
  let ?s = "s\<lparr>request_rows := request_rows s @ [row], lock_owner := None\<rparr>"
  have "pending s' + {#row#} = pending s"
    using pending_set_worker [of i ?s "\<lparr>pc = Testing, connected = k\<rparr>"] append_release
    by (simp add: held_def)
  then show ?thesis using append_release by (auto simp: measured_rows_def)
next
  case (acquire i row k)
  then show ?thesis
    using pending_set_worker [of i "s\<lparr>lock_owner := Some i\<rparr>" "\<lparr>pc = Appending row, connected = k\<rparr>"]
    by (simp add: held_def measured_rows_def)
next
  case (measured i k outcome t0 t1 k' success status latency err row timestamp)
  then show ?thesis
    using pending_set_worker [of i s "\<lparr>pc = Waiting row, connected = k'\<rparr>"]
    by (simp add: held_def measured_rows_def)
next
  case (enter i k)
  then show ?thesis using pending_set_worker [of i s "\<lparr>pc = Reading, connected = k\<rparr>"]
    by (simp add: held_def measured_rows_def)
next
  case (leave i k)
  then show ?thesis using pending_set_worker [of i s "\<lparr>pc = Finished, connected = False\<rparr>"]
    by (simp add: held_def measured_rows_def)
next
  case (read i k)
  then show ?thesis
    using pending_set_worker [of i s "\<lparr>pc = Requesting (dle ms (clock s)), connected = k\<rparr>"]
    by (simp add: held_def measured_rows_def)
next
  case (refused i m)
  then show ?thesis using pending_set_worker [of i s "\<lparr>pc = Crashed, connected = False\<rparr>"]
    by (simp add: held_def measured_rows_def)
next
  case (warmed i k outcome t0 t1 k' success status latency err)
  then show ?thesis using pending_set_worker [of i s "\<lparr>pc = Testing, connected = k'\<rparr>"]
    by (simp add: held_def measured_rows_def)
qed (simp add: measured_rows_def)

lemma measured_rows_snoc: "measured_rows (es @ [e]) = measured_rows es @ measured_rows [e]"
  by (simp add: measured_rows_def)

lemma run_conserves:
  "bench_run ms me s es s' \<Longrightarrow>
     mset (request_rows s') + pending s' = mset (request_rows s) + pending s + mset (measured_rows es)"
proof (induction rule: bench_run.induct)
  case (step es s' e s'')
  then show ?case using step_conserves [OF step.hyps(2)] by (simp add: measured_rows_snoc)
qed (simp add: measured_rows_def)

lemma sum_list_empty [simp]: "sum_list (replicate n {#}) = {#}"
  by (induction n) simp_all

lemma pending_init [simp]: "pending (bench_init n now) = {#}"
  by (simp add: pending_def bench_init_def held_def)

lemma rows_init: "request_rows (bench_init n now) = []"
  by (simp add: bench_init_def)

lemma pending_finished: "all_finished s \<Longrightarrow> pending s = {#}"
proof -
  assume "all_finished s"
  then have "map held (workers s) = map (\<lambda>_. {#}) (workers s)"
    by (auto simp: all_finished_def held_def list_all_iff)
  then show ?thesis unfolding pending_def by (simp only:) (simp add: map_replicate_const)
qed

text \<open>The lock is held exactly by the one worker that is appending.\<close>

definition lock_ok :: "bench \<Rightarrow> bool" where
  "lock_ok s \<longleftrightarrow> (\<forall>i < length (workers s). (\<exists>r. pc (workers s ! i) = Appending r) \<longleftrightarrow> lock_owner s = Some i) \<and>
     (\<forall>i. lock_owner s = Some i \<longrightarrow> i < length (workers s))"

lemma step_lock_ok:
  assumes "bench_step ms me s e s'" and "lock_ok s"
  shows "lock_ok s'"
  using assms
proof (cases rule: bench_step.cases)
  case (append_release i row k)
  then have "lock_owner s = Some i" using assms(2) by (auto simp: lock_ok_def)
  then have "\<forall>j < length (workers s). j \<noteq> i \<longrightarrow> \<not> (\<exists>r. pc (workers s ! j) = Appending r)"
    using assms(2) by (auto simp: lock_ok_def)
  with append_release show ?thesis by (auto simp: lock_ok_def nth_list_update)
qed (auto simp: lock_ok_def nth_list_update)

text \<open>Nothing is measured before the warm-up is over.\<close>

definition late :: "worker_pc \<Rightarrow> bool" where
  "late p = (case p of Requesting m \<Rightarrow> m | Waiting _ \<Rightarrow> True | Appending _ \<Rightarrow> True | _ \<Rightarrow> False)"

definition warm_ok :: "dbl \<Rightarrow> bench \<Rightarrow> bool" where
  "warm_ok ms s \<longleftrightarrow> clock s \<noteq> NaN \<and>
     (request_rows s \<noteq> [] \<or> (\<exists>w \<in> set (workers s). late (pc w)) \<longrightarrow> dle ms (clock s))"

lemma dle_trans: "dle a b \<Longrightarrow> dle b c \<Longrightarrow> dle a c"
proof -
  assume ab: "dle a b" and bc: "dle b c"
  have "x \<noteq> NaN \<and> y \<noteq> NaN" if "dle x y" for x y
    using that by (cases x; cases y) (auto simp: dle_def deq_def)
  with ab bc have nn: "a \<noteq> NaN" "b \<noteq> NaN" "c \<noteq> NaN" by blast+
  have le: "dle x y \<longleftrightarrow> rank x \<le> rank y" if "x \<noteq> NaN" "y \<noteq> NaN" for x y
    using that by (auto simp: dle_def dlt_rank deq_rank)
  show ?thesis using ab bc nn by (simp add: le)
qed

lemma late_update: "i < length ws \<Longrightarrow> (\<exists>w \<in> set (ws[i := v]). late (pc w)) \<Longrightarrow>
    late (pc v) \<or> (\<exists>w \<in> set ws. late (pc w))"
  using set_update_subset_insert [of ws i v] by blast

lemma late_measured: "warm_ok ms s \<Longrightarrow> i < length (workers s) \<Longrightarrow> late (pc (workers s ! i)) \<Longrightarrow> dle ms (clock s)"
  using nth_mem [of i "workers s"] by (auto simp: warm_ok_def)

lemma step_warm_ok:
  assumes "bench_step ms me s e s'" and "warm_ok ms s"
  shows "warm_ok ms s'"
  using assms
proof (cases rule: bench_step.cases)
  case (tick c)
  then show ?thesis using assms(2) dle_trans by (auto simp: warm_ok_def)
next
  case (measured i k outcome t0 t1 k' success status latency err row timestamp)
  then have "late (pc (workers s ! i))" by (simp add: late_def)
  then have "dle ms (clock s)" using late_measured [OF assms(2)] measured by blast
  with measured assms(2) show ?thesis by (simp add: warm_ok_def)
next
  case (acquire i row k)
  then have "late (pc (workers s ! i))" by (simp add: late_def)
  then have "dle ms (clock s)" using late_measured [OF assms(2)] acquire by blast
  with acquire assms(2) show ?thesis by (simp add: warm_ok_def)
next
  case (append_release i row k)
  then have "late (pc (workers s ! i))" by (simp add: late_def)
  then have "dle ms (clock s)" using late_measured [OF assms(2)] append_release by blast
  with append_release assms(2) show ?thesis by (simp add: warm_ok_def)
next
  case (read i k)
  with assms(2) show ?thesis
    using late_update [of i "workers s"] by (fastforce simp: warm_ok_def late_def)
qed (use assms(2) late_update [of _ "workers s"] in \<open>fastforce simp: warm_ok_def late_def\<close>)+

lemma run_invariants:
  assumes "bench_run ms me s es s'" and "lock_ok s" and "warm_ok ms s"
  shows "lock_ok s' \<and> warm_ok ms s'"
  using assms by (induction rule: bench_run.induct) (auto intro: step_lock_ok step_warm_ok)

lemma init_invariants: "now \<noteq> NaN \<Longrightarrow> lock_ok (bench_init n now) \<and> warm_ok ms (bench_init n now)"
  by (auto simp: lock_ok_def warm_ok_def bench_init_def late_def)

text \<open>A worker leaves its loop only when the deadline has passed.\<close>

definition stop_ok :: "dbl \<Rightarrow> bench \<Rightarrow> bool" where
  "stop_ok me s \<longleftrightarrow> clock s \<noteq> NaN \<and> ((\<exists>w \<in> set (workers s). pc w = Finished) \<longrightarrow> \<not> dlt (clock s) me)"

lemma tick_stop_ok: "stop_ok me s \<Longrightarrow> c \<noteq> NaN \<Longrightarrow> dle (clock s) c \<Longrightarrow> stop_ok me (s\<lparr>clock := c\<rparr>)"
  unfolding stop_ok_def dle_def
  by (cases "me = NaN") (auto simp: dlt_rank deq_rank, (cases c; simp)+)

lemma step_stop_ok:
  assumes "bench_step ms me s e s'" and "stop_ok me s"
  shows "stop_ok me s'"
  using assms
proof (cases rule: bench_step.cases)
  case (tick c)
  then show ?thesis using assms(2) tick_stop_ok by simp
next
  case (leave i k)
  then show ?thesis using assms(2) by (auto simp: stop_ok_def)
qed (use assms(2) set_update_subset_insert in \<open>fastforce simp: stop_ok_def\<close>)+

lemma run_stop_ok: "bench_run ms me s es s' \<Longrightarrow> stop_ok me s \<Longrightarrow> stop_ok me s'"
  by (induction rule: bench_run.induct) (auto intro: step_stop_ok)

lemma init_stop_ok: "now \<noteq> NaN \<Longrightarrow> stop_ok me (bench_init n now)"
  by (auto simp: stop_ok_def bench_init_def)

text \<open>A worker that did not leave its loop was ended by its connection object.\<close>

definition crashed :: "bench \<Rightarrow> nat" where
  "crashed s = length (filter (\<lambda>w. pc w = Crashed) (workers s))"

lemma crashed_set_worker:
  "i < length (workers s) \<Longrightarrow> crashed (set_worker i w s) + (if pc (workers s ! i) = Crashed then 1 else 0) =
     crashed s + (if pc w = Crashed then 1 else 0)"
proof -
  have len: "length (filter P xs) = sum_list (map (\<lambda>x. if P x then 1 else 0) xs)" for P and xs :: "worker list"
    by (induction xs) simp_all
  show "i < length (workers s) \<Longrightarrow> ?thesis" unfolding crashed_def len
    using sum_list_set [of i "workers s" "\<lambda>w. if pc w = Crashed then 1 else 0 :: nat" w] by simp
qed

lemma step_crashed:
  assumes "bench_step ms me s e s'"
  shows "crashed s' = crashed s + (if e = Refused then 1 else 0)"
  using assms
proof (cases rule: bench_step.cases)
  case (tick c)
  then show ?thesis by (simp add: crashed_def)
next
  case (acquire i row k)
  then show ?thesis
    using crashed_set_worker [of i "s\<lparr>lock_owner := Some i\<rparr>" "\<lparr>pc = Appending row, connected = k\<rparr>"]
    by (simp add: crashed_def)
next
  case (append_release i row k)
  then show ?thesis
    using crashed_set_worker [of i "s\<lparr>request_rows := request_rows s @ [row], lock_owner := None\<rparr>" "\<lparr>pc = Testing, connected = k\<rparr>"]
    by (simp add: crashed_def)
qed (use crashed_set_worker [of _ s] in \<open>fastforce\<close>)+

lemma run_crashed: "bench_run ms me s es s' \<Longrightarrow> crashed s' = crashed s + length (filter (\<lambda>e. e = Refused) es)"
  by (induction rule: bench_run.induct) (simp_all add: step_crashed)

lemma run_workers: "bench_run ms me s es s' \<Longrightarrow> length (workers s') = length (workers s)"
  by (induction rule: bench_run.induct) (auto elim: bench_stepE)

lemma init_crashed: "crashed (bench_init n now) = 0"
  by (simp add: crashed_def bench_init_def)

section \<open>Percentiles\<close>

lemma index_rounded:
  assumes "0 \<le> q" and "q \<le> 1" and "n \<le> 2 ^ 53"
  shows "dmul (Fin q) (dbl_of_int (int n)) = Fin (fl (q * of_nat n))"
proof -
  have n: "(of_nat n :: rat) \<le> 2 ^ 53" using assms(3) by (metis of_nat_le_iff of_nat_numeral of_nat_power)
  have "q * of_nat n \<le> 1 * of_nat n" using assms(2) by (intro mult_right_mono) simp_all
  then have "rnd (q * of_nat n) = Fin (fl (q * of_nat n))"
    using assms(1) n by (intro rnd_small) auto
  then show ?thesis
    using assms by (auto simp: dmul_def dbl_of_small_nat is_zero_def sign_bit_def zero_of_def Let_def)
qed

lemma list_index_nat: "k < length xs \<Longrightarrow> list_index xs (int k) = Inr (xs ! k)"
  by (simp add: list_index_def)

lemma percentile_cases:
  assumes "vals \<noteq> []" and "length vals \<le> 2 ^ 53" and "0 \<le> q" and "q \<le> 1"
  defines "n \<equiv> length vals - 1"
  obtains lo up where "lo \<le> up" and "up \<le> n" and "\<lfloor>fl (q * of_nat n)\<rfloor> = int lo"
    and "\<lceil>fl (q * of_nat n)\<rceil> = int up"
    and "percentile vals (Fin q) =
      (let xs = py_sorted dlt vals; weight = dsub (Fin (fl (q * of_nat n))) (dbl_of_int (int lo))
       in Inr (if lo = up then xs ! lo
          else dadd (dmul (xs ! lo) (dsub (Fin 1) weight)) (dmul (xs ! up) weight)))"
proof -
  have n: "n \<le> 2 ^ 53" using assms(2) by (simp add: n_def)
  have q: "0 \<le> q * of_nat n" "q * of_nat n \<le> of_nat n"
    using assms(3,4) by (simp_all add: mult_left_le_one_le)
  note b = binary64.floor_ceiling_bounds [OF q n]
  obtain lo up where lu: "\<lfloor>fl (q * of_nat n)\<rfloor> = int lo" "\<lceil>fl (q * of_nat n)\<rceil> = int up"
    using b by (metis nonneg_int_cases order_trans)
  then have le: "lo \<le> up" "up \<le> n" using b by simp_all
  have "percentile vals (Fin q) =
      (let xs = py_sorted dlt vals; weight = dsub (Fin (fl (q * of_nat n))) (dbl_of_int (int lo))
       in Inr (if lo = up then xs ! lo
          else dadd (dmul (xs ! lo) (dsub (Fin 1) weight)) (dmul (xs ! up) weight)))"
  proof (cases "length vals = 1")
    case True
    then have "lo = 0" "up = 0" using le by (simp_all add: n_def)
    with True assms(1) show ?thesis by (simp add: percentile_def)
  next
    case False
    have len: "int (length vals) - 1 = int n" using assms(1) by (cases vals) (simp_all add: n_def)
    have "lo < length (py_sorted dlt vals)" "up < length (py_sorted dlt vals)"
      using le assms(1) by (cases vals; simp add: n_def)+
    then show ?thesis
      using False assms(1) index_rounded [OF assms(3,4) n] lu
      by (simp add: percentile_def len dfloor_def dceil_def list_index_nat Let_def)
  qed
  with le lu that show thesis by blast
qed

section \<open>Properties\<close>

lemma bench_cells_fit: "row_fits BENCH_FIELDS (bench_cells r)"
  by (auto simp: row_fits_def bench_cells_def BENCH_FIELDS_def dict_wf_def dict_keys_def row_get_def dict_get_def)

text \<open>C3: no measured request is lost or counted twice, however the workers interleave: when all of
  them have stopped, the rows of \<open>bench_requests.csv\<close> are exactly the requests whose measurement
  was begun after the warm-up, in ascending order of their time stamps, and the summary counts them.\<close>

theorem bench_records_every_request:
  assumes run: "bench_run ms me (bench_init n now) es s" and fin: "all_finished s"
    and res: "bench_finish args wall s = Inr (f, summary)"
  shows "\<exists>rows. dict_reader f = map bench_cells rows \<and> mset rows = mset (measured_rows es) \<and>
    sorted (map ts_unix_ms rows) \<and> total_requests summary = length (measured_rows es) \<and>
    successful_requests summary = length (filter ok (measured_rows es))"
proof -
  let ?rows = "sort_key ts_unix_ms (request_rows s)"
  have m: "mset ?rows = mset (measured_rows es)"
    using run_conserves [OF run] pending_finished [OF fin] rows_init by simp
  have "list_all (row_fits BENCH_FIELDS) (map bench_cells ?rows)"
    by (simp add: list_all_iff bench_cells_fit)
  moreover have f: "f = fst (dict_write BENCH_FIELDS (map bench_cells ?rows))"
    and sm: "summarise args wall ?rows = Inr summary"
    using res by (auto simp: bench_finish_def Let_def bind_result_Inr)
  moreover have "BENCH_FIELDS \<noteq> []" by (simp add: BENCH_FIELDS_def)
  ultimately have "dict_reader f = map bench_cells ?rows"
    using dict_reader_write by blast
  moreover have "total_requests summary = length ?rows \<and> successful_requests summary = length (filter ok ?rows)"
    using sm by (auto simp: summarise_def Let_def bind_result_Inr)
  moreover have "length ?rows = length (measured_rows es)"
    and "length (filter ok ?rows) = length (filter ok (measured_rows es))"
    using arg_cong [OF m, of size] arg_cong [OF m, of "\<lambda>M. size (filter_mset ok M)"]
    by (simp_all only: size_mset mset_filter [symmetric])
  ultimately show ?thesis using m sorted_sort_key by auto
qed

text \<open>C14: in every reachable state at most one worker is inside the critical section, no row exists
before the clock has reached the end of the warm-up, and a worker that has left its loop did so at or
after the deadline. A worker that stopped in any other way was ended by an exception of its connection
object: there are exactly as many such workers as the run has refusals, and no worker gets lost.\<close>

theorem bench_safety:
  assumes "bench_run ms me (bench_init n now) es s" and "now \<noteq> NaN"
  shows "(\<forall>i j r q. i < length (workers s) \<and> j < length (workers s) \<and>
      pc (workers s ! i) = Appending r \<and> pc (workers s ! j) = Appending q \<longrightarrow> i = j) \<and>
    (request_rows s \<noteq> [] \<longrightarrow> dle ms (clock s)) \<and>
    ((\<exists>w \<in> set (workers s). pc w = Finished) \<longrightarrow> \<not> dlt (clock s) me) \<and>
    length (filter (\<lambda>w. pc w = Crashed) (workers s)) = length (filter (\<lambda>e. e = Refused) es) \<and>
    length (workers s) = n"
proof -
  have lock: "lock_ok s" and "warm_ok ms s"
    using run_invariants [OF assms(1)] init_invariants [OF assms(2)] by blast+
  moreover have "stop_ok me s" using run_stop_ok [OF assms(1)] init_stop_ok [OF assms(2)] by blast
  moreover have "i = j" if "i < length (workers s)" "j < length (workers s)"
    "pc (workers s ! i) = Appending r" "pc (workers s ! j) = Appending q" for i j r q
  proof -
    have "lock_owner s = Some i" and "lock_owner s = Some j" using lock that by (auto simp: lock_ok_def)
    then show ?thesis by simp
  qed
  moreover have "length (filter (\<lambda>w. pc w = Crashed) (workers s)) = length (filter (\<lambda>e. e = Refused) es)"
    using run_crashed [OF assms(1)] init_crashed [of n now] by (simp add: crashed_def)
  moreover have "length (workers s) = n" using run_workers [OF assms(1)] by (simp add: bench_init_def)
  ultimately show ?thesis unfolding warm_ok_def stop_ok_def by blast
qed

section \<open>A concrete run\<close>

definition demo_row :: bench_row where
  "demo_row = \<lparr>ts_unix_ms = 5, ok = True, status_code = 200, latency_ms = ''1.000'', error = []\<rparr>"

definition demo_state :: "worker_pc \<Rightarrow> nat option \<Rightarrow> bench_row list \<Rightarrow> dbl \<Rightarrow> bool \<Rightarrow> bench" where
  "demo_state p l rs c k = \<lparr>workers = [\<lparr>pc = p, connected = k\<rparr>], lock_owner = l, request_rows = rs, clock = c\<rparr>"

definition demo_events :: "event list" where
  "demo_events = [Silent, Silent, Measured demo_row, Silent, Silent, Silent, Silent]"

lemma demo_request:
  "request_once (Responded 200 0) (Fin 0) (Fin (1 / 1000)) = (True, True, 200, Fin 1, [])"
  "fmt_fixed 3 (Fin 1) = ''1.000''"
  by (simp_all add: request_once_def float_eval print_eval eval_nat_numeral)

lemma demo_run:
  "bench_run (Fin 0) (Fin 10) (bench_init 1 (Fin 0)) demo_events (demo_state Finished None [demo_row] (Fin 20) False)"
proof -
  note run = bench_run.step [of "Fin 0" "Fin 10"]
  have "bench_run (Fin 0) (Fin 10) (bench_init 1 (Fin 0)) [] (demo_state Testing None [] (Fin 0) False)"
    using bench_run.start [of "Fin 0" "Fin 10" "bench_init 1 (Fin 0)"] by (simp add: bench_init_def demo_state_def)
  moreover have "bench_step (Fin 0) (Fin 10) (demo_state Testing None [] (Fin 0) False) Silent
      (demo_state Reading None [] (Fin 0) False)"
    using bench_step.enter [of 0 "demo_state Testing None [] (Fin 0) False" False "Fin 10" "Fin 0"]
    by (simp add: demo_state_def set_worker_def)
  moreover have "bench_step (Fin 0) (Fin 10) (demo_state Reading None [] (Fin 0) False) Silent
      (demo_state (Requesting True) None [] (Fin 0) False)"
    using bench_step.read [of 0 "demo_state Reading None [] (Fin 0) False" False "Fin 0" "Fin 10"]
    by (simp add: demo_state_def set_worker_def dle_def deq_def)
  moreover have "bench_step (Fin 0) (Fin 10) (demo_state (Requesting True) None [] (Fin 0) False) (Measured demo_row)
      (demo_state (Waiting demo_row) None [] (Fin 0) True)"
    using bench_step.measured [OF _ _ demo_request(1), of 0 "demo_state (Requesting True) None [] (Fin 0) False" False
      demo_row 5 "Fin 0" "Fin 10"]
    by (simp add: demo_state_def set_worker_def make_row_def demo_row_def demo_request(2))
  moreover have "bench_step (Fin 0) (Fin 10) (demo_state (Waiting demo_row) None [] (Fin 0) True) Silent
      (demo_state (Appending demo_row) (Some 0) [] (Fin 0) True)"
    using bench_step.acquire [of 0 "demo_state (Waiting demo_row) None [] (Fin 0) True" demo_row True "Fin 0" "Fin 10"]
    by (simp add: demo_state_def set_worker_def)
  moreover have "bench_step (Fin 0) (Fin 10) (demo_state (Appending demo_row) (Some 0) [] (Fin 0) True) Silent
      (demo_state Testing None [demo_row] (Fin 0) True)"
    using bench_step.append_release [of 0 "demo_state (Appending demo_row) (Some 0) [] (Fin 0) True" demo_row True "Fin 0" "Fin 10"]
    by (simp add: demo_state_def set_worker_def)
  moreover have "bench_step (Fin 0) (Fin 10) (demo_state Testing None [demo_row] (Fin 0) True) Silent
      (demo_state Testing None [demo_row] (Fin 20) True)"
    using bench_step.tick [of "Fin 20" "demo_state Testing None [demo_row] (Fin 0) True" "Fin 0" "Fin 10"]
    by (simp add: demo_state_def dle_def)
  moreover have "bench_step (Fin 0) (Fin 10) (demo_state Testing None [demo_row] (Fin 20) True) Silent
      (demo_state Finished None [demo_row] (Fin 20) False)"
    using bench_step.leave [of 0 "demo_state Testing None [demo_row] (Fin 20) True" True "Fin 10" "Fin 0"]
    by (simp add: demo_state_def set_worker_def)
  ultimately have "bench_run (Fin 0) (Fin 10) (bench_init 1 (Fin 0))
      ((((((([] @ [Silent]) @ [Silent]) @ [Measured demo_row]) @ [Silent]) @ [Silent]) @ [Silent]) @ [Silent])
      (demo_state Finished None [demo_row] (Fin 20) False)"
    by (iprover intro: run)
  then show ?thesis by (simp add: demo_events_def)
qed

theorem bench_safety_witness:
  "dle (Fin 0) (clock (demo_state Finished None [demo_row] (Fin 20) False)) \<and>
   \<not> dlt (clock (demo_state Finished None [demo_row] (Fin 20) False)) (Fin 10)"
  using bench_safety [OF demo_run] by (simp add: demo_state_def)

definition demo_bench_args :: bench_args where
  "demo_bench_args = \<lparr>url = [], warmup_seconds = Fin 0, duration_seconds = Fin 0, concurrency_arg = 1\<rparr>"

lemma demo_finish:
  "\<exists>f summary. bench_finish demo_bench_args (Fin 0) (demo_state Finished None [demo_row] (Fin 20) False) = Inr (f, summary)"
proof -
  have "py_float ''1.000'' = Some (rnd 1)"
    using py_float_fmt [of 1 3] by (simp add: demo_request(2) float_eval)
  then have "map_result read_latency [demo_row] = Inr [rnd 1]"
    by (simp add: read_latency_def demo_row_def)
  moreover have "count_ratio 1 1 = Inr (Fin (fl 1))" using count_ratio_unit [of 1 1] by simp
  ultimately show ?thesis
    by (simp add: bench_finish_def summarise_def demo_state_def demo_bench_args_def percentile_def dmul_def
        dadd_def is_zero_def sign_bit_def zero_of_def rnd_def dtrunc_def Let_def demo_row_def py_sorted_def)
qed

theorem bench_records_every_request_witness:
  "\<exists>f summary rows. bench_finish demo_bench_args (Fin 0) (demo_state Finished None [demo_row] (Fin 20) False) = Inr (f, summary) \<and>
     dict_reader f = map bench_cells rows \<and> mset rows = {#demo_row#} \<and> total_requests summary = 1"
proof -
  obtain f summary where fin: "bench_finish demo_bench_args (Fin 0) (demo_state Finished None [demo_row] (Fin 20) False) = Inr (f, summary)"
    using demo_finish by blast
  have "all_finished (demo_state Finished None [demo_row] (Fin 20) False)"
    by (simp add: all_finished_def demo_state_def)
  from bench_records_every_request [OF demo_run this fin] fin show ?thesis
    by (auto simp: measured_rows_def demo_events_def)
qed

text \<open>A worker that neither waits for the lock nor has stopped can always take a step of its own.\<close>

definition moves :: "dbl \<Rightarrow> dbl \<Rightarrow> bench \<Rightarrow> nat \<Rightarrow> bool" where
  "moves ms me s i \<longleftrightarrow> i < length (workers s) \<and> (\<exists>e s'. bench_step ms me s e s' \<and> pc (workers s' ! i) \<noteq> pc (workers s ! i))"

lemma move: "bench_step ms me s e s' \<Longrightarrow> i < length (workers s) \<Longrightarrow> pc (workers s' ! i) \<noteq> pc (workers s ! i) \<Longrightarrow> moves ms me s i"
  by (auto simp: moves_def)

lemma testing_moves:
  assumes i: "i < length (workers s)" and w: "workers s ! i = \<lparr>pc = Testing, connected = k\<rparr>"
  shows "moves ms me s i"
proof (cases "dlt (clock s) me")
  case True
  show ?thesis by (rule move [OF bench_step.enter [OF i w True] i]) (use i w in simp)
next
  case False
  show ?thesis by (rule move [OF bench_step.leave [OF i w False] i]) (use i w in simp)
qed

lemma requesting_moves:
  assumes i: "i < length (workers s)" and w: "workers s ! i = \<lparr>pc = Requesting m, connected = k\<rparr>"
  shows "moves ms me s i"
proof -
  have req: "request_once (Raised []) t t = (False, False, 0, dmul (dsub t t) (Fin 1000), [])" for t
    by (simp add: request_once_def)
  show ?thesis
  proof (cases m)
    case True
    with w have w': "workers s ! i = \<lparr>pc = Requesting True, connected = k\<rparr>" by simp
    show ?thesis by (rule move [OF bench_step.measured [OF i w' req refl] i]) (use i w in simp)
  next
    case False
    with w have w': "workers s ! i = \<lparr>pc = Requesting False, connected = k\<rparr>" by simp
    show ?thesis by (rule move [OF bench_step.warmed [OF i w' req] i]) (use i w in simp)
  qed
qed

lemma worker_moves:
  assumes i: "i < length (workers s)" and "pc (workers s ! i) \<notin> {Finished, Crashed}"
    and "\<And>r. pc (workers s ! i) = Waiting r \<Longrightarrow> lock_owner s = None"
  shows "moves ms me s i"
proof -
  obtain p k where w: "workers s ! i = \<lparr>pc = p, connected = k\<rparr>" by (cases "workers s ! i") auto
  show ?thesis
  proof (cases p)
    case Testing
    with w show ?thesis by (intro testing_moves [OF i]) simp
  next
    case Reading
    show ?thesis by (rule move [OF bench_step.read [OF i w [unfolded Reading]] i]) (use i w Reading in simp)
  next
    case (Requesting m)
    with w show ?thesis by (intro requesting_moves [OF i]) simp
  next
    case (Waiting r)
    have free: "lock_owner s = None" using assms(3) w Waiting by simp
    show ?thesis by (rule move [OF bench_step.acquire [OF i w [unfolded Waiting] free] i]) (use i w Waiting in simp)
  next
    case (Appending r)
    show ?thesis by (rule move [OF bench_step.append_release [OF i w [unfolded Appending]] i]) (use i w Appending in simp)
  qed (use assms(2) w in simp_all)
qed

text \<open>C15: no deadlock: in every reachable state in which some worker has not stopped, some worker can
  take a step (a waiting one may be blocked by the lock, but then its owner can append and release
  it).\<close>

theorem bench_no_deadlock:
  assumes "bench_run ms me (bench_init n now) es s" and "now \<noteq> NaN" and "\<not> all_finished s"
  shows "\<exists>i e s'. i < length (workers s) \<and> bench_step ms me s e s' \<and> pc (workers s' ! i) \<noteq> pc (workers s ! i)"
proof -
  have lock: "lock_ok s" using run_invariants [OF assms(1)] init_invariants [OF assms(2)] by blast
  obtain i where i: "i < length (workers s)" and nf: "pc (workers s ! i) \<notin> {Finished, Crashed}"
    using assms(3) by (auto simp: all_finished_def list_all_length)
  have "\<exists>j. moves ms me s j"
  proof (cases "lock_owner s")
    case None
    then have "moves ms me s i" by (intro worker_moves [OF i nf])
    then show ?thesis ..
  next
    case (Some j)
    then obtain q where "j < length (workers s)" "pc (workers s ! j) = Appending q"
      using lock by (auto simp: lock_ok_def)
    then have "moves ms me s j" by (intro worker_moves) simp_all
    then show ?thesis ..
  qed
  then show ?thesis by (auto simp: moves_def)
qed

theorem bench_no_deadlock_witness:
  "\<exists>e s'. bench_step (Fin 0) (Fin 10) (bench_init 1 (Fin 0)) e s' \<and> pc (workers s' ! 0) \<noteq> Testing"
proof -
  have "\<not> all_finished (bench_init 1 (Fin 0))" by (simp add: all_finished_def bench_init_def)
  from bench_no_deadlock [OF bench_run.start [of "Fin 0" "Fin 10"] _ this]
  show ?thesis by (auto simp: bench_init_def)
qed

text \<open>For up to \<open>2 ^ 53\<close> samples and a ratio between 0 and 1, \<open>percentile\<close> never indexes out of
  range and never raises; where \<open>ratio * (n - 1)\<close> is a whole number \<open>k\<close> it is exactly the sample of
  rank \<open>k\<close>: the minimum at 0, the maximum at 1, the median of an odd number of samples at one half.\<close>

theorem percentile_rank:
  assumes "vals \<noteq> []" and "length vals \<le> 2 ^ 53" and "0 \<le> q" and "q \<le> 1"
  shows "(\<exists>p. percentile vals (Fin q) = Inr p) \<and>
    (q * of_nat (length vals - 1) = of_nat k \<longrightarrow> percentile vals (Fin q) = Inr (py_sorted dlt vals ! k))"
proof -
  let ?n = "length vals - 1"
  obtain lo up where lu: "\<lfloor>fl (q * of_nat ?n)\<rfloor> = int lo" "\<lceil>fl (q * of_nat ?n)\<rceil> = int up"
    and p: "percentile vals (Fin q) =
      (let xs = py_sorted dlt vals; weight = dsub (Fin (fl (q * of_nat ?n))) (dbl_of_int (int lo))
       in Inr (if lo = up then xs ! lo
          else dadd (dmul (xs ! lo) (dsub (Fin 1) weight)) (dmul (xs ! up) weight)))"
    by (rule percentile_cases [OF assms])
  have "lo = k \<and> up = k" if k: "q * of_nat ?n = of_nat k"
  proof -
    have "(of_nat k :: rat) \<le> of_nat ?n"
      using assms(3,4) by (simp add: mult_left_le_one_le flip: k)
    then have "k \<le> 2 ^ 53" using assms(2) by (simp only: of_nat_le_iff)
    then have "fl (of_nat k) = of_nat k" by (rule binary64.small_nat)
    with lu show ?thesis unfolding k by simp
  qed
  then show ?thesis by (auto simp: p Let_def)
qed

theorem percentile_rank_witness:
  "percentile [Fin 3, Fin 1, Fin 2] (Fin (1 / 2)) = Inr (Fin 2)"
proof -
  have "percentile [Fin 3, Fin 1, Fin 2] (Fin (1 / 2)) = Inr (py_sorted dlt [Fin 3, Fin 1, Fin 2] ! 1)"
    using percentile_rank [of "[Fin 3, Fin 1, Fin 2]" "1 / 2" 1] by simp
  then show ?thesis by (simp add: py_sorted_def)
qed

lemma read_latency_fmt: "0 \<le> q \<Longrightarrow> latency_ms r = fmt_fixed 3 (Fin q) \<Longrightarrow> \<exists>x. read_latency r = Inr x"
  using py_float_fmt [of q 3] by (simp add: read_latency_def)

text \<open>The summary of any rows whose latencies were printed from non-negative numbers, for a finite
  wall clock, is computed without an exception; its success rate is the rounded quotient of two
  counts between 0 and 1, and 0 when nothing was measured.\<close>

theorem bench_summary_total:
  assumes n: "length rows \<le> 2 ^ 53"
    and lat: "\<forall>r \<in> set rows. \<exists>q \<ge> 0. latency_ms r = fmt_fixed 3 (Fin q)"
    and start: "dtrunc (dmul (dadd wall (warmup_seconds args)) (Fin 1000)) = Inr a"
    and stop: "dtrunc (dmul (dadd (dadd wall (warmup_seconds args)) (duration_seconds args)) (Fin 1000)) = Inr b"
  shows "\<exists>s r. summarise args wall rows = Inr s \<and> total_requests s = length rows \<and>
    successful_requests s \<le> total_requests s \<and> success_rate s = py_round 6 (Fin r) \<and> 0 \<le> r \<and> r \<le> 1 \<and>
    (rows = [] \<longrightarrow> r = 0)"
proof -
  let ?ok = "filter ok rows"
  let ?r = "if rows = [] then 0 else fl (of_nat (length ?ok) / of_nat (length rows))"
  have "\<exists>y. read_latency x = Inr y" if x: "x \<in> set ?ok" for x
  proof -
    obtain q where "0 \<le> q" "latency_ms x = fmt_fixed 3 (Fin q)" using lat x by auto
    then show ?thesis by (rule read_latency_fmt)
  qed
  then obtain ls where ls: "map_result read_latency ?ok = Inr ls" using map_result_exists by blast
  then have "length ls = length ?ok" by (simp add: map_result_Inr list_all2_lengthD)
  then have len: "length ls \<le> 2 ^ 53" using n length_filter_le [of ok rows] by linarith
  have perc: "\<exists>p. percentile ls (Fin q) = Inr p" if "0 \<le> q" "q \<le> 1" for q
  proof (cases "ls = []")
    case False
    show ?thesis by (rule percentile_cases [OF False len that]) (simp add: Let_def)
  qed (simp add: percentile_def)
  have "0 \<le> (99 / 100 :: rat)" "(99 / 100 :: rat) \<le> 1" "(99 / 100 :: rat) \<le> 2 ^ 53" by simp_all
  then have r99: "ratio_99 = Fin (fl (99 / 100))" "0 \<le> fl (99 / 100)" "fl (99 / 100) \<le> 1"
    using binary64.nonneg [of "99 / 100"] binary64.le_one [of "99 / 100"] rnd_small [of "99 / 100"]
    by (simp_all add: ratio_99_def)
  obtain p50 p99 where p: "percentile ls ratio_50 = Inr p50" "percentile ls ratio_99 = Inr p99"
    using perc [of "1 / 2"] perc [OF r99(2,3)] by (auto simp: ratio_50_def r99(1))
  obtain t where t: "(if dlt (Fin 0) (duration_seconds args)
      then ddiv (dbl_of_int (int (length rows))) (duration_seconds args) else Inr (Fin 0)) = Inr t"
  proof (cases "dlt (Fin 0) (duration_seconds args)")
    case True
    then have "\<not> is_zero (duration_seconds args)" by (auto simp: is_zero_def)
    with True that show thesis by (simp add: ddiv_def Let_def)
  qed (use that in simp)
  have rate: "(if length rows \<noteq> 0 then count_ratio (length ?ok) (length rows) else Inr (Fin 0)) = Inr (Fin ?r)"
    and "0 \<le> ?r" "?r \<le> 1"
    using count_ratio_unit [of "length ?ok" "length rows"] n length_filter_le [of ok rows] by auto
  let ?s = "\<lparr>total_requests = length rows, successful_requests = length ?ok, success_rate = py_round 6 (Fin ?r),
    throughput_rps = py_round 6 t, p50_latency_ms = py_round 3 p50, p99_latency_ms = py_round 3 p99,
    measurement_start_unix_ms = a, measurement_end_unix_ms = b\<rparr>"
  have "summarise args wall rows = Inr ?s"
    unfolding summarise_def Let_def start stop ls p t rate bind_result_simps ..
  then show ?thesis
    using \<open>0 \<le> ?r\<close> \<open>?r \<le> 1\<close> by (intro exI [of _ ?s] exI [of _ ?r]) simp
qed

theorem bench_summary_total_witness:
  "\<exists>s. summarise demo_bench_args (Fin 0) [demo_row] = Inr s \<and> total_requests s = 1"
proof -
  have "\<forall>r \<in> set [demo_row]. \<exists>q \<ge> 0. latency_ms r = fmt_fixed 3 (Fin q)"
    using demo_request(2) by (auto simp: demo_row_def intro!: exI [of _ 1])
  from bench_summary_total [OF _ this, where wall = "Fin 0" and args = demo_bench_args] show ?thesis
    by (auto simp: demo_bench_args_def dadd_def dmul_def rnd_def zero_of_def is_zero_def sign_bit_def dtrunc_def Let_def)
qed

end
