(* ===== verification/Frames.thy ===== *)
theory Frames
  imports Csv_Rows Py_Float
begin

text \<open>
  The data frames of pandas, as an interface: the operations the training and evaluation scripts
  call are the fields of a record, a parameter of their models, and the locale states what the
  scripts rely on. A frame's label and identifier columns hold a text in every row. The tables at
  the end, columns of numbers, texts and missing values, are an implementation of the interface on
  which the models can be evaluated.
\<close>

section \<open>Cells of the written tables\<close>

text \<open>
  A value a script puts into a table: the writers print a float in a way of their own, so the kinds
  are kept apart.
\<close>

datatype item = Text string | Whole int | Float dbl | Absent

type_synonym table = "string list \<times> item list list"

section \<open>The operations\<close>

record ('f, 'c) pandas =
  columns :: "'f \<Rightarrow> string list"
  nrows :: "'f \<Rightarrow> nat"
  column :: "'f \<Rightarrow> string \<Rightarrow> 'c"
  with_column :: "string \<Rightarrow> 'c \<Rightarrow> 'f \<Rightarrow> 'f"
  with_texts :: "string \<Rightarrow> string list \<Rightarrow> 'f \<Rightarrow> 'f result"
  select :: "string list \<Rightarrow> 'f \<Rightarrow> 'f result"
  loc :: "bool list \<Rightarrow> 'f \<Rightarrow> 'f"
  texts :: "'f \<Rightarrow> string \<Rightarrow> string list result"
  numbers :: "'f \<Rightarrow> string \<Rightarrow> dbl list result"
  row_sum :: "dbl list \<Rightarrow> dbl"
  quantile95 :: "dbl list \<Rightarrow> dbl"
  is_numeric :: "'c \<Rightarrow> bool"
  to_numeric :: "'c \<Rightarrow> 'c"
  notna_sum :: "'c \<Rightarrow> nat"
  isna_sum :: "'c \<Rightarrow> nat"
  series_len :: "'c \<Rightarrow> nat"
  get_dummies :: "'f \<Rightarrow> 'f"
  reindex :: "string list \<Rightarrow> 'f \<Rightarrow> 'f result"
  nunique :: "'f \<Rightarrow> string \<Rightarrow> nat result"
  drop_columns :: "string list \<Rightarrow> 'f \<Rightarrow> 'f"
  fillna_zero :: "'f \<Rightarrow> 'f"

text \<open>A column of the encoded frame is a column of the frame or one of its values' indicators.\<close>

definition stems_from :: "string \<Rightarrow> string \<Rightarrow> bool" where
  "stems_from x c \<longleftrightarrow> x = c \<or> take (length c + 1) x = c @ ''_''"

definition keep_masked :: "bool list \<Rightarrow> 'a list \<Rightarrow> 'a list" where
  "keep_masked sel xs = map snd (filter fst (zip sel xs))"

lemma length_keep_masked:
  "length sel = length xs \<Longrightarrow> length (keep_masked sel xs) = length (filter (\<lambda>b. b) sel)"
  by (induction sel xs rule: list_induct2) (simp_all add: keep_masked_def)

lemma keep_masked_map: "keep_masked (map p xs) xs = filter p xs"
  by (induction xs) (simp_all add: keep_masked_def)

section \<open>What the scripts rely on\<close>

text \<open>
  Selecting an unknown column raises \<open>KeyError\<close>; a frame whose columns have distinct names can be
  reindexed; encoding keeps the rows and names every new column after the one it stems from.
\<close>

locale data_frames =
  fixes P :: "('f, 'c) pandas"
  assumes select_missing: "\<not> set cs \<subseteq> set (columns P f) \<Longrightarrow> \<exists>k \<in> set cs - set (columns P f). select P cs f = Inl (KeyError k)"
    and select_present: "distinct (columns P f) \<Longrightarrow> set cs \<subseteq> set (columns P f) \<Longrightarrow>
      \<exists>g. select P cs f = Inr g \<and> columns P g = cs \<and> nrows P g = nrows P f"
    and texts_select: "select P cs f = Inr g \<Longrightarrow> c \<in> set cs \<Longrightarrow> texts P g c = texts P f c"
    and column_select: "select P cs f = Inr g \<Longrightarrow> c \<in> set cs \<Longrightarrow> column P g c = column P f c"
    and select_cong: "nrows P f = nrows P g \<Longrightarrow>
      (\<And>c. c \<in> set cs \<Longrightarrow> (c \<in> set (columns P f) \<longleftrightarrow> c \<in> set (columns P g)) \<and>
        (c \<in> set (columns P f) \<longrightarrow> column P f c = column P g c)) \<Longrightarrow> select P cs f = select P cs g"
    and columns_with: "c \<in> set (columns P f) \<Longrightarrow> columns P (with_column P c v f) = columns P f"
    and nrows_with: "nrows P (with_column P c v f) = nrows P f"
    and column_with: "c \<in> set (columns P f) \<Longrightarrow> c' \<in> set (columns P f) \<Longrightarrow>
      column P (with_column P c v f) c' = (if c' = c then v else column P f c')"
    and nrows_dummies: "nrows P (get_dummies P f) = nrows P f"
    and columns_dummies: "x \<in> set (columns P (get_dummies P f)) \<Longrightarrow> \<exists>c \<in> set (columns P f). stems_from x c"
    and reindex_distinct: "distinct (columns P f) \<Longrightarrow>
      \<exists>g. reindex P cs f = Inr g \<and> columns P g = cs \<and> nrows P g = nrows P f"
    and reindex_shape: "reindex P cs f = Inr g \<Longrightarrow> columns P g = cs \<and> nrows P g = nrows P f"
    and column_reindex: "reindex P cs f = Inr g \<Longrightarrow> c \<in> set cs \<Longrightarrow> c \<in> set (columns P f) \<Longrightarrow>
      column P g c = column P f c"
    and column_reindex_cong: "reindex P cs f = Inr g \<Longrightarrow> reindex P ds f = Inr h \<Longrightarrow> c \<in> set cs \<Longrightarrow>
      c \<in> set ds \<Longrightarrow> column P g c = column P h c"
    and column_drop: "c \<in> set (columns P f) \<Longrightarrow> c \<notin> set cs \<Longrightarrow>
      column P (drop_columns P cs f) c = column P f c"
    and column_fillna_cong: "c \<in> set (columns P f) \<Longrightarrow> c \<in> set (columns P g) \<Longrightarrow>
      column P f c = column P g c \<Longrightarrow> column P (fillna_zero P f) c = column P (fillna_zero P g) c"
    and nunique_present: "distinct (columns P f) \<Longrightarrow> c \<in> set (columns P f) \<Longrightarrow> \<exists>n. nunique P f c = Inr n"
    and columns_drop: "columns P (drop_columns P cs f) = filter (\<lambda>c. c \<notin> set cs) (columns P f)"
    and nrows_drop: "nrows P (drop_columns P cs f) = nrows P f"
    and columns_fillna: "columns P (fillna_zero P f) = columns P f"
    and nrows_fillna: "nrows P (fillna_zero P f) = nrows P f"
    and texts_length: "texts P f c = Inr xs \<Longrightarrow> length xs = nrows P f"
    and texts_present: "c \<in> set (columns P f) \<Longrightarrow> \<exists>xs. texts P f c = Inr xs"
    and texts_missing: "c \<notin> set (columns P f) \<Longrightarrow> texts P f c = Inl (KeyError c)"
    and numbers_length: "numbers P f c = Inr ys \<Longrightarrow> length ys = nrows P f"
    and texts_with_texts: "length xs = nrows P f \<Longrightarrow> \<exists>g. with_texts P c xs f = Inr g \<and> nrows P g = nrows P f \<and>
      texts P g c = Inr xs \<and> (\<forall>c'. c' \<noteq> c \<longrightarrow> texts P g c' = texts P f c')"
    and columns_loc: "columns P (loc P sel f) = columns P f"
    and nrows_loc: "length sel = nrows P f \<Longrightarrow> nrows P (loc P sel f) = length (filter (\<lambda>b. b) sel)"
    and texts_loc: "texts P f c = Inr xs \<Longrightarrow> length sel = nrows P f \<Longrightarrow>
      texts P (loc P sel f) c = Inr (keep_masked sel xs)"

section \<open>Tables\<close>

text \<open>
  An implementation: named columns of equal length. A numeric column has no text in it; converting
  turns a text that is no number into a missing value; indicators follow the numeric columns.
\<close>

datatype tcell = Num dbl | Str string | NA

record tframe =
  rows_of :: nat
  cells_of :: "(string \<times> tcell list) list"

definition tcolumn :: "tframe \<Rightarrow> string \<Rightarrow> tcell list" where
  "tcolumn t c = (case map_of (cells_of t) c of Some xs \<Rightarrow> xs | None \<Rightarrow> replicate (rows_of t) NA)"

definition tcolumns :: "tframe \<Rightarrow> string list" where
  "tcolumns t = map fst (cells_of t)"

definition twith :: "string \<Rightarrow> tcell list \<Rightarrow> tframe \<Rightarrow> tframe" where
  "twith c v t = t\<lparr>cells_of := AList.update c v (cells_of t)\<rparr>"

definition tselect :: "string list \<Rightarrow> tframe \<Rightarrow> tframe result" where
  "tselect cs t = (case filter (\<lambda>c. c \<notin> set (tcolumns t)) cs of
     [] \<Rightarrow> Inr (t\<lparr>cells_of := map (\<lambda>c. (c, tcolumn t c)) cs\<rparr>) | c # _ \<Rightarrow> Inl (KeyError c))"

definition tloc :: "bool list \<Rightarrow> tframe \<Rightarrow> tframe" where
  "tloc sel t = \<lparr>rows_of = length (filter (\<lambda>b. b) sel),
     cells_of = map (\<lambda>(c, xs). (c, keep_masked sel xs)) (cells_of t)\<rparr>"

definition tcell_text :: "tcell \<Rightarrow> string" where
  "tcell_text x = (case x of Str s \<Rightarrow> s | Num (Fin q) \<Rightarrow> int_str \<lfloor>q\<rfloor> | _ \<Rightarrow> [])"

definition tnumber :: "tcell \<Rightarrow> dbl" where
  "tnumber x = (case x of Num d \<Rightarrow> d | _ \<Rightarrow> NaN)"

definition tnumeric :: "tcell list \<Rightarrow> bool" where
  "tnumeric xs = list_all (\<lambda>x. case x of Str _ \<Rightarrow> False | _ \<Rightarrow> True) xs"

definition twith_texts :: "string \<Rightarrow> string list \<Rightarrow> tframe \<Rightarrow> tframe result" where
  "twith_texts c xs t = (if length xs = rows_of t then Inr (twith c (map Str xs) t) else Inl ValueError)"

definition tvalues :: "('a \<Rightarrow> 'b) \<Rightarrow> 'a list \<Rightarrow> nat \<Rightarrow> 'b \<Rightarrow> 'b list" where
  "tvalues g xs n d = take n (map g xs @ replicate n d)"

definition ttexts :: "tframe \<Rightarrow> string \<Rightarrow> string list result" where
  "ttexts t c = (if c \<in> set (tcolumns t) then Inr (tvalues tcell_text (tcolumn t c) (rows_of t) [])
     else Inl (KeyError c))"

definition tnumbers :: "tframe \<Rightarrow> string \<Rightarrow> dbl list result" where
  "tnumbers t c = (if c \<in> set (tcolumns t) then Inr (tvalues tnumber (tcolumn t c) (rows_of t) NaN)
     else Inl (KeyError c))"

definition tto_numeric :: "tcell list \<Rightarrow> tcell list" where
  "tto_numeric = map (\<lambda>x. case x of Str s \<Rightarrow> (case py_float s of Some d \<Rightarrow> Num d | None \<Rightarrow> NA) | _ \<Rightarrow> x)"

definition tdummies :: "tframe \<Rightarrow> tframe" where
  "tdummies t = t\<lparr>cells_of := filter (\<lambda>(c, xs). tnumeric xs) (cells_of t) @
     concat (map (\<lambda>(c, xs). map (\<lambda>v. (c @ ''_'' @ tcell_text v,
           map (\<lambda>x. Num (Fin (if x = v then 1 else 0))) xs))
        (filter (\<lambda>x. x \<noteq> NA) (uniq xs)))
       (filter (\<lambda>(c, xs). \<not> tnumeric xs) (cells_of t)))\<rparr>"

definition treindex :: "string list \<Rightarrow> tframe \<Rightarrow> tframe result" where
  "treindex cs t = (if distinct (tcolumns t) then Inr (t\<lparr>cells_of := map (\<lambda>c.
       (c, case map_of (cells_of t) c of Some xs \<Rightarrow> xs | None \<Rightarrow> replicate (rows_of t) (Num (Fin 0)))) cs\<rparr>)
     else Inl ValueError)"

text \<open>The 0.95 quantile, interpolated between the two neighbours.\<close>

definition tquantile :: "dbl list \<Rightarrow> dbl" where
  "tquantile xs =
     (let s = py_sorted dlt xs; pos = of_nat (95 * (length s - 1)) / 100 :: rat; lo = nat \<lfloor>pos\<rfloor>;
          a = s ! lo; b = s ! min (lo + 1) (length s - 1)
      in if s = [] then NaN else dadd a (dmul (rnd (pos - of_int \<lfloor>pos\<rfloor>)) (dsub b a)))"

definition tables :: "(tframe, tcell list) pandas" where
  "tables = \<lparr>columns = tcolumns, nrows = rows_of, column = tcolumn, with_column = twith, with_texts = twith_texts,
     select = tselect, loc = tloc, texts = ttexts, numbers = tnumbers,
     row_sum = \<lambda>xs. foldl dadd (Fin 0) (filter (\<lambda>x. x \<noteq> NaN) xs),
     quantile95 = tquantile, is_numeric = tnumeric,
     to_numeric = tto_numeric, notna_sum = \<lambda>xs. length (filter (\<lambda>x. x \<noteq> NA) xs),
     isna_sum = \<lambda>xs. length (filter (\<lambda>x. x = NA) xs), series_len = length,
     get_dummies = tdummies, reindex = treindex,
     nunique = \<lambda>t c. if c \<in> set (tcolumns t) then Inr (length (uniq (tcolumn t c))) else Inl (KeyError c),
     drop_columns = \<lambda>cs t. t\<lparr>cells_of := filter (\<lambda>(c, xs). c \<notin> set cs) (cells_of t)\<rparr>,
     fillna_zero = \<lambda>t. t\<lparr>cells_of := map (\<lambda>(c, xs). (c, map (\<lambda>x. if x = NA then Num (Fin 0) else x) xs)) (cells_of t)\<rparr>\<rparr>"

lemmas table_defs = tables_def tcolumns_def tcolumn_def twith_def tselect_def tloc_def ttexts_def tnumbers_def
  tdummies_def treindex_def

lemma tvalues_simps:
  "tvalues g [] n d = replicate n d"
  "tvalues g xs 0 d = []"
  "tvalues g (x # xs) (Suc n) d = g x # tvalues g xs n d"
  by (simp_all add: tvalues_def flip: replicate_Suc)

lemma length_tvalues [simp]: "length (tvalues g xs n d) = n"
  by (simp add: tvalues_def)

lemma keep_masked_tvalues:
  "keep_masked sel (tvalues g xs (length sel) d) = tvalues g (keep_masked sel xs) (length (filter (\<lambda>b. b) sel)) d"
proof (induction sel arbitrary: xs)
  case (Cons b sel)
  show ?case
  proof (cases xs)
    case Nil
    have "keep_masked sel (tvalues g [] (length sel) d) = replicate (length (filter (\<lambda>b. b) sel)) d"
      using Cons.IH [of "[]"] by (simp add: keep_masked_def tvalues_simps)
    then show ?thesis using Nil by (simp add: keep_masked_def tvalues_simps)
  next
    case (Cons x xs')
    then show ?thesis
      using Cons.IH [of xs'] by (simp add: keep_masked_def tvalues_simps)
  qed
qed (simp add: keep_masked_def tvalues_simps)

lemma map_of_keep:
  "map_of (map (\<lambda>(c, xs). (c, g xs)) ps) c = map_option g (map_of ps c)"
  by (induction ps) auto

lemma map_of_filter_keys:
  "c \<notin> set cs \<Longrightarrow> map_of (filter (\<lambda>(c, xs). c \<notin> set cs) ps) c = map_of ps c"
  by (induction ps) auto

lemma ttexts_loc:
  assumes "ttexts t c = Inr xs" and "length sel = rows_of t"
  shows "ttexts (tloc sel t) c = Inr (keep_masked sel xs)"
proof -
  from assms(1) have c: "c \<in> set (tcolumns t)"
    and xs: "xs = tvalues tcell_text (tcolumn t c) (length sel) []"
    by (auto simp: ttexts_def assms(2) split: if_splits)
  from c obtain vs where vs: "map_of (cells_of t) c = Some vs"
    by (auto simp: tcolumns_def dest: weak_map_of_SomeI)
  have "tcolumn (tloc sel t) c = keep_masked sel vs"
    by (simp add: tcolumn_def tloc_def map_of_keep vs)
  moreover have "tcolumns (tloc sel t) = tcolumns t"
    by (simp add: tcolumns_def tloc_def comp_def case_prod_beta')
  ultimately show ?thesis
    using c vs by (simp add: ttexts_def xs keep_masked_tvalues tcolumn_def [of t] tloc_def)
qed

lemma tvalues_full: "length xs = n \<Longrightarrow> tvalues g xs n d = map g xs"
  by (simp add: tvalues_def)

lemma ttexts_with:
  assumes "length xs = rows_of t"
  shows "ttexts (twith c (map Str xs) t) c = Inr xs"
    and "c' \<noteq> c \<Longrightarrow> ttexts (twith c (map Str xs) t) c' = ttexts t c'"
  using assms
  by (simp_all add: ttexts_def tcolumns_def tcolumn_def twith_def update_conv' dom_update tvalues_full
      tcell_text_def comp_def set_eq_subset split: option.split)

lemma tdummies_stem:
  assumes "x \<in> set (tcolumns (tdummies t))"
  shows "\<exists>c \<in> set (tcolumns t). stems_from x c"
proof -
  from assms obtain xs where xs: "(x, xs) \<in> set (cells_of (tdummies t))"
    by (auto simp: tcolumns_def)
  show ?thesis
  proof (cases "(x, xs) \<in> set (cells_of t)")
    case True
    then have "x \<in> set (tcolumns t)" by (force simp: tcolumns_def)
    then show ?thesis by (auto simp: stems_from_def)
  next
    case False
    with xs obtain c ys v where c: "(c, ys) \<in> set (cells_of t)" and x: "x = c @ ''_'' @ v"
      by (auto simp: tdummies_def)
    from c have "c \<in> set (tcolumns t)" by (force simp: tcolumns_def)
    moreover have "stems_from x c" using x by (simp add: stems_from_def)
    ultimately show ?thesis by blast
  qed
qed

lemma tselect_missing:
  assumes "\<not> set cs \<subseteq> set (tcolumns t)"
  shows "\<exists>k \<in> set cs - set (tcolumns t). tselect cs t = Inl (KeyError k)"
proof -
  let ?ms = "filter (\<lambda>c. c \<notin> set (tcolumns t)) cs"
  from assms have "?ms \<noteq> []" by (auto simp: filter_empty_conv)
  then obtain k ks where ms: "?ms = k # ks" by (cases ?ms) auto
  then have "k \<in> set ?ms" by (simp only: list.set_intros)
  then have "k \<in> set cs - set (tcolumns t)" by simp
  then show ?thesis using ms by (auto simp: tselect_def)
qed

lemma tselect_texts:
  assumes "tselect cs t = Inr g" and "c \<in> set cs"
  shows "ttexts g c = ttexts t c"
proof -
  have "set cs \<subseteq> set (tcolumns t)"
    using assms(1) tselect_missing [of cs t] by auto
  moreover have g: "g = t\<lparr>cells_of := map (\<lambda>c. (c, tcolumn t c)) cs\<rparr>"
    using assms(1) by (auto simp: tselect_def split: list.splits)
  moreover have "tcolumn g c = tcolumn t c"
    using assms(2) by (simp add: g tcolumn_def [of "_\<lparr>cells_of := _\<rparr>"] map_of_map_restrict restrict_map_def)
  ultimately show ?thesis using assms(2) by (auto simp: ttexts_def tcolumns_def)
qed

lemma tselect_column: "tselect cs t = Inr g \<Longrightarrow> c \<in> set cs \<Longrightarrow> tcolumn g c = tcolumn t c"
  by (auto simp: tselect_def tcolumn_def [of "_\<lparr>cells_of := _\<rparr>"] map_of_map_restrict restrict_map_def
      split: list.splits)

lemma tselect_cong:
  assumes "rows_of t = rows_of u" and "\<And>c. c \<in> set cs \<Longrightarrow> (c \<in> set (tcolumns t) \<longleftrightarrow> c \<in> set (tcolumns u)) \<and>
    (c \<in> set (tcolumns t) \<longrightarrow> tcolumn t c = tcolumn u c)"
  shows "tselect cs t = tselect cs u"
proof -
  have missing: "filter (\<lambda>c. c \<notin> set (tcolumns t)) cs = filter (\<lambda>c. c \<notin> set (tcolumns u)) cs"
    using assms(2) by (intro filter_cong) auto
  show ?thesis
  proof (cases "filter (\<lambda>c. c \<notin> set (tcolumns u)) cs")
    case Nil
    then have "\<forall>c \<in> set cs. tcolumn t c = tcolumn u c" using assms(2) by (auto simp: filter_empty_conv)
    then have "map (\<lambda>c. (c, tcolumn t c)) cs = map (\<lambda>c. (c, tcolumn u c)) cs" by simp
    then show ?thesis using Nil assms(1) by (simp add: tselect_def missing)
  qed (simp add: tselect_def missing)
qed

interpretation tables: data_frames tables
proof unfold_locales
  fix cs and f g :: tframe
  assume "nrows tables f = nrows tables g" and "\<And>c. c \<in> set cs \<Longrightarrow>
    (c \<in> set (columns tables f) \<longleftrightarrow> c \<in> set (columns tables g)) \<and>
      (c \<in> set (columns tables f) \<longrightarrow> column tables f c = column tables g c)"
  then show "select tables cs f = select tables cs g"
    using tselect_cong [of f g cs] by (simp add: tables_def)
next
  fix cs c and f g :: tframe
  assume "select tables cs f = Inr g" and "c \<in> set cs"
  then show "column tables g c = column tables f c"
    using tselect_column by (simp add: tables_def)
next
  fix cs and f :: tframe
  assume "\<not> set cs \<subseteq> set (columns tables f)"
  then show "\<exists>k \<in> set cs - set (columns tables f). select tables cs f = Inl (KeyError k)"
    using tselect_missing by (simp add: tables_def)
next
  fix sel :: "bool list" and f :: tframe and c xs
  assume "texts tables f c = Inr xs" and "length sel = nrows tables f"
  then show "texts tables (loc tables sel f) c = Inr (keep_masked sel xs)"
    using ttexts_loc by (simp add: tables_def)
next
  fix x and f :: tframe
  assume "x \<in> set (columns tables (get_dummies tables f))"
  then show "\<exists>c \<in> set (columns tables f). stems_from x c"
    using tdummies_stem by (simp add: tables_def)
next
  fix cs and f :: tframe
  assume "set cs \<subseteq> set (columns tables f)"
  then have "filter (\<lambda>c. c \<notin> set (tcolumns f)) cs = []"
    by (auto simp: tables_def filter_empty_conv)
  then show "\<exists>g. select tables cs f = Inr g \<and> columns tables g = cs \<and> nrows tables g = nrows tables f"
    by (simp add: tables_def tselect_def tcolumns_def comp_def)
next
  fix c c' v and f :: tframe
  assume "c \<in> set (columns tables f)" and "c' \<in> set (columns tables f)"
  then show "column tables (with_column tables c v f) c' = (if c' = c then v else column tables f c')"
    by (simp add: tables_def tcolumn_def twith_def update_conv' split: option.split)
next
  fix xs :: "string list" and c and f :: tframe
  assume "length xs = nrows tables f"
  then show "\<exists>g. with_texts tables c xs f = Inr g \<and> nrows tables g = nrows tables f \<and>
      texts tables g c = Inr xs \<and> (\<forall>c'. c' \<noteq> c \<longrightarrow> texts tables g c' = texts tables f c')"
    using ttexts_with [where xs = xs and t = f and c = c] by (simp add: tables_def twith_texts_def) (simp add: twith_def)
next
  fix cs c and f g :: tframe
  assume "select tables cs f = Inr g" and "c \<in> set cs"
  then show "texts tables g c = texts tables f c"
    using tselect_texts by (simp add: tables_def)
next
  fix cs c and f g :: tframe
  assume "reindex tables cs f = Inr g" and "c \<in> set cs" and "c \<in> set (columns tables f)"
  then show "column tables g c = column tables f c"
    by (auto simp: table_defs map_of_map_restrict restrict_map_def eq_key_imp_eq_value split: if_splits option.splits)
next
  fix cs ds c and f g h :: tframe
  assume "reindex tables cs f = Inr g" and "reindex tables ds f = Inr h" and "c \<in> set cs" and "c \<in> set ds"
  then show "column tables g c = column tables h c"
    by (auto simp: table_defs map_of_map_restrict restrict_map_def split: if_splits)
next
  fix cs c and f :: tframe
  assume "c \<in> set (columns tables f)" and "c \<notin> set cs"
  then show "column tables (drop_columns tables cs f) c = column tables f c"
    by (simp add: tables_def tcolumn_def map_of_filter_keys split: option.split)
next
  fix c and f g :: tframe
  assume "c \<in> set (columns tables f)" and "c \<in> set (columns tables g)"
    and "column tables f c = column tables g c"
  then show "column tables (fillna_zero tables f) c = column tables (fillna_zero tables g) c"
    by (auto simp: table_defs map_of_keep dest: weak_map_of_SomeI split: option.splits)
qed (auto simp: table_defs update_keys comp_def case_prod_beta' filter_map split: if_splits)

end
