(* ===== verification/Features.thy ===== *)
theory Features
  imports Frames Dataset_Build
begin

text \<open>
  The feature matrices of \<open>phase4_train_baselines.py\<close>, \<open>phase6_run_generalization.py\<close> and
  \<open>phase6_run_ablation.py\<close>: which columns a classifier sees, how texts become numbers, and how the
  validation and test matrices are brought to the columns of the training matrix.
\<close>

section \<open>Columns no classifier may see\<close>

definition EXCLUDED_COLUMNS :: "string list" where
  "EXCLUDED_COLUMNS =
     [''label'', ''label_source'', ''anomaly_active'', ''recovery_active'', ''split'',
      ''experiment_type'', ''is_baseline_experiment'', ''event_count'', ''experiment_id'',
      ''node_name'', ''node_ip'', ''service_namespace'', ''service_name'', ''service_nodeport'',
      ''source_artifact_dir'', ''traffic_probe_total'', ''traffic_probe_success'',
      ''traffic_probe_success_rate'', ''window_start_unix_ms'', ''window_end_unix_ms'']"

text \<open>The label of a window, and which columns carry it or its origin.\<close>

definition NORMAL_LABEL :: string where
  "NORMAL_LABEL = ''normal''"

definition ANOMALY_LABEL :: string where
  "ANOMALY_LABEL = ''anomaly''"

section \<open>Texts that are numbers\<close>

definition convert_column :: "('f, 'c) pandas \<Rightarrow> string \<Rightarrow> 'f \<Rightarrow> 'f" where
  "convert_column P c out =
     (let series = column P out c
      in if is_numeric P series then out
         else let converted = to_numeric P series
           in if notna_sum P converted + isna_sum P series = series_len P series
              then with_column P c converted out else out)"

definition convert_numeric_like :: "('f, 'c) pandas \<Rightarrow> 'f \<Rightarrow> 'f" where
  "convert_numeric_like P f = fold (convert_column P) (columns P f) f"

text \<open>What becomes of one column: it is converted exactly when no value is lost.\<close>

definition converted_series :: "('f, 'c) pandas \<Rightarrow> 'c \<Rightarrow> 'c" where
  "converted_series P s =
     (if \<not> is_numeric P s \<and> notna_sum P (to_numeric P s) + isna_sum P s = series_len P s
      then to_numeric P s else s)"

section \<open>Training, validation and test matrices (phase 4)\<close>

record 'f matrices =
  train_x :: 'f
  val_x :: 'f
  test_x :: 'f
  raw_feature_columns :: "string list"
  constant_columns :: "string list"
  final_feature_columns :: "string list"

definition raw_features :: "('f, 'c) pandas \<Rightarrow> string list \<Rightarrow> 'f \<Rightarrow> string list" where
  "raw_features P excluded f = filter (\<lambda>c. c \<notin> set excluded) (columns P f)"

definition encoded :: "('f, 'c) pandas \<Rightarrow> string list \<Rightarrow> 'f \<Rightarrow> 'f result" where
  "encoded P feature_columns f =
     bind_result (select P feature_columns f) (\<lambda>g. Inr (get_dummies P (convert_numeric_like P g)))"

definition constant_of :: "('f, 'c) pandas \<Rightarrow> 'f \<Rightarrow> string list result" where
  "constant_of P f =
     bind_result (map_result (\<lambda>c. bind_result (nunique P f c) (\<lambda>n. Inr (c, n \<le> 1))) (columns P f))
       (\<lambda>ps. Inr (map fst (filter snd ps)))"

definition finish_matrix :: "('f, 'c) pandas \<Rightarrow> string list \<Rightarrow> 'f \<Rightarrow> 'f" where
  "finish_matrix P constants f = fillna_zero P (drop_columns P constants f)"

definition build_feature_matrices :: "('f, 'c) pandas \<Rightarrow> 'f \<Rightarrow> 'f \<Rightarrow> 'f \<Rightarrow> 'f matrices result" where
  "build_feature_matrices P train_df val_df test_df =
     (let feature_columns = raw_features P EXCLUDED_COLUMNS train_df in
      bind_result (encoded P feature_columns train_df) (\<lambda>train_encoded.
      bind_result (encoded P feature_columns val_df) (\<lambda>val_raw.
      bind_result (encoded P feature_columns test_df) (\<lambda>test_raw.
      bind_result (reindex P (columns P train_encoded) val_raw) (\<lambda>val_encoded.
      bind_result (reindex P (columns P train_encoded) test_raw) (\<lambda>test_encoded.
      bind_result (constant_of P train_encoded) (\<lambda>constants.
        let final = finish_matrix P constants train_encoded
        in Inr \<lparr>train_x = final, val_x = finish_matrix P constants val_encoded,
             test_x = finish_matrix P constants test_encoded, raw_feature_columns = feature_columns,
             constant_columns = constants, final_feature_columns = columns P final\<rparr>)))))))"

section \<open>The matrix for a trained model (phase 6)\<close>

definition build_feature_matrix ::
  "('f, 'c) pandas \<Rightarrow> 'f \<Rightarrow> string list \<Rightarrow> string list \<Rightarrow> 'f result" where
  "build_feature_matrix P frame excluded final =
     bind_result (encoded P (raw_features P excluded frame) frame) (\<lambda>e.
     bind_result (reindex P final e) (\<lambda>g. Inr (fillna_zero P g)))"

definition build_ablation_matrices ::
  "('f, 'c) pandas \<Rightarrow> 'f \<Rightarrow> 'f \<Rightarrow> 'f \<Rightarrow> string list \<Rightarrow> string list \<Rightarrow> ('f \<times> 'f \<times> 'f) result" where
  "build_ablation_matrices P train_df val_df test_df excluded final =
     (let feature_columns = raw_features P excluded train_df in
      bind_result (encoded P feature_columns train_df) (\<lambda>tr.
      bind_result (encoded P feature_columns val_df) (\<lambda>va.
      bind_result (encoded P feature_columns test_df) (\<lambda>te.
      bind_result (reindex P final tr) (\<lambda>trx.
      bind_result (reindex P final va) (\<lambda>vax.
      bind_result (reindex P final te) (\<lambda>tex.
        Inr (fillna_zero P trx, fillna_zero P vax, fillna_zero P tex))))))))"

text \<open>Frames that differ at most in the columns \<open>cs\<close>.\<close>

definition agree_outside :: "('f, 'c) pandas \<Rightarrow> string list \<Rightarrow> 'f \<Rightarrow> 'f \<Rightarrow> bool" where
  "agree_outside P cs f g \<longleftrightarrow> nrows P f = nrows P g \<and>
     filter (\<lambda>c. c \<notin> set cs) (columns P f) = filter (\<lambda>c. c \<notin> set cs) (columns P g) \<and>
     (\<forall>c \<in> set (columns P f) - set cs. column P f c = column P g c)"

lemma raw_features_agree: "agree_outside P cs f g \<Longrightarrow> raw_features P cs f = raw_features P cs g"
  by (simp add: agree_outside_def raw_features_def)

lemma agree_outside_members:
  assumes "agree_outside P cs f g" and "c \<notin> set cs"
  shows "c \<in> set (columns P f) \<longleftrightarrow> c \<in> set (columns P g)"
proof -
  have "c \<in> set (filter (\<lambda>c. c \<notin> set cs) (columns P f)) \<longleftrightarrow> c \<in> set (filter (\<lambda>c. c \<notin> set cs) (columns P g))"
    using assms(1) by (simp add: agree_outside_def)
  then show ?thesis using assms(2) by simp
qed

section \<open>Lemmas over the interface\<close>

context data_frames
begin

lemma select_agree:
  assumes "agree_outside P cs f g" and "set ds \<inter> set cs = {}"
  shows "select P ds f = select P ds g"
proof (rule select_cong)
  show "nrows P f = nrows P g" using assms(1) by (simp add: agree_outside_def)
  show "(c \<in> set (columns P f) \<longleftrightarrow> c \<in> set (columns P g)) \<and> (c \<in> set (columns P f) \<longrightarrow> column P f c = column P g c)"
    if "c \<in> set ds" for c
    using assms that agree_outside_members [OF assms(1), of c] by (auto simp: agree_outside_def)
qed

lemma encoded_agree:
  "agree_outside P cs f g \<Longrightarrow> set ds \<inter> set cs = {} \<Longrightarrow> encoded P ds f = encoded P ds g"
  using select_agree by (simp add: encoded_def)

lemma convert_column_shape:
  assumes "c \<in> set (columns P f)"
  shows "columns P (convert_column P c f) = columns P f"
    and "nrows P (convert_column P c f) = nrows P f"
    and "c' \<in> set (columns P f) \<Longrightarrow> column P (convert_column P c f) c' =
      (if c' = c then converted_series P (column P f c) else column P f c')"
  using assms by (simp_all add: convert_column_def converted_series_def Let_def columns_with nrows_with column_with)

lemma fold_convert:
  assumes "set cs \<subseteq> set (columns P f)" and "distinct cs"
  shows "columns P (fold (convert_column P) cs f) = columns P f \<and>
    nrows P (fold (convert_column P) cs f) = nrows P f \<and>
    (\<forall>c \<in> set (columns P f). column P (fold (convert_column P) cs f) c =
      (if c \<in> set cs then converted_series P (column P f c) else column P f c))"
  using assms
proof (induction cs arbitrary: f)
  case (Cons a cs)
  then have a: "a \<in> set (columns P f)" by simp
  note step = convert_column_shape [OF a]
  have "set cs \<subseteq> set (columns P (convert_column P a f))" and "distinct cs"
    using Cons.prems by (auto simp: step)
  from Cons.IH [OF this] Cons.prems(2) show ?case by (auto simp: step)
qed simp

lemma convert_shape:
  assumes "distinct (columns P f)"
  shows "columns P (convert_numeric_like P f) = columns P f"
    and "nrows P (convert_numeric_like P f) = nrows P f"
    and "c \<in> set (columns P f) \<Longrightarrow>
      column P (convert_numeric_like P f) c = converted_series P (column P f c)"
  using fold_convert [of "columns P f" f] assms by (simp_all add: convert_numeric_like_def)

lemma encoded_present:
  assumes "distinct (columns P f)" and "distinct cs" and "set cs \<subseteq> set (columns P f)"
  obtains g where "encoded P cs f = Inr g" and "nrows P g = nrows P f"
    and "\<forall>x \<in> set (columns P g). \<exists>c \<in> set cs. stems_from x c"
proof -
  obtain g where g: "select P cs f = Inr g" "columns P g = cs" "nrows P g = nrows P f"
    using select_present [OF assms(1,3)] by blast
  let ?g = "get_dummies P (convert_numeric_like P g)"
  have "encoded P cs f = Inr ?g" by (simp add: encoded_def g)
  moreover have "nrows P ?g = nrows P f"
    using g assms(2) by (simp add: nrows_dummies convert_shape)
  moreover have "\<forall>x \<in> set (columns P ?g). \<exists>c \<in> set cs. stems_from x c"
    using columns_dummies [of _ "convert_numeric_like P g"] g assms(2) by (simp add: convert_shape)
  ultimately show thesis using that by blast
qed

lemma encoded_missing:
  "\<not> set cs \<subseteq> set (columns P f) \<Longrightarrow> \<exists>k \<in> set cs - set (columns P f). encoded P cs f = Inl (KeyError k)"
  using select_missing [of cs f] by (auto simp: encoded_def)

lemma constant_of_present:
  assumes "distinct (columns P f)"
  obtains cs where "constant_of P f = Inr cs" and "set cs \<subseteq> set (columns P f)"
    and "\<forall>c \<in> set (columns P f). \<forall>n. nunique P f c = Inr n \<longrightarrow> (c \<in> set cs \<longleftrightarrow> n \<le> 1)"
proof -
  define n where "n c = projr (nunique P f c)" for c
  have n: "nunique P f c = Inr (n c)" if "c \<in> set (columns P f)" for c
    using nunique_present [OF assms that] by (auto simp: n_def)
  have "constant_of P f = Inr (filter (\<lambda>c. n c \<le> 1) (columns P f))"
  proof -
    have "map_result (\<lambda>c. bind_result (nunique P f c) (\<lambda>m. Inr (c, m \<le> 1))) (columns P f) =
        Inr (map (\<lambda>c. (c, n c \<le> 1)) (columns P f))"
      by (rule map_result_total) (simp add: n)
    then show ?thesis by (simp add: constant_of_def filter_map comp_def)
  qed
  then show thesis using that n by auto
qed

lemma finish_shape:
  "columns P (finish_matrix P cs f) = filter (\<lambda>c. c \<notin> set cs) (columns P f)"
  "nrows P (finish_matrix P cs f) = nrows P f"
  by (simp_all add: finish_matrix_def columns_fillna columns_drop nrows_fillna nrows_drop)

end

section \<open>The matrices the classifiers are trained on\<close>

text \<open>An encoded frame has one column per name; a clash of names makes pandas raise.\<close>

definition unambiguous :: "('f, 'c) pandas \<Rightarrow> string list \<Rightarrow> 'f \<Rightarrow> bool" where
  "unambiguous P cs f \<longleftrightarrow> (case encoded P cs f of Inl _ \<Rightarrow> True | Inr g \<Rightarrow> distinct (columns P g))"

definition matrix_shape :: "('f, 'c) pandas \<Rightarrow> 'f \<Rightarrow> string list \<Rightarrow> nat \<Rightarrow> bool" where
  "matrix_shape P g cs n \<longleftrightarrow> columns P g = cs \<and> nrows P g = n"

definition matrices_ok :: "('f, 'c) pandas \<Rightarrow> 'f \<Rightarrow> 'f \<Rightarrow> 'f \<Rightarrow> 'f matrices \<Rightarrow> bool" where
  "matrices_ok P tr va te m \<longleftrightarrow>
     matrix_shape P (train_x m) (final_feature_columns m) (nrows P tr) \<and>
     matrix_shape P (val_x m) (final_feature_columns m) (nrows P va) \<and>
     matrix_shape P (test_x m) (final_feature_columns m) (nrows P te) \<and>
     raw_feature_columns m = raw_features P EXCLUDED_COLUMNS tr \<and>
     distinct (final_feature_columns m) \<and>
     set (final_feature_columns m) \<inter> set (constant_columns m) = {}"

lemma set_raw_features: "set (raw_features P ex f) = set (columns P f) - set ex"
  by (auto simp: raw_features_def)

context data_frames
begin

text \<open>The steps of a successful run, read off the result.\<close>

lemma build_steps:
  assumes "build_feature_matrices P tr va te = Inr m"
  obtains te0 va0 tr0 va1 te1 where
    "encoded P (raw_features P EXCLUDED_COLUMNS tr) tr = Inr tr0"
    "encoded P (raw_features P EXCLUDED_COLUMNS tr) va = Inr va0"
    "encoded P (raw_features P EXCLUDED_COLUMNS tr) te = Inr te0"
    "reindex P (columns P tr0) va0 = Inr va1" "reindex P (columns P tr0) te0 = Inr te1"
    "constant_of P tr0 = Inr (constant_columns m)"
    "train_x m = finish_matrix P (constant_columns m) tr0"
    "val_x m = finish_matrix P (constant_columns m) va1"
    "test_x m = finish_matrix P (constant_columns m) te1"
    "raw_feature_columns m = raw_features P EXCLUDED_COLUMNS tr"
    "final_feature_columns m = filter (\<lambda>c. c \<notin> set (constant_columns m)) (columns P tr0)"
  using assms unfolding build_feature_matrices_def Let_def
  by (auto simp: bind_result_Inr finish_shape)

lemma encoded_exists:
  assumes "distinct (columns P f)" and "distinct cs" and "set cs \<subseteq> set (columns P f)"
  shows "\<exists>g. encoded P cs f = Inr g"
  using encoded_present [OF assms] by metis

lemma encoded_rows:
  assumes g: "encoded P cs f = Inr g" and d: "distinct cs" "distinct (columns P f)"
  shows "nrows P g = nrows P f" and "set cs \<subseteq> set (columns P f)"
    and "\<forall>x \<in> set (columns P g). \<exists>c \<in> set cs. stems_from x c"
proof -
  show sub: "set cs \<subseteq> set (columns P f)"
  proof (rule ccontr)
    assume "\<not> set cs \<subseteq> set (columns P f)"
    from encoded_missing [OF this] g show False by auto
  qed
  from encoded_present [OF d(2,1) sub] obtain g' where "encoded P cs f = Inr g'" "nrows P g' = nrows P f"
    "\<forall>x \<in> set (columns P g'). \<exists>c \<in> set cs. stems_from x c" .
  then show "nrows P g = nrows P f" and "\<forall>x \<in> set (columns P g). \<exists>c \<in> set cs. stems_from x c"
    using g by auto
qed

lemma distinct_raw: "distinct (columns P f) \<Longrightarrow> distinct (raw_features P ex f)"
  by (simp add: raw_features_def)

lemma build_ok:
  assumes m: "build_feature_matrices P tr va te = Inr m"
    and d: "distinct (columns P tr)" "distinct (columns P va)" "distinct (columns P te)"
    and u: "unambiguous P (raw_features P EXCLUDED_COLUMNS tr) tr"
  shows "matrices_ok P tr va te m"
    and "\<forall>x \<in> set (final_feature_columns m). \<exists>c \<in> set (raw_feature_columns m). stems_from x c"
proof -
  let ?raw = "raw_features P EXCLUDED_COLUMNS tr"
  from m obtain te0 va0 tr0 va1 te1 where
    e: "encoded P ?raw tr = Inr tr0" "encoded P ?raw va = Inr va0" "encoded P ?raw te = Inr te0"
    and r: "reindex P (columns P tr0) va0 = Inr va1" "reindex P (columns P tr0) te0 = Inr te1"
    and x: "train_x m = finish_matrix P (constant_columns m) tr0"
      "val_x m = finish_matrix P (constant_columns m) va1" "test_x m = finish_matrix P (constant_columns m) te1"
    and f: "raw_feature_columns m = ?raw"
      "final_feature_columns m = filter (\<lambda>c. c \<notin> set (constant_columns m)) (columns P tr0)"
    by (rule build_steps)
  note rows = encoded_rows [OF e(1) distinct_raw [OF d(1)] d(1)] encoded_rows [OF e(2) distinct_raw [OF d(1)] d(2)]
    encoded_rows [OF e(3) distinct_raw [OF d(1)] d(3)]
  have "distinct (columns P tr0)" using u e(1) by (simp add: unambiguous_def)
  then show "matrices_ok P tr va te m"
    using reindex_shape [OF r(1)] reindex_shape [OF r(2)] rows
    by (auto simp: matrices_ok_def matrix_shape_def finish_shape x f)
  show "\<forall>x \<in> set (final_feature_columns m). \<exists>c \<in> set (raw_feature_columns m). stems_from x c"
    using encoded_rows(3) [OF e(1) distinct_raw [OF d(1)] d(1)] by (auto simp: f)
qed

lemma build_total:
  assumes d: "distinct (columns P tr)" "distinct (columns P va)" "distinct (columns P te)"
    and u: "unambiguous P (raw_features P EXCLUDED_COLUMNS tr) tr"
      "unambiguous P (raw_features P EXCLUDED_COLUMNS tr) va"
      "unambiguous P (raw_features P EXCLUDED_COLUMNS tr) te"
    and sub: "set (raw_features P EXCLUDED_COLUMNS tr) \<subseteq> set (columns P va) \<inter> set (columns P te)"
  shows "\<exists>m. build_feature_matrices P tr va te = Inr m"
proof -
  let ?raw = "raw_features P EXCLUDED_COLUMNS tr"
  have subs: "set ?raw \<subseteq> set (columns P tr)" "set ?raw \<subseteq> set (columns P va)" "set ?raw \<subseteq> set (columns P te)"
    using sub by (simp_all add: set_raw_features)
  note dr = distinct_raw [OF d(1), of EXCLUDED_COLUMNS]
  from encoded_exists [OF d(1) dr subs(1)] obtain tr0 where tr0: "encoded P ?raw tr = Inr tr0" by (elim exE)
  from encoded_exists [OF d(2) dr subs(2)] obtain va0 where va0: "encoded P ?raw va = Inr va0" by (elim exE)
  from encoded_exists [OF d(3) dr subs(3)] obtain te0 where te0: "encoded P ?raw te = Inr te0" by (elim exE)
  have c: "distinct (columns P tr0)" "distinct (columns P va0)" "distinct (columns P te0)"
    using u tr0 va0 te0 by (simp_all add: unambiguous_def)
  from reindex_distinct [OF c(2), of "columns P tr0"] obtain va1 where "reindex P (columns P tr0) va0 = Inr va1"
    by (elim exE conjE)
  moreover from reindex_distinct [OF c(3), of "columns P tr0"] obtain te1 where "reindex P (columns P tr0) te0 = Inr te1"
    by (elim exE conjE)
  moreover from constant_of_present [OF c(1)] obtain cs where "constant_of P tr0 = Inr cs" .
  ultimately show ?thesis using tr0 va0 te0 by (simp add: build_feature_matrices_def Let_def)
qed

lemma build_missing:
  assumes d: "distinct (columns P tr)" "distinct (columns P va)"
    and sub: "\<not> set (raw_features P EXCLUDED_COLUMNS tr) \<subseteq> set (columns P va) \<inter> set (columns P te)"
  shows "\<exists>k \<in> set (columns P tr) - set EXCLUDED_COLUMNS - set (columns P va) \<inter> set (columns P te).
    build_feature_matrices P tr va te = Inl (KeyError k)"
proof -
  let ?raw = "raw_features P EXCLUDED_COLUMNS tr"
  note dr = distinct_raw [OF d(1), of EXCLUDED_COLUMNS]
  have "set ?raw \<subseteq> set (columns P tr)" by (simp add: set_raw_features)
  from encoded_exists [OF d(1) dr this] obtain tr0 where tr0: "encoded P ?raw tr = Inr tr0" by (elim exE)
  show ?thesis
  proof (cases "set ?raw \<subseteq> set (columns P va)")
    case True
    from encoded_exists [OF d(2) dr True] obtain va0 where va0: "encoded P ?raw va = Inr va0" by (elim exE)
    from True sub have "\<not> set ?raw \<subseteq> set (columns P te)" by simp
    from encoded_missing [OF this] obtain k where k: "k \<in> set ?raw - set (columns P te)"
      and e: "encoded P ?raw te = Inl (KeyError k)" by blast
    have "build_feature_matrices P tr va te = Inl (KeyError k)"
      by (simp add: build_feature_matrices_def Let_def tr0 va0 e)
    then show ?thesis using k by (intro bexI [of _ k]) (auto simp: set_raw_features)
  next
    case False
    from encoded_missing [OF False] obtain k where k: "k \<in> set ?raw - set (columns P va)"
      and e: "encoded P ?raw va = Inl (KeyError k)" by blast
    have "build_feature_matrices P tr va te = Inl (KeyError k)"
      by (simp add: build_feature_matrices_def Let_def tr0 e)
    then show ?thesis using k by (intro bexI [of _ k]) (auto simp: set_raw_features)
  qed
qed

text \<open>The ablation's matrices hold the same columns as the baselines'.\<close>

lemma raw_features_cong: "set ex = set ex' \<Longrightarrow> raw_features P ex f = raw_features P ex' f"
  by (simp add: raw_features_def)

lemma column_finish:
  assumes "c \<in> set (columns P f)" and "c \<notin> set cs" and "c \<in> set (columns P g)"
    and "column P f c = column P g c"
  shows "column P (finish_matrix P cs f) c = column P (fillna_zero P g) c"
  unfolding finish_matrix_def
  using assms by (intro column_fillna_cong) (simp_all add: columns_drop column_drop)

lemma ablation_agrees:
  assumes m: "build_feature_matrices P tr va te = Inr m"
    and u: "unambiguous P (raw_features P EXCLUDED_COLUMNS tr) tr"
      "unambiguous P (raw_features P EXCLUDED_COLUMNS tr) va"
      "unambiguous P (raw_features P EXCLUDED_COLUMNS tr) te"
    and ex: "set ex = set EXCLUDED_COLUMNS"
  obtains a b c where
    "build_ablation_matrices P tr va te ex (final_feature_columns m) = Inr (a, b, c)"
    "\<forall>x \<in> {a, b, c}. columns P x = final_feature_columns m"
    "\<forall>k \<in> set (final_feature_columns m). column P a k = column P (train_x m) k \<and>
       column P b k = column P (val_x m) k \<and> column P c k = column P (test_x m) k"
proof -
  let ?raw = "raw_features P EXCLUDED_COLUMNS tr" and ?final = "final_feature_columns m"
  from m obtain te0 va0 tr0 va1 te1 where
    e: "encoded P ?raw tr = Inr tr0" "encoded P ?raw va = Inr va0" "encoded P ?raw te = Inr te0"
    and r: "reindex P (columns P tr0) va0 = Inr va1" "reindex P (columns P tr0) te0 = Inr te1"
    and x: "train_x m = finish_matrix P (constant_columns m) tr0"
      "val_x m = finish_matrix P (constant_columns m) va1" "test_x m = finish_matrix P (constant_columns m) te1"
    and f: "?final = filter (\<lambda>c. c \<notin> set (constant_columns m)) (columns P tr0)"
    by (rule build_steps)
  have d: "distinct (columns P tr0)" "distinct (columns P va0)" "distinct (columns P te0)"
    using u e by (simp_all add: unambiguous_def)
  from reindex_distinct [OF d(1), of ?final] obtain a where a: "reindex P ?final tr0 = Inr a" by (elim exE conjE)
  from reindex_distinct [OF d(2), of ?final] obtain b where b: "reindex P ?final va0 = Inr b" by (elim exE conjE)
  from reindex_distinct [OF d(3), of ?final] obtain c where c: "reindex P ?final te0 = Inr c" by (elim exE conjE)
  note shape = reindex_shape [OF a] reindex_shape [OF b] reindex_shape [OF c] reindex_shape [OF r(1)]
    reindex_shape [OF r(2)]
  have "build_ablation_matrices P tr va te ex ?final =
      Inr (fillna_zero P a, fillna_zero P b, fillna_zero P c)"
    using raw_features_cong [OF ex, of tr] e a b c by (simp add: build_ablation_matrices_def Let_def)
  moreover have "\<forall>x \<in> {fillna_zero P a, fillna_zero P b, fillna_zero P c}. columns P x = ?final"
    using shape by (simp add: columns_fillna)
  moreover have "column P (fillna_zero P a) k = column P (train_x m) k \<and>
      column P (fillna_zero P b) k = column P (val_x m) k \<and> column P (fillna_zero P c) k = column P (test_x m) k"
    if k: "k \<in> set ?final" for k
  proof -
    from k have k': "k \<in> set (columns P tr0)" "k \<notin> set (constant_columns m)" by (simp_all add: f)
    have "column P tr0 k = column P a k" using column_reindex [OF a k] k' by simp
    moreover have "column P va1 k = column P b k" using column_reindex_cong [OF r(1) b _ k] k' by simp
    moreover have "column P te1 k = column P c k" using column_reindex_cong [OF r(2) c _ k] k' by simp
    ultimately show ?thesis
      using column_finish [of k tr0 "constant_columns m" a] column_finish [of k va1 "constant_columns m" b]
        column_finish [of k te1 "constant_columns m" c] k k' shape unfolding x by metis
  qed
  ultimately show thesis using that by blast
qed

end

section \<open>Properties\<close>

text \<open>C13: the three feature matrices. When the validation and test frames have every raw feature
column of the training frame, all three matrices are built; they share one list of distinct
columns, free of the dropped constant columns, and keep the rows of their frames. Otherwise the run
ends with \<open>KeyError\<close> on a column that is missing.\<close>

theorem feature_matrices_share_columns:
  assumes "data_frames P"
    and "distinct (columns P tr)" "distinct (columns P va)" "distinct (columns P te)"
    and "unambiguous P (raw_features P EXCLUDED_COLUMNS tr) tr"
      "unambiguous P (raw_features P EXCLUDED_COLUMNS tr) va"
      "unambiguous P (raw_features P EXCLUDED_COLUMNS tr) te"
  shows "if set (raw_features P EXCLUDED_COLUMNS tr) \<subseteq> set (columns P va) \<inter> set (columns P te)
    then \<exists>m. build_feature_matrices P tr va te = Inr m \<and> matrices_ok P tr va te m
    else \<exists>k \<in> set (columns P tr) - set EXCLUDED_COLUMNS - set (columns P va) \<inter> set (columns P te).
      build_feature_matrices P tr va te = Inl (KeyError k)"
proof (cases "set (raw_features P EXCLUDED_COLUMNS tr) \<subseteq> set (columns P va) \<inter> set (columns P te)")
  case True
  from data_frames.build_total [OF assms True] obtain m where m: "build_feature_matrices P tr va te = Inr m"
    by (elim exE)
  show ?thesis
    using True m data_frames.build_ok(1) [OF assms(1) m assms(2-5)] by auto
next
  case False
  show ?thesis unfolding if_not_P [OF False] by (rule data_frames.build_missing [OF assms(1-3) False])
qed

text \<open>C12: nothing the label is derived from reaches a classifier. The twenty columns are those the phase 4
design withholds: the labels and their origin, what the data set scripts derive from the experiment
or its split, identifiers, the results of the traffic probe, and the position in time. If the three
frames are exchanged for others that differ in these columns only, in whatever way, the outcome is
the same: the same matrices, column lists and constants, or the same exception. And no other column is
withheld: the raw features are exactly the remaining columns of the training frame, in its order.\<close>

theorem features_leak_no_outcome:
  fixes P :: "('f, 'c) pandas" and withheld :: "string list"
  defines "withheld \<equiv> [''label'', ''label_source'', ''anomaly_active'', ''recovery_active''] @
    [''split'', ''experiment_type'', ''is_baseline_experiment'', ''event_count''] @
    [''experiment_id'', ''node_name'', ''node_ip'', ''service_namespace'', ''service_name'', ''service_nodeport'',
     ''source_artifact_dir''] @
    [''traffic_probe_total'', ''traffic_probe_success'', ''traffic_probe_success_rate''] @
    [''window_start_unix_ms'', ''window_end_unix_ms'']"
  assumes "data_frames P"
    and "agree_outside P withheld tr tr'" and "agree_outside P withheld va va'" and "agree_outside P withheld te te'"
  shows "build_feature_matrices P tr va te = build_feature_matrices P tr' va' te' \<and>
    (\<forall>m. build_feature_matrices P tr va te = Inr m \<longrightarrow>
       raw_feature_columns m = filter (\<lambda>c. c \<notin> set withheld) (columns P tr))"
proof -
  have w: "withheld = [''label'', ''label_source'', ''anomaly_active'', ''recovery_active'', ''split'',
      ''experiment_type'', ''is_baseline_experiment'', ''event_count'', ''experiment_id'',
      ''node_name'', ''node_ip'', ''service_namespace'', ''service_name'', ''service_nodeport'',
      ''source_artifact_dir'', ''traffic_probe_total'', ''traffic_probe_success'',
      ''traffic_probe_success_rate'', ''window_start_unix_ms'', ''window_end_unix_ms'']"
    by (simp add: withheld_def)
  have ex: "EXCLUDED_COLUMNS = withheld" unfolding EXCLUDED_COLUMNS_def w ..
  have raw: "raw_features P EXCLUDED_COLUMNS tr = raw_features P EXCLUDED_COLUMNS tr'"
    unfolding ex using assms(3) by (rule raw_features_agree)
  have blind: "encoded P (raw_features P EXCLUDED_COLUMNS tr) f = encoded P (raw_features P EXCLUDED_COLUMNS tr) f'"
    if "agree_outside P withheld f f'" for f f'
    unfolding ex by (rule data_frames.encoded_agree [OF assms(2) that]) (auto simp: raw_features_def)
  have "build_feature_matrices P tr va te = build_feature_matrices P tr' va' te'"
    unfolding build_feature_matrices_def Let_def raw [symmetric]
    by (simp only: blind [OF assms(3)] blind [OF assms(4)] blind [OF assms(5)])
  moreover have "raw_feature_columns m = filter (\<lambda>c. c \<notin> set withheld) (columns P tr)"
    if "build_feature_matrices P tr va te = Inr m" for m
    using that by (auto simp: build_feature_matrices_def bind_result_Inr Let_def raw_features_def ex)
  ultimately show ?thesis by blast
qed

text \<open>The ablation study starts from the baselines' matrices. Rebuilt from the recorded column
lists, each of the three matrices has exactly the final columns, each with the content it has in
the matrix the baselines were trained on.\<close>

theorem ablation_rebuilds_matrices:
  assumes "data_frames P" and "build_feature_matrices P tr va te = Inr m"
    and "unambiguous P (raw_features P EXCLUDED_COLUMNS tr) tr"
      "unambiguous P (raw_features P EXCLUDED_COLUMNS tr) va"
      "unambiguous P (raw_features P EXCLUDED_COLUMNS tr) te"
    and "set ex = set EXCLUDED_COLUMNS"
  shows "\<exists>a b c. build_ablation_matrices P tr va te ex (final_feature_columns m) = Inr (a, b, c) \<and>
    columns P a = final_feature_columns m \<and> columns P b = final_feature_columns m \<and>
    columns P c = final_feature_columns m \<and>
    (\<forall>k \<in> set (final_feature_columns m). column P a k = column P (train_x m) k \<and>
       column P b k = column P (val_x m) k \<and> column P c k = column P (test_x m) k)"
  using data_frames.ablation_agrees [OF assms] by (metis insertCI)

subsection \<open>Witnesses\<close>

definition demo_frame :: "string \<Rightarrow> string list \<Rightarrow> tframe" where
  "demo_frame split protos = \<lparr>rows_of = length protos,
     cells_of = [(''label'', map (\<lambda>_. Str ''normal'') protos), (''proto'', map Str protos),
       (''zone'', map (\<lambda>_. Str ''z'') protos), (''split'', map (\<lambda>_. Str split) protos)]\<rparr>"

abbreviation "demo_tr \<equiv> demo_frame ''train'' [''tcp'', ''udp'']"
abbreviation "demo_va \<equiv> demo_frame ''val'' [''tcp'']"
abbreviation "demo_te \<equiv> demo_frame ''test'' [''sctp'']"

lemma demo_columns: "columns tables (demo_frame s ps) = [''label'', ''proto'', ''zone'', ''split'']"
  by (simp add: tables_def tcolumns_def demo_frame_def)

lemma demo_raw: "raw_features tables EXCLUDED_COLUMNS (demo_frame s ps) = [''proto'', ''zone'']"
  by (simp add: raw_features_def demo_columns EXCLUDED_COLUMNS_def)

lemma demo_laws: "data_frames tables"
  by (rule tables.data_frames_axioms)

lemma demo_distinct: "distinct (columns tables (demo_frame s ps))"
  by (simp add: demo_columns)

lemma demo_unambiguous:
  "unambiguous tables (raw_features tables EXCLUDED_COLUMNS demo_tr) demo_tr"
  "unambiguous tables (raw_features tables EXCLUDED_COLUMNS demo_tr) demo_va"
  "unambiguous tables (raw_features tables EXCLUDED_COLUMNS demo_tr) demo_te"
  unfolding demo_raw by code_simp+

lemma demo_build: "\<exists>m. build_feature_matrices tables demo_tr demo_va demo_te = Inr m \<and>
    final_feature_columns m = [''proto_tcp'', ''proto_udp''] \<and> constant_columns m = [''zone_z'']"
proof -
  have "map_sum id (\<lambda>m. (final_feature_columns m, constant_columns m))
      (build_feature_matrices tables demo_tr demo_va demo_te) = Inr ([''proto_tcp'', ''proto_udp''], [''zone_z''])"
    by code_simp
  then show ?thesis by (cases "build_feature_matrices tables demo_tr demo_va demo_te") auto
qed

lemma feature_matrices_share_columns_witness:
  "\<exists>m. build_feature_matrices tables demo_tr demo_va demo_te = Inr m \<and>
     matrices_ok tables demo_tr demo_va demo_te m"
  using feature_matrices_share_columns [OF demo_laws demo_distinct demo_distinct demo_distinct demo_unambiguous]
  by (simp add: demo_raw demo_columns)

definition relabelled :: "tframe \<Rightarrow> tframe" where
  "relabelled t = t\<lparr>cells_of := map (\<lambda>(c, xs). (c, if c = ''label'' then map (\<lambda>_. Str ''attack'') xs else xs)) (cells_of t)\<rparr>"

lemma features_leak_no_outcome_witness:
  "build_feature_matrices tables (relabelled demo_tr) (relabelled demo_va) (relabelled demo_te) =
     build_feature_matrices tables demo_tr demo_va demo_te \<and> relabelled demo_tr \<noteq> demo_tr"
proof -
  have agree: "agree_outside tables (''label'' # cs) (relabelled (demo_frame a ps)) (demo_frame a ps)" for cs a ps
    by (auto simp: agree_outside_def table_defs relabelled_def demo_frame_def)
  have "build_feature_matrices tables (relabelled demo_tr) (relabelled demo_va) (relabelled demo_te) =
     build_feature_matrices tables demo_tr demo_va demo_te"
    by (rule conjunct1 [OF features_leak_no_outcome [OF demo_laws]]) (simp_all add: agree)
  moreover have "relabelled demo_tr \<noteq> demo_tr" by code_simp
  ultimately show ?thesis ..
qed

lemma ablation_rebuilds_matrices_witness:
  "\<exists>m a b c. build_feature_matrices tables demo_tr demo_va demo_te = Inr m \<and>
     build_ablation_matrices tables demo_tr demo_va demo_te (sort EXCLUDED_COLUMNS) (final_feature_columns m) = Inr (a, b, c) \<and>
     columns tables b = [''proto_tcp'', ''proto_udp'']"
proof -
  from demo_build obtain m where m: "build_feature_matrices tables demo_tr demo_va demo_te = Inr m"
    and f: "final_feature_columns m = [''proto_tcp'', ''proto_udp'']" by auto
  have "set (sort EXCLUDED_COLUMNS) = set EXCLUDED_COLUMNS" by simp
  from ablation_rebuilds_matrices [OF demo_laws m demo_unambiguous this] m f show ?thesis by metis
qed

end
