(* ===== verification/Rule_Detector.thy ===== *)
theory Rule_Detector
  imports Features
begin

text \<open>
  The hand-written detector of \<open>phase4_train_baselines.py\<close>: seven rules over a window, each fires or
  not; the score is the share of rules that fire, and a window is reported when one does.
\<close>

section \<open>Floats in arrays\<close>

text \<open>Division of arrays never raises: a zero divisor gives an infinity or NaN.\<close>

definition np_div :: "dbl \<Rightarrow> dbl \<Rightarrow> dbl" where
  "np_div x y = (case ddiv x y of Inr z \<Rightarrow> z
     | Inl _ \<Rightarrow> if x = NaN \<or> is_zero x then NaN else inf_of (sign_bit x \<noteq> sign_bit y))"

definition dabs :: "dbl \<Rightarrow> dbl" where
  "dabs x = (if sign_bit x then dneg x else x)"

definition float_sum :: "dbl list \<Rightarrow> dbl" where
  "float_sum xs = foldl dadd (Fin 0) xs"

definition count_dbl :: "nat \<Rightarrow> dbl" where
  "count_dbl n = Fin (of_nat n)"

definition flag :: "bool \<Rightarrow> dbl" where
  "flag b = count_dbl (if b then 1 else 0)"

section \<open>The detector\<close>

definition RULE_PRESSURE_FIELDS :: "string list" where
  "RULE_PRESSURE_FIELDS =
     [''ct_active_count'', ''delta_new_conn'', ''delta_ct_lookup_miss'', ''delta_tcp_packets'']"

definition RULE_ERROR_FIELDS :: "string list" where
  "RULE_ERROR_FIELDS =
     [''delta_map_miss'', ''delta_rewrite_fail'', ''delta_redirect_fail'', ''delta_fallback_pass'']"

definition RULE_CONTROL_FIELDS :: "string list" where
  "RULE_CONTROL_FIELDS = [''service_event_seen'', ''slice_event_seen'', ''node_event_seen'']"

record rule_detector =
  thresholds :: "(string, dbl) pydict"
  rule_count :: nat

definition new_detector :: rule_detector where
  "new_detector = \<lparr>thresholds = [], rule_count = 0\<rparr>"

definition normal_rows :: "string list \<Rightarrow> bool list" where
  "normal_rows labels = map (\<lambda>l. l = NORMAL_LABEL) labels"

definition threshold_source :: "('f, 'c) pandas \<Rightarrow> 'f \<Rightarrow> string list \<Rightarrow> 'f" where
  "threshold_source P frame labels =
     (let normal_frame = loc P (normal_rows labels) frame
      in if nrows P normal_frame = 0 then frame else normal_frame)"

definition rule_fit :: "('f, 'c) pandas \<Rightarrow> rule_detector \<Rightarrow> 'f \<Rightarrow> rule_detector result" where
  "rule_fit P det frame =
     bind_result (texts P frame ''label'') (\<lambda>labels.
     bind_result (fold_result (\<lambda>field t.
            bind_result (numbers P (threshold_source P frame labels) field) (\<lambda>xs.
              Inr (dict_set field (quantile95 P xs) t)))
          RULE_PRESSURE_FIELDS (thresholds det))
       (\<lambda>t. Inr \<lparr>thresholds = t, rule_count = 3 + length RULE_PRESSURE_FIELDS\<rparr>))"

text \<open>Which of the rules fire on each row.\<close>

definition row_sum_positive :: "('f, 'c) pandas \<Rightarrow> dbl list list \<Rightarrow> nat \<Rightarrow> bool" where
  "row_sum_positive P series i \<longleftrightarrow> dlt (Fin 0) (row_sum P (map (\<lambda>xs. xs ! i) series))"

definition above_threshold :: "rule_detector \<Rightarrow> string \<Rightarrow> dbl \<Rightarrow> bool" where
  "above_threshold det field x \<longleftrightarrow> dlt (dict_get_or (Fin 0) (thresholds det) field) x"

definition rule_triggers :: "('f, 'c) pandas \<Rightarrow> rule_detector \<Rightarrow> 'f \<Rightarrow> bool list list result" where
  "rule_triggers P det frame =
     bind_result (map_result (numbers P frame) RULE_CONTROL_FIELDS) (\<lambda>control.
     bind_result (numbers P frame ''backend_total_delta'') (\<lambda>backend.
     bind_result (map_result (numbers P frame) RULE_ERROR_FIELDS) (\<lambda>errors.
     bind_result (map_result (numbers P frame) RULE_PRESSURE_FIELDS) (\<lambda>pressure.
       Inr (map (\<lambda>i. [row_sum_positive P control i, dlt (Fin 0) (dabs (backend ! i)),
             row_sum_positive P errors i] @
             map (\<lambda>(field, xs). above_threshold det field (xs ! i)) (zip RULE_PRESSURE_FIELDS pressure))
         [0..<nrows P frame])))))"

definition rule_score :: "nat \<Rightarrow> bool list \<Rightarrow> dbl" where
  "rule_score rules fired = np_div (float_sum (map flag fired)) (dbl_of_int (int rules))"

definition score_samples :: "('f, 'c) pandas \<Rightarrow> rule_detector \<Rightarrow> 'f \<Rightarrow> dbl list result" where
  "score_samples P det frame =
     bind_result (rule_triggers P det frame) (\<lambda>ts. Inr (map (rule_score (rule_count det)) ts))"

definition rule_predict :: "('f, 'c) pandas \<Rightarrow> rule_detector \<Rightarrow> 'f \<Rightarrow> int list result" where
  "rule_predict P det frame =
     bind_result (score_samples P det frame) (\<lambda>scores.
       Inr (map (\<lambda>s. if dlt (Fin 0) s then 1 else 0) scores))"

definition rule_predict_proba :: "('f, 'c) pandas \<Rightarrow> rule_detector \<Rightarrow> 'f \<Rightarrow> (dbl \<times> dbl) list result" where
  "rule_predict_proba P det frame =
     bind_result (score_samples P det frame) (\<lambda>scores.
       Inr (map (\<lambda>s. (dsub (Fin 1) s, s)) scores))"

section \<open>Sums of counts are exact\<close>

lemma dadd_counts: "a + b \<le> 2 ^ 53 \<Longrightarrow> dadd (count_dbl a) (count_dbl b) = count_dbl (a + b)"
proof -
  assume le: "a + b \<le> 2 ^ 53"
  have "rnd (of_nat (a + b)) = Fin (of_nat (a + b))"
    using dbl_of_small_nat [OF le] by (simp add: dbl_of_int_def)
  then show ?thesis by (simp add: dadd_def count_dbl_def)
qed

lemma foldl_counts:
  "a + sum_list ns \<le> 2 ^ 53 \<Longrightarrow> foldl dadd (count_dbl a) (map count_dbl ns) = count_dbl (a + sum_list ns)"
  by (induction ns arbitrary: a) (simp_all add: dadd_counts add.assoc)

lemma float_sum_counts:
  "sum_list ns \<le> 2 ^ 53 \<Longrightarrow> float_sum (map count_dbl ns) = count_dbl (sum_list ns)"
  using foldl_counts [of 0 ns] by (simp add: float_sum_def count_dbl_def)

text \<open>\<open>sum(axis=1)\<close> over counts that fit is their sum.\<close>

definition sums_counts :: "('f, 'c) pandas \<Rightarrow> bool" where
  "sums_counts P \<longleftrightarrow>
     (\<forall>ns. sum_list ns \<le> 2 ^ 53 \<longrightarrow> row_sum P (map count_dbl ns) = count_dbl (sum_list ns))"

lemma tables_sums_counts: "sums_counts tables"
proof -
  have "filter (\<lambda>x. x \<noteq> NaN) (map count_dbl ns) = map count_dbl ns" for ns
    by (simp add: filter_id_conv count_dbl_def)
  then show ?thesis
    using float_sum_counts by (simp add: sums_counts_def tables_def float_sum_def)
qed

definition fired :: "bool list \<Rightarrow> nat" where
  "fired ts = length (filter (\<lambda>b. b) ts)"

lemma rule_score_share:
  assumes "length ts \<le> rules" and "0 < rules" and "rules \<le> 2 ^ 53"
  shows "rule_score rules ts = Fin (fl (of_nat (fired ts) / of_nat rules))"
    and "0 \<le> fl (of_nat (fired ts) / of_nat rules)" and "fl (of_nat (fired ts) / of_nat rules) \<le> 1"
proof -
  have le: "fired ts \<le> length ts" by (simp add: fired_def)
  have "sum_list (map (\<lambda>b. if b then 1 else 0) ts) = fired ts"
    by (induction ts) (simp_all add: fired_def)
  then have s: "float_sum (map flag ts) = count_dbl (fired ts)"
    using float_sum_counts [of "map (\<lambda>b. if b then 1 else 0) ts"] le assms
    by (simp add: flag_def [abs_def] comp_def)
  have c: "count_ratio (fired ts) rules = Inr (Fin (fl (of_nat (fired ts) / of_nat rules)))"
    using count_ratio_unit [of "fired ts" rules] le assms by simp
  have "dbl_of_int (int (fired ts)) = count_dbl (fired ts)"
    using dbl_of_small_nat [of "fired ts"] le assms by (simp add: count_dbl_def)
  with c show "rule_score rules ts = Fin (fl (of_nat (fired ts) / of_nat rules))"
    by (simp add: rule_score_def s np_div_def count_ratio_def)
  show "0 \<le> fl (of_nat (fired ts) / of_nat rules)" and "fl (of_nat (fired ts) / of_nat rules) \<le> 1"
    using count_ratio_unit [of "fired ts" rules] le assms by simp_all
qed

lemma rule_score_positive:
  assumes "length ts \<le> 7"
  shows "dlt (Fin 0) (rule_score 7 ts) \<longleftrightarrow> True \<in> set ts"
proof -
  have sc: "rule_score 7 ts = Fin (fl (of_nat (fired ts) / 7))"
    using rule_score_share(1) [of ts 7] assms by simp
  have ex: "0 < fired ts \<longleftrightarrow> True \<in> set ts"
    by (auto simp: fired_def filter_empty_conv)
  show ?thesis
  proof (cases "True \<in> set ts")
    case True
    then have "1 \<le> fired ts" using ex by simp
    then have "(1 :: rat) \<le> of_nat (fired ts)" by (metis of_nat_1 of_nat_le_iff)
    then have "1 / 7 \<le> of_nat (fired ts) / (7 :: rat)" by (intro divide_right_mono) simp_all
    moreover have "1 * 2 powi (- 3) \<le> 1 / (7 :: rat)" by (simp add: power_int_def eval_nat_numeral)
    ultimately have "1 * 2 powi (- 3) \<le> of_nat (fired ts) / (7 :: rat)" by (rule order_trans [rotated])
    then have "fl (1 * 2 powi (- 3)) \<le> fl (of_nat (fired ts) / 7)" by (rule fl_mono)
    moreover have "fl (1 * 2 powi (- 3)) = 1 * 2 powi (- 3)" using fl_dyadic [of 1 "- 3"] by simp
    moreover have "(0 :: rat) < 1 * 2 powi (- 3)" by simp
    ultimately show ?thesis using True by (simp add: sc)
  next
    case False
    then have "fired ts = 0" using ex by blast
    then show ?thesis using False by (simp add: sc)
  qed
qed

section \<open>What the detector reports\<close>

lemma fold_thresholds:
  assumes "fold_result (\<lambda>field t. bind_result (num field) (\<lambda>xs. Inr (dict_set field (q xs) t))) fs t0 = Inr t"
    and "f \<in> set fs"
  shows "\<exists>xs. num f = Inr xs \<and> dict_get t f = Some (q xs)"
  using assms
proof (induction fs arbitrary: t rule: rev_induct)
  case (snoc g fs)
  from snoc.prems(1) obtain t1 ys where
    t1: "fold_result (\<lambda>field t. bind_result (num field) (\<lambda>xs. Inr (dict_set field (q xs) t))) fs t0 = Inr t1"
    and ys: "num g = Inr ys" and t: "t = dict_set g (q ys) t1"
    by (auto simp: fold_result_append bind_result_Inr)
  show ?case
  proof (cases "f = g")
    case True
    then show ?thesis using ys t by (simp add: dict_simps)
  next
    case False
    then have "f \<in> set fs" using snoc.prems(2) by simp
    from snoc.IH [OF t1 this] False t show ?thesis by (auto simp: dict_simps)
  qed
qed simp

lemma rule_fit_thresholds:
  assumes "rule_fit P det0 train = Inr det"
  obtains labels where "texts P train ''label'' = Inr labels" and "rule_count det = 7"
    and "\<forall>f \<in> set RULE_PRESSURE_FIELDS. \<exists>xs.
      numbers P (threshold_source P train labels) f = Inr xs \<and>
      dict_get (thresholds det) f = Some (quantile95 P xs)"
proof -
  from assms obtain labels t where l: "texts P train ''label'' = Inr labels"
    and t: "fold_result (\<lambda>field t. bind_result (numbers P (threshold_source P train labels) field)
        (\<lambda>xs. Inr (dict_set field (quantile95 P xs) t))) RULE_PRESSURE_FIELDS (thresholds det0) = Inr t"
    and det: "det = \<lparr>thresholds = t, rule_count = 3 + length RULE_PRESSURE_FIELDS\<rparr>"
    by (auto simp: rule_fit_def bind_result_Inr)
  show thesis
  proof (rule that [OF l])
    show "rule_count det = 7" by (simp add: det RULE_PRESSURE_FIELDS_def)
    show "\<forall>f \<in> set RULE_PRESSURE_FIELDS. \<exists>xs.
      numbers P (threshold_source P train labels) f = Inr xs \<and>
      dict_get (thresholds det) f = Some (quantile95 P xs)"
      using fold_thresholds [OF t] by (simp add: det)
  qed
qed

lemma rule_triggers_length:
  assumes "rule_triggers P det frame = Inr tss"
  shows "length tss = nrows P frame" and "\<forall>ts \<in> set tss. length ts \<le> 7"
  using assms by (auto simp: rule_triggers_def bind_result_Inr RULE_PRESSURE_FIELDS_def)

lemma row_sum_positive_counts:
  assumes "sums_counts P" and "series = map (\<lambda>f. map count_dbl (C f)) fs"
    and "\<forall>f \<in> set fs. i < length (C f) \<and> C f ! i \<le> 2 ^ 50" and "length fs \<le> 8"
  shows "row_sum_positive P series i \<longleftrightarrow> (\<exists>f \<in> set fs. 0 < C f ! i)"
proof -
  let ?ns = "map (\<lambda>f. C f ! i) fs"
  have row: "map (\<lambda>xs. xs ! i) series = map count_dbl ?ns"
    using assms(2,3) by simp
  have "sum_list ?ns \<le> length fs * 2 ^ 50"
    using assms(3) by (induction fs) auto
  also have "\<dots> \<le> 2 ^ 53" using assms(4) by simp
  finally have "row_sum P (map (\<lambda>xs. xs ! i) series) = count_dbl (sum_list ?ns)"
    using assms(1) unfolding row sums_counts_def by blast
  moreover have "0 < sum_list ?ns \<longleftrightarrow> (\<exists>f \<in> set fs. 0 < C f ! i)"
    by (simp add: sum_list_eq_0_iff flip: neq0_conv)
  ultimately show ?thesis by (simp add: row_sum_positive_def count_dbl_def)
qed

lemma rule_predict_positive:
  assumes "rule_predict P det frame = Inr ys" and "rule_count det = 7"
  obtains tss where "rule_triggers P det frame = Inr tss" and "length tss = nrows P frame"
    and "length ys = nrows P frame"
    and "\<And>i. i < nrows P frame \<Longrightarrow> ys ! i = (if True \<in> set (tss ! i) then 1 else 0)"
proof -
  from assms obtain tss where tss: "rule_triggers P det frame = Inr tss"
    and ys: "ys = map (\<lambda>ts. if dlt (Fin 0) (rule_score 7 ts) then 1 else 0) tss"
    by (auto simp: rule_predict_def score_samples_def bind_result_Inr)
  note len = rule_triggers_length [OF tss]
  show thesis
  proof (rule that [OF tss len(1)])
    show "length ys = nrows P frame" using len by (simp add: ys)
    show "ys ! i = (if True \<in> set (tss ! i) then 1 else 0)" if "i < nrows P frame" for i
      using that len rule_score_positive [of "tss ! i"] by (simp add: ys)
  qed
qed

lemma fires_iff:
  "True \<in> set ([a, b, c] @ map (\<lambda>(f, xs). g f xs) (map (\<lambda>f. (f, h f)) fs)) \<longleftrightarrow>
     a \<or> b \<or> c \<or> (\<exists>f \<in> set fs. g f (h f))"
  by auto

text \<open>Which rules fire on row \<open>i\<close>, when the event and error columns hold the counts \<open>C\<close>.\<close>

lemma rule_triggers_counts:
  assumes P: "data_frames P" "sums_counts P" and tss: "rule_triggers P det frame = Inr tss" and i: "i < nrows P frame"
    and C: "\<forall>f \<in> set RULE_CONTROL_FIELDS \<union> set RULE_ERROR_FIELDS.
      numbers P frame f = Inr (map count_dbl (C f)) \<and> (\<forall>n \<in> set (C f). n \<le> 2 ^ 50)"
  shows "\<exists>backend. numbers P frame ''backend_total_delta'' = Inr backend \<and>
    (\<forall>f \<in> set RULE_PRESSURE_FIELDS. \<exists>xs. numbers P frame f = Inr xs) \<and>
    (True \<in> set (tss ! i) \<longleftrightarrow> (\<exists>f \<in> set RULE_CONTROL_FIELDS. 0 < C f ! i) \<or> dlt (Fin 0) (dabs (backend ! i)) \<or>
      (\<exists>f \<in> set RULE_ERROR_FIELDS. 0 < C f ! i) \<or>
      (\<exists>f \<in> set RULE_PRESSURE_FIELDS. above_threshold det f (projr (numbers P frame f) ! i)))"
proof -
  have cs: "map_result (numbers P frame) fs = Inr (map (\<lambda>f. map count_dbl (C f)) fs)"
    if "set fs \<subseteq> set RULE_CONTROL_FIELDS \<union> set RULE_ERROR_FIELDS" for fs
    using that C by (intro map_result_total) blast
  from tss obtain backend pressure where b: "numbers P frame ''backend_total_delta'' = Inr backend"
    and p: "map_result (numbers P frame) RULE_PRESSURE_FIELDS = Inr pressure"
    and t: "tss = map (\<lambda>i. [row_sum_positive P (map (\<lambda>f. map count_dbl (C f)) RULE_CONTROL_FIELDS) i,
        dlt (Fin 0) (dabs (backend ! i)), row_sum_positive P (map (\<lambda>f. map count_dbl (C f)) RULE_ERROR_FIELDS) i] @
        map (\<lambda>(field, xs). above_threshold det field (xs ! i)) (zip RULE_PRESSURE_FIELDS pressure)) [0..<nrows P frame]"
    by (auto simp: rule_triggers_def bind_result_Inr cs)
  have len: "i < length (C f) \<and> C f ! i \<le> 2 ^ 50" if f: "f \<in> set RULE_CONTROL_FIELDS \<union> set RULE_ERROR_FIELDS" for f
  proof -
    have nf: "numbers P frame f = Inr (map count_dbl (C f))" and small: "\<forall>n \<in> set (C f). n \<le> 2 ^ 50"
      using C f by blast+
    show ?thesis using data_frames.numbers_length [OF P(1) nf] i small by simp
  qed
  note pos = row_sum_positive_counts [OF P(2) refl, where C = C and i = i]
  have c: "row_sum_positive P (map (\<lambda>f. map count_dbl (C f)) RULE_CONTROL_FIELDS) i \<longleftrightarrow>
      (\<exists>f \<in> set RULE_CONTROL_FIELDS. 0 < C f ! i)"
    using len by (intro pos) (simp_all add: RULE_CONTROL_FIELDS_def)
  have e: "row_sum_positive P (map (\<lambda>f. map count_dbl (C f)) RULE_ERROR_FIELDS) i \<longleftrightarrow>
      (\<exists>f \<in> set RULE_ERROR_FIELDS. 0 < C f ! i)"
    using len by (intro pos) (simp_all add: RULE_ERROR_FIELDS_def)
  have zp: "zip RULE_PRESSURE_FIELDS pressure = map (\<lambda>f. (f, projr (numbers P frame f))) RULE_PRESSURE_FIELDS"
    and zn: "\<forall>f \<in> set RULE_PRESSURE_FIELDS. numbers P frame f = Inr (projr (numbers P frame f))"
    using p by (auto simp: RULE_PRESSURE_FIELDS_def bind_result_Inr)
  have "tss ! i = [row_sum_positive P (map (\<lambda>f. map count_dbl (C f)) RULE_CONTROL_FIELDS) i,
      dlt (Fin 0) (dabs (backend ! i)), row_sum_positive P (map (\<lambda>f. map count_dbl (C f)) RULE_ERROR_FIELDS) i] @
      map (\<lambda>(field, xs). above_threshold det field (xs ! i))
        (map (\<lambda>f. (f, projr (numbers P frame f))) RULE_PRESSURE_FIELDS)"
    using i unfolding t zp by simp
  then have "True \<in> set (tss ! i) \<longleftrightarrow> (\<exists>f \<in> set RULE_CONTROL_FIELDS. 0 < C f ! i) \<or> dlt (Fin 0) (dabs (backend ! i)) \<or>
      (\<exists>f \<in> set RULE_ERROR_FIELDS. 0 < C f ! i) \<or>
      (\<exists>f \<in> set RULE_PRESSURE_FIELDS. above_threshold det f (projr (numbers P frame f) ! i))"
    by (simp only: fires_iff c e)
  then show ?thesis using b zn by blast
qed

text \<open>C33: what the rule-based detector reports. Fitted on a training frame and applied to a frame
whose event and error columns hold counts, it marks a row exactly when a control-plane event was
seen, the number of backends changed, an error counter moved, or a pressure field lies above its
0.95 quantile over the normal training rows (over all training rows when none is normal).\<close>

theorem rule_detector_reports:
  assumes "data_frames P" and "sums_counts P" and "rule_fit P new_detector train = Inr det"
    and "rule_predict P det frame = Inr ys" and "i < nrows P frame"
    and "\<forall>f \<in> set RULE_CONTROL_FIELDS \<union> set RULE_ERROR_FIELDS.
      numbers P frame f = Inr (map count_dbl (C f)) \<and> (\<forall>n \<in> set (C f). n \<le> 2 ^ 50)"
  shows "\<exists>backend labels. numbers P frame ''backend_total_delta'' = Inr backend \<and>
    texts P train ''label'' = Inr labels \<and>
    (ys ! i = 1 \<longleftrightarrow> (\<exists>f \<in> set RULE_CONTROL_FIELDS \<union> set RULE_ERROR_FIELDS. 0 < C f ! i) \<or>
       dlt (Fin 0) (dabs (backend ! i)) \<or>
       (\<exists>f \<in> set RULE_PRESSURE_FIELDS. \<exists>xs reference. numbers P frame f = Inr xs \<and>
          numbers P (threshold_source P train labels) f = Inr reference \<and>
          dlt (quantile95 P reference) (xs ! i)))"
proof -
  from rule_fit_thresholds [OF assms(3)] obtain labels where labels: "texts P train ''label'' = Inr labels"
    and rc: "rule_count det = 7"
    and th: "\<forall>f \<in> set RULE_PRESSURE_FIELDS. \<exists>xs. numbers P (threshold_source P train labels) f = Inr xs \<and>
      dict_get (thresholds det) f = Some (quantile95 P xs)" .
  from rule_predict_positive [OF assms(4) rc] obtain tss where tss: "rule_triggers P det frame = Inr tss"
    and y: "ys ! i = (if True \<in> set (tss ! i) then 1 else 0)" using assms(5) by metis
  from rule_triggers_counts [OF assms(1,2) tss assms(5,6)] obtain backend where
    b: "numbers P frame ''backend_total_delta'' = Inr backend"
    and zn: "\<forall>f \<in> set RULE_PRESSURE_FIELDS. \<exists>xs. numbers P frame f = Inr xs"
    and fires: "True \<in> set (tss ! i) \<longleftrightarrow> (\<exists>f \<in> set RULE_CONTROL_FIELDS. 0 < C f ! i) \<or> dlt (Fin 0) (dabs (backend ! i)) \<or>
      (\<exists>f \<in> set RULE_ERROR_FIELDS. 0 < C f ! i) \<or>
      (\<exists>f \<in> set RULE_PRESSURE_FIELDS. above_threshold det f (projr (numbers P frame f) ! i))"
    by (elim exE conjE)
  have ab: "above_threshold det f x \<longleftrightarrow>
      (\<exists>reference. numbers P (threshold_source P train labels) f = Inr reference \<and> dlt (quantile95 P reference) x)"
    if "f \<in> set RULE_PRESSURE_FIELDS" for f x
    using th that by (auto simp: above_threshold_def dict_get_or_def)
  have pr: "(\<exists>f \<in> set RULE_PRESSURE_FIELDS. above_threshold det f (projr (numbers P frame f) ! i)) \<longleftrightarrow>
      (\<exists>f \<in> set RULE_PRESSURE_FIELDS. \<exists>xs reference. numbers P frame f = Inr xs \<and>
          numbers P (threshold_source P train labels) f = Inr reference \<and> dlt (quantile95 P reference) (xs ! i))"
  proof (rule bex_cong [OF refl])
    fix f assume f: "f \<in> set RULE_PRESSURE_FIELDS"
    from bspec [OF zn f] obtain xs where xs: "numbers P frame f = Inr xs" by (rule exE)
    show "above_threshold det f (projr (numbers P frame f) ! i) \<longleftrightarrow> (\<exists>xs reference. numbers P frame f = Inr xs \<and>
          numbers P (threshold_source P train labels) f = Inr reference \<and> dlt (quantile95 P reference) (xs ! i))"
      unfolding ab [OF f] xs by simp
  qed
  show ?thesis
    using y b labels fires unfolding pr by (intro exI [of _ backend] exI [of _ labels]) auto
qed

text \<open>The score of the rule-based detector is a share. Every row gets the number of rules that
fire on it over the seven rules, rounded; it lies between 0 and 1, and the row is marked exactly
when a rule fires.\<close>

theorem rule_scores_are_shares:
  assumes "rule_fit P new_detector train = Inr det" and "rule_triggers P det frame = Inr tss"
  shows "score_samples P det frame = Inr (map (\<lambda>ts. Fin (fl (of_nat (fired ts) / 7))) tss) \<and>
    list_all (\<lambda>ts. 0 \<le> fl (of_nat (fired ts) / 7) \<and> fl (of_nat (fired ts) / 7) \<le> 1) tss \<and>
    rule_predict P det frame = Inr (map (\<lambda>ts. if True \<in> set ts then 1 else 0) tss)"
proof -
  from rule_fit_thresholds [OF assms(1)] obtain labels where rc: "rule_count det = 7" .
  have len: "\<forall>ts \<in> set tss. length ts \<le> 7" using rule_triggers_length [OF assms(2)] by simp
  then have sc: "\<forall>ts \<in> set tss. rule_score 7 ts = Fin (fl (of_nat (fired ts) / 7)) \<and>
      0 \<le> fl (of_nat (fired ts) / 7) \<and> fl (of_nat (fired ts) / 7) \<le> 1 \<and>
      (dlt (Fin 0) (rule_score 7 ts) \<longleftrightarrow> True \<in> set ts)"
  proof (intro ballI)
    fix ts assume "ts \<in> set tss"
    then have "length ts \<le> 7" using len by simp
    from rule_score_share [OF this] rule_score_positive [OF this]
    show "rule_score 7 ts = Fin (fl (of_nat (fired ts) / 7)) \<and>
      0 \<le> fl (of_nat (fired ts) / 7) \<and> fl (of_nat (fired ts) / 7) \<le> 1 \<and>
      (dlt (Fin 0) (rule_score 7 ts) \<longleftrightarrow> True \<in> set ts)" by simp
  qed
  then have "map (rule_score 7) tss = map (\<lambda>ts. Fin (fl (of_nat (fired ts) / 7))) tss"
    and "list_all (\<lambda>ts. 0 \<le> fl (of_nat (fired ts) / 7) \<and> fl (of_nat (fired ts) / 7) \<le> 1) tss"
    by (simp_all add: list_all_iff)
  moreover have "map (\<lambda>ts. if dlt (Fin 0) (rule_score 7 ts) then 1 else 0) tss =
      map (\<lambda>ts. if True \<in> set ts then 1 else 0 :: int) tss"
  proof (rule map_cong [OF refl])
    fix ts assume "ts \<in> set tss"
    with sc have "dlt (Fin 0) (rule_score 7 ts) \<longleftrightarrow> True \<in> set ts" by blast
    then show "(if dlt (Fin 0) (rule_score 7 ts) then 1 else 0) = (if True \<in> set ts then 1 else 0 :: int)"
      by (simp only:)
  qed
  moreover have "score_samples P det frame = Inr (map (rule_score 7) tss)"
    by (simp add: score_samples_def assms(2) rc)
  moreover have "rule_predict P det frame = Inr (map (\<lambda>ts. if dlt (Fin 0) (rule_score 7 ts) then 1 else 0) tss)"
    by (simp add: rule_predict_def score_samples_def assms(2) rc comp_def del: dlt.simps)
  ultimately show ?thesis by simp
qed

subsection \<open>Witnesses\<close>

definition one_window :: "nat \<Rightarrow> tframe" where
  "one_window n = \<lparr>rows_of = 1, cells_of = (''label'', [Str ''normal'']) # map (\<lambda>f. (f, [Num (count_dbl n)]))
     (''backend_total_delta'' # RULE_CONTROL_FIELDS @ RULE_ERROR_FIELDS @ RULE_PRESSURE_FIELDS)\<rparr>"

lemma one_window_numbers:
  assumes "f \<in> set (''backend_total_delta'' # RULE_CONTROL_FIELDS @ RULE_ERROR_FIELDS @ RULE_PRESSURE_FIELDS)"
  shows "numbers tables (one_window n) f = Inr [count_dbl n]"
    and "numbers tables (loc tables [True] (one_window n)) f = Inr [count_dbl n]"
  using assms unfolding RULE_CONTROL_FIELDS_def RULE_ERROR_FIELDS_def RULE_PRESSURE_FIELDS_def
  by (auto simp: one_window_def RULE_CONTROL_FIELDS_def RULE_ERROR_FIELDS_def RULE_PRESSURE_FIELDS_def
      tables_def tnumbers_def tcolumns_def tcolumn_def tvalues_def tnumber_def tloc_def keep_masked_def)

lemma one_window_texts: "texts tables (one_window n) ''label'' = Inr [''normal'']"
  by (simp add: one_window_def tables_def ttexts_def tcolumns_def tcolumn_def tvalues_def tcell_text_def)

lemma one_window_rows: "nrows tables (one_window n) = 1"
  by (simp add: one_window_def tables_def)

lemma one_window_source: "threshold_source tables (one_window n) [''normal''] = loc tables [True] (one_window n)"
  by (simp add: threshold_source_def normal_rows_def NORMAL_LABEL_def one_window_def tables_def tloc_def)

lemma one_window_fit: "\<exists>det. rule_fit tables new_detector (one_window n) = Inr det"
  by (simp add: rule_fit_def one_window_texts one_window_source one_window_numbers RULE_PRESSURE_FIELDS_def)

lemma one_window_triggers: "\<exists>tss. rule_triggers tables det (one_window n) = Inr tss"
proof -
  have m: "map_result (numbers tables (one_window n)) fs = Inr (map (\<lambda>_. [count_dbl n]) fs)"
    if "set fs \<subseteq> set (RULE_CONTROL_FIELDS @ RULE_ERROR_FIELDS @ RULE_PRESSURE_FIELDS)" for fs
    using that by (intro map_result_total one_window_numbers) auto
  have "set RULE_CONTROL_FIELDS \<subseteq> set (RULE_CONTROL_FIELDS @ RULE_ERROR_FIELDS @ RULE_PRESSURE_FIELDS)"
    and "set RULE_ERROR_FIELDS \<subseteq> set (RULE_CONTROL_FIELDS @ RULE_ERROR_FIELDS @ RULE_PRESSURE_FIELDS)"
    and "set RULE_PRESSURE_FIELDS \<subseteq> set (RULE_CONTROL_FIELDS @ RULE_ERROR_FIELDS @ RULE_PRESSURE_FIELDS)"
    by auto
  from this [THEN m] show ?thesis by (simp add: rule_triggers_def one_window_numbers)
qed

lemma rule_detector_reports_witness:
  "\<exists>det ys. rule_fit tables new_detector (one_window 0) = Inr det \<and>
     rule_predict tables det (one_window 1) = Inr ys \<and> ys ! 0 = 1"
proof -
  from one_window_fit [of 0] obtain det where det: "rule_fit tables new_detector (one_window 0) = Inr det" ..
  from one_window_triggers obtain tss where "rule_triggers tables det (one_window 1) = Inr tss" ..
  then obtain ys where ys: "rule_predict tables det (one_window 1) = Inr ys"
    by (simp add: rule_predict_def score_samples_def)
  have r: "0 < nrows tables (one_window 1)" by (simp add: one_window_rows)
  have c: "\<forall>f \<in> set RULE_CONTROL_FIELDS \<union> set RULE_ERROR_FIELDS.
      numbers tables (one_window 1) f = Inr (map count_dbl ((\<lambda>_. [1]) f)) \<and> (\<forall>n \<in> set ((\<lambda>_. [1]) f). n \<le> (2 :: nat) ^ 50)"
    by (auto simp: one_window_numbers)
  have "\<exists>f \<in> set RULE_CONTROL_FIELDS \<union> set RULE_ERROR_FIELDS. 0 < (\<lambda>_. [1 :: nat]) f ! 0"
    by (intro bexI [of _ "''node_event_seen''"]) (simp_all add: RULE_CONTROL_FIELDS_def)
  with rule_detector_reports [OF tables.data_frames_axioms tables_sums_counts det ys r c] have "ys ! 0 = 1" by blast
  with det ys show ?thesis by blast
qed

lemma rule_scores_are_shares_witness:
  "\<exists>det tss. rule_fit tables new_detector (one_window 0) = Inr det \<and>
     rule_triggers tables det (one_window 1) = Inr tss \<and>
     rule_predict tables det (one_window 1) = Inr (map (\<lambda>ts. if True \<in> set ts then 1 else 0) tss)"
proof -
  from one_window_fit [of 0] obtain det where det: "rule_fit tables new_detector (one_window 0) = Inr det" ..
  from one_window_triggers obtain tss where tss: "rule_triggers tables det (one_window 1) = Inr tss" ..
  from rule_scores_are_shares [OF det tss] det tss show ?thesis by blast
qed

end
