(* ===== verification/Metrics.thy ===== *)
theory Metrics
  imports Py_Json Csv_Rows
begin

text \<open>
  The metric dictionaries of the training, generalization and ablation scripts. The scores
  themselves come from scikit-learn, a parameter: a record of the functions the scripts call. What
  the dictionaries hold, under which keys, and when the ranking scores are left out is modelled.
\<close>

section \<open>The functions of \<open>sklearn.metrics\<close>\<close>

type_synonym per_label = "dbl list \<times> dbl list \<times> dbl list \<times> int list"

record 'y scorer =
  accuracy_score :: "'y list \<Rightarrow> 'y list \<Rightarrow> dbl result"
  balanced_accuracy_score :: "'y list \<Rightarrow> 'y list \<Rightarrow> dbl result"
  fscore_each :: "'y list \<Rightarrow> 'y list \<Rightarrow> 'y list \<Rightarrow> per_label result"
  fscore_average :: "'y list option \<Rightarrow> string \<Rightarrow> 'y list \<Rightarrow> 'y list \<Rightarrow> (dbl \<times> dbl \<times> dbl) result"
  average_precision_score :: "'y list \<Rightarrow> dbl list \<Rightarrow> dbl result"
  roc_auc_score :: "'y list \<Rightarrow> dbl list \<Rightarrow> dbl result"
  confusion_matrix :: "'y list \<Rightarrow> 'y list \<Rightarrow> 'y list \<Rightarrow> int list list result"

definition item_at :: "'a list \<Rightarrow> nat \<Rightarrow> 'a result" where
  "item_at xs i = (if i < length xs then Inr (xs ! i) else Inl IndexError)"

lemma item_at_nth [simp]: "i < length xs \<Longrightarrow> item_at xs i = Inr (xs ! i)"
  by (simp add: item_at_def)

text \<open>
  One score per requested label, the support of a label being its number of true rows.
\<close>

definition counts_support :: "'y scorer \<Rightarrow> bool" where
  "counts_support M \<longleftrightarrow> (\<forall>labels y_true y_pred p r f s.
     fscore_each M labels y_true y_pred = Inr (p, r, f, s) \<longrightarrow>
       length p = length labels \<and> length r = length labels \<and> length f = length labels \<and>
       s = map (\<lambda>l. int (count_list y_true l)) labels)"

section \<open>Two classes\<close>

type_synonym metrics = "(string, json) pydict"

definition opt_float :: "dbl option \<Rightarrow> json" where
  "opt_float x = (case x of None \<Rightarrow> JNull | Some d \<Rightarrow> JFloat d)"

definition ranking_scores :: "int scorer \<Rightarrow> int list \<Rightarrow> dbl list option \<Rightarrow> (dbl \<times> dbl) option result" where
  "ranking_scores M y_true scores =
     (case scores of None \<Rightarrow> Inr None
      | Some s \<Rightarrow> if 1 < length (uniq y_true) then
          bind_result (average_precision_score M y_true s) (\<lambda>ap.
          bind_result (roc_auc_score M y_true s) (\<lambda>roc. Inr (Some (ap, roc))))
        else Inr None)"

text \<open>The entries both the two-class dictionaries have, in their order.\<close>

definition score_entries :: "int scorer \<Rightarrow> int list \<Rightarrow> int list \<Rightarrow> metrics result" where
  "score_entries M y_true y_pred =
     bind_result (fscore_each M [0, 1] y_true y_pred) (\<lambda>(precision, recall, f1, support).
     bind_result (accuracy_score M y_true y_pred) (\<lambda>acc.
     bind_result (balanced_accuracy_score M y_true y_pred) (\<lambda>bal.
     bind_result (item_at precision 0) (\<lambda>p0. bind_result (item_at recall 0) (\<lambda>r0.
     bind_result (item_at f1 0) (\<lambda>f0. bind_result (item_at support 0) (\<lambda>s0.
     bind_result (item_at precision 1) (\<lambda>p1. bind_result (item_at recall 1) (\<lambda>r1.
     bind_result (item_at f1 1) (\<lambda>f1'. bind_result (item_at support 1) (\<lambda>s1.
       Inr [(''accuracy'', JFloat acc), (''balanced_accuracy'', JFloat bal),
         (''normal_precision'', JFloat p0), (''normal_recall'', JFloat r0),
         (''normal_f1'', JFloat f0), (''normal_support'', JInt s0),
         (''anomaly_precision'', JFloat p1), (''anomaly_recall'', JFloat r1),
         (''anomaly_f1'', JFloat f1'), (''anomaly_support'', JInt s1)])))))))))))"

definition prediction_counts :: "int list \<Rightarrow> json" where
  "prediction_counts y_pred =
     JObj [(''normal'', JInt (int (length (filter (\<lambda>y. y = 0) y_pred)))),
           (''anomaly'', JInt (int (length (filter (\<lambda>y. y = 1) y_pred))))]"

definition binary_metrics :: "int scorer \<Rightarrow> int list \<Rightarrow> int list \<Rightarrow> dbl list option \<Rightarrow> metrics result" where
  "binary_metrics M y_true y_pred scores =
     bind_result (score_entries M y_true y_pred) (\<lambda>entries.
     bind_result (ranking_scores M y_true scores) (\<lambda>ranking.
       Inr (entries @ [(''prediction_distribution'', prediction_counts y_pred),
              (''pr_auc'', opt_float (map_option fst ranking)),
              (''roc_auc'', opt_float (map_option snd ranking))])))"

text \<open>The ablation script always asks for the ranking scores.\<close>

definition ablation_binary_metrics :: "int scorer \<Rightarrow> int list \<Rightarrow> int list \<Rightarrow> dbl list \<Rightarrow> metrics result" where
  "ablation_binary_metrics M y_true y_pred scores =
     bind_result (score_entries M y_true y_pred) (\<lambda>entries.
     bind_result (average_precision_score M y_true scores) (\<lambda>ap.
     bind_result (roc_auc_score M y_true scores) (\<lambda>roc.
       Inr (entries @ [(''pr_auc'', JFloat ap), (''roc_auc'', JFloat roc),
              (''prediction_distribution'', prediction_counts y_pred)]))))"

section \<open>Many classes\<close>

definition class_entry :: "per_label \<Rightarrow> nat \<Rightarrow> json result" where
  "class_entry prfs i =
     (let (precision, recall, f1, support) = prfs in
      bind_result (item_at precision i) (\<lambda>p. bind_result (item_at recall i) (\<lambda>r.
      bind_result (item_at f1 i) (\<lambda>f. bind_result (item_at support i) (\<lambda>s.
        Inr (JObj [(''precision'', JFloat p), (''recall'', JFloat r), (''f1'', JFloat f),
               (''support'', JInt s)]))))))"

definition per_class :: "string list \<Rightarrow> per_label \<Rightarrow> (string, json) pydict result" where
  "per_class labels prfs =
     fold_result (\<lambda>(i, label) d. bind_result (class_entry prfs i) (\<lambda>e. Inr (dict_set label e d)))
       (enumerate 0 labels) []"

definition sorted_counter :: "string list \<Rightarrow> json" where
  "sorted_counter xs = JObj (map (\<lambda>(k, n). (k, JInt (int n))) (sort_key fst (counter xs)))"

text \<open>
  The dictionary for the labels given. The averages are taken over all labels that occur, or over
  the given ones.
\<close>

definition class_report ::
  "string scorer \<Rightarrow> string list option \<Rightarrow> string list \<Rightarrow> string list \<Rightarrow> string list \<Rightarrow> metrics result" where
  "class_report M average_labels labels y_true y_pred =
     bind_result (fscore_each M labels y_true y_pred) (\<lambda>prfs.
     bind_result (fscore_average M average_labels ''macro'' y_true y_pred) (\<lambda>(macro_p, macro_r, macro_f1).
     bind_result (fscore_average M average_labels ''weighted'' y_true y_pred) (\<lambda>(weighted_p, weighted_r, weighted_f1).
     bind_result (per_class labels prfs) (\<lambda>classes.
     bind_result (accuracy_score M y_true y_pred) (\<lambda>acc.
     bind_result (balanced_accuracy_score M y_true y_pred) (\<lambda>bal.
       Inr [(''accuracy'', JFloat acc), (''balanced_accuracy'', JFloat bal),
         (''macro_precision'', JFloat macro_p), (''macro_recall'', JFloat macro_r),
         (''macro_f1'', JFloat macro_f1), (''weighted_precision'', JFloat weighted_p),
         (''weighted_recall'', JFloat weighted_r), (''weighted_f1'', JFloat weighted_f1),
         (''prediction_distribution'', sorted_counter y_pred), (''per_class'', JObj classes)]))))))"

definition multiclass_metrics ::
  "string scorer \<Rightarrow> string list \<Rightarrow> string list \<Rightarrow> string list \<Rightarrow> metrics result" where
  "multiclass_metrics M y_true y_pred labels = class_report M None labels y_true y_pred"

definition ablation_multiclass_metrics ::
  "string scorer \<Rightarrow> string list \<Rightarrow> string list \<Rightarrow> string list \<Rightarrow> metrics result" where
  "ablation_multiclass_metrics M y_true y_pred labels = class_report M (Some labels) labels y_true y_pred"

text \<open>The labels a group of the generalization study is scored on.\<close>

definition active_labels :: "bool \<Rightarrow> string list \<Rightarrow> string list \<Rightarrow> string list \<Rightarrow> string list" where
  "active_labels present_only all_labels y_true y_pred =
     (if present_only then
        (let active = filter (\<lambda>l. l \<in> set y_true \<union> set y_pred) all_labels
         in if active = [] then all_labels else active)
      else all_labels)"

definition generalization_multiclass_metrics ::
  "string scorer \<Rightarrow> string list \<Rightarrow> string list \<Rightarrow> string list \<Rightarrow> bool \<Rightarrow> metrics result" where
  "generalization_multiclass_metrics M y_true y_pred all_labels present_only =
     (let active = active_labels present_only all_labels y_true y_pred in
      bind_result (class_report M (Some active) active y_true y_pred) (\<lambda>d.
        Inr (d @ [(''active_labels'', JArr (map JStr active))])))"

section \<open>Reading a metric back\<close>

definition metric :: "metrics \<Rightarrow> string \<Rightarrow> json result" where
  "metric d k = dict_index d k"

lemma class_entry_ok:
  assumes "counts_support M" and "fscore_each M labels y_true y_pred = Inr prfs" and "i < length labels"
  shows "\<exists>p r f. class_entry prfs i = Inr (JObj [(''precision'', JFloat p), (''recall'', JFloat r),
    (''f1'', JFloat f), (''support'', JInt (int (count_list y_true (labels ! i))))])"
proof -
  obtain p r f s where prfs: "prfs = (p, r, f, s)" by (cases prfs)
  have len: "length p = length labels" "length r = length labels" "length f = length labels"
    and s: "s = map (\<lambda>l. int (count_list y_true l)) labels"
    using assms(1,2) unfolding counts_support_def prfs by blast+
  then show ?thesis using assms(3) by (simp add: class_entry_def prfs)
qed

lemma fold_result_dict_set:
  assumes "distinct (map snd ps)" and "set (map snd ps) \<inter> set (map fst d) = {}"
  shows "fold_result (\<lambda>(i, l) d. bind_result (g i) (\<lambda>e. Inr (dict_set l e d))) ps d =
    bind_result (map_result (\<lambda>(i, l). bind_result (g i) (\<lambda>e. Inr (l, e))) ps) (\<lambda>es. Inr (d @ es))"
  using assms
proof (induction ps arbitrary: d)
  case (Cons p ps)
  obtain i l where p: "p = (i, l)" by (cases p)
  show ?case
  proof (cases "g i")
    case (Inr e)
    have "dict_set l e d = d @ [(l, e)]" using Cons.prems p by (intro dict_set_absent) auto
    then show ?thesis
      using Inr Cons.prems Cons.IH [of "d @ [(l, e)]"]
      by (cases "map_result (\<lambda>(i, l). bind_result (g i) (\<lambda>e. Inr (l, e))) ps") (auto simp: p)
  qed (simp add: p)
qed simp

lemma per_class_ok:
  assumes "counts_support M" and "fscore_each M labels y_true y_pred = Inr prfs" and "distinct labels"
  shows "\<exists>ps rs fs. length ps = length labels \<and> length rs = length labels \<and> length fs = length labels \<and>
    per_class labels prfs = Inr (map (\<lambda>(l, p, r, f). (l, JObj [(''precision'', JFloat p),
      (''recall'', JFloat r), (''f1'', JFloat f), (''support'', JInt (int (count_list y_true l)))]))
      (zip labels (zip ps (zip rs fs))))"
proof -
  obtain p r f s where prfs: "prfs = (p, r, f, s)" by (cases prfs)
  have len: "length p = length labels" "length r = length labels" "length f = length labels"
    and s: "s = map (\<lambda>l. int (count_list y_true l)) labels"
    using assms(1,2) unfolding counts_support_def prfs by blast+
  let ?e = "\<lambda>l p r f. JObj [(''precision'', JFloat p), (''recall'', JFloat r), (''f1'', JFloat f),
    (''support'', JInt (int (count_list y_true l)))]"
  have "map_result (\<lambda>(i, l). bind_result (class_entry prfs i) (\<lambda>e. Inr (l, e))) (enumerate 0 labels) =
      Inr (map (\<lambda>(i, l). (l, ?e l (p ! i) (r ! i) (f ! i))) (enumerate 0 labels))"
    by (rule map_result_total) (auto simp: class_entry_def prfs len s in_set_enumerate_eq)
  also have "map (\<lambda>(i, l). (l, ?e l (p ! i) (r ! i) (f ! i))) (enumerate 0 labels) =
      map (\<lambda>(l, p, r, f). (l, ?e l p r f)) (zip labels (zip p (zip r f)))"
    by (rule nth_equalityI) (simp_all add: len nth_enumerate_eq)
  finally show ?thesis
    unfolding per_class_def using assms(3) len
    by (intro exI [of _ p] exI [of _ r] exI [of _ f], subst fold_result_dict_set) simp_all
qed

lemma count_two: "set xs \<subseteq> {a, b} \<Longrightarrow> a \<noteq> b \<Longrightarrow> count_list xs a + count_list xs b = length xs"
  by (induction xs) auto

lemma length_filter_count: "length (filter (\<lambda>y. y = a) xs) = count_list xs a"
  by (induction xs) auto

section \<open>Properties\<close>

text \<open>The two-class metrics are consistent. The supports add up to the number of rows, the
prediction counts to the number of predictions, and the ranking scores are left out exactly when
the classifier gives no scores or only one class occurs.\<close>

theorem binary_metrics_consistent:
  assumes "counts_support M" and "binary_metrics M y_true y_pred scores = Inr d"
    and "set y_true \<subseteq> {0, 1}" and "set y_pred \<subseteq> {0, 1}"
  shows "\<exists>n0 n1 m0 m1. metric d ''normal_support'' = Inr (JInt (int n0)) \<and>
      metric d ''anomaly_support'' = Inr (JInt (int n1)) \<and> n0 + n1 = length y_true \<and>
      metric d ''prediction_distribution'' = Inr (JObj [(''normal'', JInt (int m0)), (''anomaly'', JInt (int m1))]) \<and>
      m0 + m1 = length y_pred \<and>
      (metric d ''pr_auc'' = Inr JNull \<longleftrightarrow> scores = None \<or> length (uniq y_true) \<le> 1) \<and>
      (metric d ''roc_auc'' = Inr JNull \<longleftrightarrow> scores = None \<or> length (uniq y_true) \<le> 1)"
proof -
  from assms(2) obtain es ranking where es: "score_entries M y_true y_pred = Inr es"
    and rk: "ranking_scores M y_true scores = Inr ranking"
    and d: "d = es @ [(''prediction_distribution'', prediction_counts y_pred),
       (''pr_auc'', opt_float (map_option fst ranking)), (''roc_auc'', opt_float (map_option snd ranking))]"
    by (auto simp: binary_metrics_def bind_result_Inr)
  from es obtain p r f s acc bal where each: "fscore_each M [0, 1] y_true y_pred = Inr (p, r, f, s)"
    and ab: "accuracy_score M y_true y_pred = Inr acc" "balanced_accuracy_score M y_true y_pred = Inr bal"
    by (auto simp: score_entries_def bind_result_Inr)
  have len: "length p = 2" "length r = 2" "length f = 2"
    and s: "s = [int (count_list y_true 0), int (count_list y_true 1)]"
    using assms(1) each unfolding counts_support_def by fastforce+
  have es': "es = [(''accuracy'', JFloat acc), (''balanced_accuracy'', JFloat bal),
         (''normal_precision'', JFloat (p ! 0)), (''normal_recall'', JFloat (r ! 0)),
         (''normal_f1'', JFloat (f ! 0)), (''normal_support'', JInt (int (count_list y_true 0))),
         (''anomaly_precision'', JFloat (p ! 1)), (''anomaly_recall'', JFloat (r ! 1)),
         (''anomaly_f1'', JFloat (f ! 1)), (''anomaly_support'', JInt (int (count_list y_true 1)))]"
  proof -
    have "p \<noteq> []" "r \<noteq> []" "f \<noteq> []" using len by auto
    then show ?thesis using es by (simp add: score_entries_def each ab len s item_at_def)
  qed
  have "ranking = None \<longleftrightarrow> scores = None \<or> length (uniq y_true) \<le> 1"
    using rk by (auto simp: ranking_scores_def bind_result_Inr split: option.splits if_splits)
  moreover have "metric d ''pr_auc'' = Inr (opt_float (map_option fst ranking))"
    and "metric d ''roc_auc'' = Inr (opt_float (map_option snd ranking))"
    by (simp_all add: d es' metric_def dict_index_def dict_get_def)
  ultimately have rank: "metric d ''pr_auc'' = Inr JNull \<longleftrightarrow> scores = None \<or> length (uniq y_true) \<le> 1"
    "metric d ''roc_auc'' = Inr JNull \<longleftrightarrow> scores = None \<or> length (uniq y_true) \<le> 1"
    by (cases ranking; simp add: opt_float_def)+
  have dist: "metric d ''normal_support'' = Inr (JInt (int (count_list y_true 0)))"
    "metric d ''anomaly_support'' = Inr (JInt (int (count_list y_true 1)))"
    "metric d ''prediction_distribution'' =
       Inr (JObj [(''normal'', JInt (int (count_list y_pred 0))), (''anomaly'', JInt (int (count_list y_pred 1)))])"
    by (simp_all add: d es' metric_def dict_index_def dict_get_def prediction_counts_def length_filter_count)
  show ?thesis
    using count_two [OF assms(3)] count_two [OF assms(4)] rank
    by (intro exI [of _ "count_list y_true 0"] exI [of _ "count_list y_true 1"]
        exI [of _ "count_list y_pred 0"] exI [of _ "count_list y_pred 1"]) (simp add: dist)
qed

lemma sum_list_count:
  "distinct ls \<Longrightarrow> (\<Sum>l \<leftarrow> ls. count_list xs l) = length (filter (\<lambda>x. x \<in> set ls) xs)"
proof (induction ls)
  case (Cons a ls)
  have "length (filter (\<lambda>x. x \<in> set (a # ls)) xs) =
      length (filter (\<lambda>x. x = a) xs) + length (filter (\<lambda>x. x \<in> set ls) xs)"
    using Cons.prems by (induction xs) auto
  then show ?case using Cons by (simp add: length_filter_count)
qed simp

lemma int_sum_list: "(\<Sum>x \<leftarrow> xs. int (f x)) = int (\<Sum>x \<leftarrow> xs. f x)"
  by (induction xs) simp_all

text \<open>The support recorded for a label of a report.\<close>

definition support_of :: "json \<Rightarrow> int" where
  "support_of j = (case j of JObj d \<Rightarrow> (case dict_get d ''support'' of Some (JInt n) \<Rightarrow> n | _ \<Rightarrow> 0) | _ \<Rightarrow> 0)"

lemma class_report_classes:
  assumes "counts_support M" and "class_report M avg labels y_true y_pred = Inr d" and "distinct labels"
  shows "\<exists>cs. metric d ''per_class'' = Inr (JObj cs) \<and> map fst cs = labels \<and>
    map (\<lambda>(l, e). support_of e) cs = map (\<lambda>l. int (count_list y_true l)) labels"
proof -
  from assms(2) obtain prfs classes where each: "fscore_each M labels y_true y_pred = Inr prfs"
    and cl: "per_class labels prfs = Inr classes" and d: "metric d ''per_class'' = Inr (JObj classes)"
    by (auto simp: class_report_def bind_result_Inr metric_def dict_index_def dict_get_def)
  from per_class_ok [OF assms(1) each assms(3)] cl obtain ps rs fs where
    len: "length ps = length labels" "length rs = length labels" "length fs = length labels"
    and c: "classes = map (\<lambda>(l, p, r, f). (l, JObj [(''precision'', JFloat p),
      (''recall'', JFloat r), (''f1'', JFloat f), (''support'', JInt (int (count_list y_true l)))]))
      (zip labels (zip ps (zip rs fs)))" by auto
  have "map fst classes = labels"
    by (rule nth_equalityI) (simp_all add: c len)
  moreover have "map (\<lambda>(l, e). support_of e) classes = map (\<lambda>l. int (count_list y_true l)) labels"
    by (rule nth_equalityI) (simp_all add: c len support_of_def dict_get_def)
  ultimately show ?thesis using d by blast
qed

text \<open>The scores per class of a generalization group. Each label that occurs among the true or
the predicted labels of the group and is known to the classifier has exactly one entry, in the
classifier's label order, unless none of them is known, when every label has one; the supports add
up to the true rows with a known label.\<close>

theorem group_report_covers_labels:
  assumes "counts_support M" and "distinct all_labels"
    and "generalization_multiclass_metrics M y_true y_pred all_labels True = Inr d"
  shows "\<exists>cs. metric d ''per_class'' = Inr (JObj cs) \<and>
    map fst cs = (if set all_labels \<inter> (set y_true \<union> set y_pred) = {} then all_labels
      else filter (\<lambda>l. l \<in> set y_true \<union> set y_pred) all_labels) \<and>
    (\<Sum>(l, e) \<leftarrow> cs. support_of e) = int (length (filter (\<lambda>l. l \<in> set all_labels) y_true))"
proof -
  let ?act = "active_labels True all_labels y_true y_pred"
  have act: "?act = (if set all_labels \<inter> (set y_true \<union> set y_pred) = {} then all_labels
      else filter (\<lambda>l. l \<in> set y_true \<union> set y_pred) all_labels)"
    by (auto simp: active_labels_def Let_def filter_empty_conv)
  from assms(3) obtain r where r: "class_report M (Some ?act) ?act y_true y_pred = Inr r"
    and d: "d = r @ [(''active_labels'', JArr (map JStr ?act))]"
    by (auto simp: generalization_multiclass_metrics_def Let_def bind_result_Inr)
  have dist: "distinct ?act" using assms(2) by (simp add: act)
  from class_report_classes [OF assms(1) r dist] obtain cs where
    cs: "metric r ''per_class'' = Inr (JObj cs)" "map fst cs = ?act"
    "map (\<lambda>(l, e). support_of e) cs = map (\<lambda>l. int (count_list y_true l)) ?act" by auto
  have "metric d ''per_class'' = Inr (JObj cs)"
    using cs(1) by (auto simp: d metric_def dict_index_Inr dict_get_def map_add_def)
  moreover have "(\<Sum>(l, e) \<leftarrow> cs. support_of e) = int (\<Sum>l \<leftarrow> ?act. count_list y_true l)"
    by (simp add: cs(3) int_sum_list)
  moreover have "filter (\<lambda>l. l \<in> set ?act) y_true = filter (\<lambda>l. l \<in> set all_labels) y_true"
    by (rule filter_cong) (auto simp: act)
  ultimately show ?thesis
    using cs(2) sum_list_count [OF dist] by (simp add: act)
qed


subsection \<open>Witnesses\<close>

text \<open>A scorer: the share of equal rows, and counted supports.\<close>

definition hit_share :: "'y list \<Rightarrow> 'y list \<Rightarrow> dbl result" where
  "hit_share y_true y_pred = count_ratio (length (filter (\<lambda>(a, b). a = b) (zip y_true y_pred))) (length y_true)"

definition demo_scorer :: "'y scorer" where
  "demo_scorer = \<lparr>accuracy_score = hit_share, balanced_accuracy_score = hit_share,
     fscore_each = \<lambda>labels y_true y_pred. Inr (map (\<lambda>_. Fin 1) labels, map (\<lambda>_. Fin 1) labels,
       map (\<lambda>_. Fin 1) labels, map (\<lambda>l. int (count_list y_true l)) labels),
     fscore_average = \<lambda>_ _ y_true y_pred. bind_result (hit_share y_true y_pred) (\<lambda>a. Inr (a, a, a)),
     average_precision_score = \<lambda>_ _. Inr (Fin 1), roc_auc_score = \<lambda>_ _. Inr (Fin 1),
     confusion_matrix = \<lambda>labels y_true y_pred. Inr (map (\<lambda>a. map (\<lambda>b.
       int (count_list (zip y_true y_pred) (a, b))) labels) labels)\<rparr>"

lemma demo_scorer_counts: "counts_support demo_scorer"
  by (simp add: counts_support_def demo_scorer_def)

lemma demo_share: "hit_share [a] [a] = Inr (Fin 1)"
  using count_ratio_unit(1) [of 1 1] fl_of_int [of 1] by (simp add: hit_share_def)

lemma binary_metrics_consistent_witness:
  "\<exists>d. binary_metrics demo_scorer [1] [1] None = Inr d \<and>
     (\<exists>n0 n1 m0 m1. metric d ''normal_support'' = Inr (JInt (int n0)) \<and>
      metric d ''anomaly_support'' = Inr (JInt (int n1)) \<and> n0 + n1 = length [1 :: int] \<and>
      metric d ''prediction_distribution'' = Inr (JObj [(''normal'', JInt (int m0)), (''anomaly'', JInt (int m1))]) \<and>
      m0 + m1 = length [1 :: int] \<and>
      (metric d ''pr_auc'' = Inr JNull \<longleftrightarrow> (None :: dbl list option) = None \<or> length (uniq [1 :: int]) \<le> 1) \<and>
      (metric d ''roc_auc'' = Inr JNull \<longleftrightarrow> (None :: dbl list option) = None \<or> length (uniq [1 :: int]) \<le> 1))"
proof -
  obtain d where d: "binary_metrics demo_scorer [1] [1] None = Inr d"
    by (simp add: binary_metrics_def score_entries_def ranking_scores_def demo_scorer_def demo_share item_at_def)
  have "set [1 :: int] \<subseteq> {0, 1}" by simp
  from binary_metrics_consistent [OF demo_scorer_counts d this this] d show ?thesis by blast
qed

lemma group_report_covers_labels_witness:
  "\<exists>d cs. generalization_multiclass_metrics demo_scorer [''b''] [''b''] [''a'', ''b''] True = Inr d \<and>
     metric d ''per_class'' = Inr (JObj cs) \<and> map fst cs = [''b''] \<and> (\<Sum>(l, e) \<leftarrow> cs. support_of e) = 1"
proof -
  obtain d where d: "generalization_multiclass_metrics demo_scorer [''b''] [''b''] [''a'', ''b''] True = Inr d"
    by (simp add: generalization_multiclass_metrics_def active_labels_def class_report_def demo_scorer_def
        demo_share per_class_def class_entry_def item_at_def)
  have "distinct [''a'', ''b'']" by simp
  from group_report_covers_labels [OF demo_scorer_counts this d] d show ?thesis by auto
qed

end
