(* ===== verification/Candidates.thy ===== *)
theory Candidates
  imports Rule_Detector Metrics
begin

text \<open>
  The candidate models of \<open>phase4_train_baselines.py\<close>: the estimators tried for each task, their
  names and configurations, how each is fitted and scored on the validation split, and the choice
  of the best one. The estimators of scikit-learn are a parameter: a record of their constructors
  and methods, where a method an estimator may lack is an option.
\<close>

section \<open>Estimators\<close>

text \<open>An array of one dimension, or one of two with its number of columns.\<close>

datatype nd_array = Vec "dbl list" | Mat nat "dbl list list"

record ('f, 'y, 'e) learner =
  dummy_prior :: 'e
  scaled_logreg :: "dbl \<Rightarrow> string option \<Rightarrow> int \<Rightarrow> 'e"
  random_forest :: "int \<Rightarrow> int option \<Rightarrow> int \<Rightarrow> string option \<Rightarrow> int \<Rightarrow> 'e"
  fit :: "'e \<Rightarrow> 'f \<Rightarrow> 'y list \<Rightarrow> 'e result"
  predict :: "'e \<Rightarrow> 'f \<Rightarrow> 'y list result"
  predict_proba :: "'e \<Rightarrow> ('f \<Rightarrow> nd_array result) option"
  decision_function :: "'e \<Rightarrow> ('f \<Rightarrow> nd_array result) option"
  np_exp :: "dbl \<Rightarrow> dbl"

definition sigmoid :: "(dbl \<Rightarrow> dbl) \<Rightarrow> dbl \<Rightarrow> dbl" where
  "sigmoid ex d = np_div (Fin 1) (dadd (Fin 1) (ex (dneg d)))"

definition decision_scores :: "('f, 'y, 'e) learner \<Rightarrow> 'e \<Rightarrow> 'f \<Rightarrow> dbl list option result" where
  "decision_scores L est x = (case decision_function L est of
      None \<Rightarrow> Inr None
    | Some df \<Rightarrow> bind_result (df x) (\<lambda>a. case a of
          Vec ds \<Rightarrow> Inr (Some (map (sigmoid (np_exp L)) ds))
        | Mat _ _ \<Rightarrow> Inr None))"

definition predict_scores :: "('f, 'y, 'e) learner \<Rightarrow> 'e \<Rightarrow> 'f \<Rightarrow> dbl list option result" where
  "predict_scores L est x = (case predict_proba L est of
      None \<Rightarrow> decision_scores L est x
    | Some pp \<Rightarrow> bind_result (pp x) (\<lambda>a. case a of
          Mat k rows \<Rightarrow> if 2 \<le> k then Inr (Some (map (\<lambda>r. r ! 1) rows)) else decision_scores L est x
        | Vec _ \<Rightarrow> decision_scores L est x))"

definition predict_multiclass_scores :: "('f, 'y, 'e) learner \<Rightarrow> 'e \<Rightarrow> 'f \<Rightarrow> nd_array option result" where
  "predict_multiclass_scores L est x = (case predict_proba L est of
      None \<Rightarrow> Inr None | Some pp \<Rightarrow> bind_result (pp x) (\<lambda>a. Inr (Some a)))"

section \<open>Targets\<close>

definition binary_target :: "('f, 'c) pandas \<Rightarrow> 'f \<Rightarrow> int list result" where
  "binary_target P frame =
     bind_result (texts P frame ''label'') (\<lambda>labels. Inr (map (\<lambda>l. if l \<noteq> NORMAL_LABEL then 1 else 0) labels))"

definition anomaly_only :: "('f, 'c) pandas \<Rightarrow> 'f \<Rightarrow> 'f result" where
  "anomaly_only P frame =
     bind_result (texts P frame ''label'') (\<lambda>labels. Inr (loc P (map (\<lambda>l. l \<noteq> NORMAL_LABEL) labels) frame))"

section \<open>Candidates\<close>

record ('y, 's, 'e) model_result =
  model_name :: string
  family :: string
  config :: metrics
  val_metrics :: metrics
  estimator :: 'e
  test_metrics :: "metrics option"
  val_predictions :: "'y list option"
  val_scores :: "'s option"
  test_predictions :: "'y list option"
  test_scores :: "'s option"

datatype 'e detector = Library 'e | Rules rule_detector

definition LOGREG_C :: "string list" where
  "LOGREG_C = [''0.1'', ''1.0'', ''10.0'']"

definition CLASS_WEIGHTS :: "string option list" where
  "CLASS_WEIGHTS = [None, Some ''balanced'']"

definition float_literal :: "string \<Rightarrow> dbl" where
  "float_literal s = (case py_float s of Some d \<Rightarrow> d | None \<Rightarrow> NaN)"

definition weight_text :: "string option \<Rightarrow> string" where
  "weight_text w = (case w of None \<Rightarrow> ''none'' | Some t \<Rightarrow> t)"

definition opt_str :: "string option \<Rightarrow> json" where
  "opt_str w = (case w of None \<Rightarrow> JNull | Some t \<Rightarrow> JStr t)"

definition opt_int :: "int option \<Rightarrow> json" where
  "opt_int d = (case d of None \<Rightarrow> JNull | Some n \<Rightarrow> JInt n)"

text \<open>\<open>itertools.product\<close>: the last factor varies fastest.\<close>

definition logreg_grid :: "(string \<times> string option) list" where
  "logreg_grid = [(c, w). c \<leftarrow> LOGREG_C, w \<leftarrow> CLASS_WEIGHTS]"

definition forest_grid :: "(int \<times> int option \<times> int \<times> string option) list" where
  "forest_grid = [(n, d, l, w). n \<leftarrow> [100, 300], d \<leftarrow> [None, Some 8, Some 16], l \<leftarrow> [1, 5], w \<leftarrow> CLASS_WEIGHTS]"

definition logreg_name :: "string \<times> string option \<Rightarrow> string" where
  "logreg_name = (\<lambda>(c, w). ''logreg_c'' @ c @ ''_cw'' @ weight_text w)"

definition forest_name :: "int \<times> int option \<times> int \<times> string option \<Rightarrow> string" where
  "forest_name = (\<lambda>(n, d, l, w). ''rf_n'' @ int_str n @ ''_d'' @
     (case d of None \<Rightarrow> ''none'' | Some k \<Rightarrow> int_str k) @ ''_leaf'' @ int_str l @ ''_cw'' @ weight_text w)"

definition logreg_config :: "string \<times> string option \<Rightarrow> metrics" where
  "logreg_config = (\<lambda>(c, w). [(''C'', JFloat (float_literal c)), (''class_weight'', opt_str w)])"

definition forest_config :: "int \<times> int option \<times> int \<times> string option \<Rightarrow> metrics" where
  "forest_config = (\<lambda>(n, d, l, w). [(''n_estimators'', JInt n), (''max_depth'', opt_int d),
     (''min_samples_leaf'', JInt l), (''class_weight'', opt_str w)])"

definition untested :: "string \<Rightarrow> string \<Rightarrow> metrics \<Rightarrow> metrics \<Rightarrow> 'e \<Rightarrow> 'y list \<Rightarrow> 's option \<Rightarrow> ('y, 's, 'e) model_result" where
  "untested name fam conf vm est pred scores =
     \<lparr>model_name = name, family = fam, config = conf, val_metrics = vm, estimator = est,
      test_metrics = None, val_predictions = Some pred, val_scores = scores,
      test_predictions = None, test_scores = None\<rparr>"

definition try_binary ::
  "('f, int, 'e) learner \<Rightarrow> int scorer \<Rightarrow> 'f \<Rightarrow> 'f \<Rightarrow> int list \<Rightarrow> int list \<Rightarrow>
     string \<Rightarrow> string \<Rightarrow> metrics \<Rightarrow> 'e \<Rightarrow> (int, dbl list, 'e detector) model_result result" where
  "try_binary L M trx vax y_train y_val name fam conf est0 =
     bind_result (fit L est0 trx y_train) (\<lambda>est.
     bind_result (predict L est vax) (\<lambda>pred.
     bind_result (predict_scores L est vax) (\<lambda>scores.
     bind_result (binary_metrics M y_val pred scores) (\<lambda>vm.
       Inr (untested name fam conf vm (Library est) pred scores)))))"

definition try_rules ::
  "('f, 'c) pandas \<Rightarrow> int scorer \<Rightarrow> 'f \<Rightarrow> 'f \<Rightarrow> int list \<Rightarrow> (int, dbl list, 'e detector) model_result result" where
  "try_rules P M train_df val_df y_val =
     bind_result (rule_fit P new_detector train_df) (\<lambda>det.
     bind_result (rule_predict P det val_df) (\<lambda>pred.
     bind_result (rule_predict_proba P det val_df) (\<lambda>proba.
     bind_result (binary_metrics M y_val pred (Some (map snd proba))) (\<lambda>vm.
       Inr (untested ''rule_based'' ''RuleBasedBinaryDetector'' [(''pressure_quantile'', JFloat (float_literal ''0.95''))]
              vm (Rules det) pred (Some (map snd proba)))))))"

definition fit_binary_candidates ::
  "('f, 'c) pandas \<Rightarrow> ('f, int, 'e) learner \<Rightarrow> int scorer \<Rightarrow> 'f \<Rightarrow> 'f \<Rightarrow> 'f \<Rightarrow> 'f \<Rightarrow> int \<Rightarrow>
     (int, dbl list, 'e detector) model_result list result" where
  "fit_binary_candidates P L M train_df val_df trx vax seed =
     bind_result (binary_target P train_df) (\<lambda>y_train.
     bind_result (binary_target P val_df) (\<lambda>y_val.
       let attempt = try_binary L M trx vax y_train y_val in
       bind_result (attempt ''dummy_prior'' ''DummyClassifier'' [(''strategy'', JStr ''prior'')] (dummy_prior L)) (\<lambda>dummy.
       bind_result (try_rules P M train_df val_df y_val) (\<lambda>rules.
       bind_result (map_result (\<lambda>(c, w). attempt (logreg_name (c, w)) ''LogisticRegression''
           (logreg_config (c, w)) (scaled_logreg L (float_literal c) w seed)) logreg_grid) (\<lambda>logregs.
       bind_result (map_result (\<lambda>(n, d, l, w). attempt (forest_name (n, d, l, w)) ''RandomForestClassifier''
           (forest_config (n, d, l, w)) (random_forest L n d l w seed)) forest_grid) (\<lambda>forests.
         Inr (dummy # rules # logregs @ forests)))))))"

definition try_multiclass ::
  "('f, string, 'e) learner \<Rightarrow> string scorer \<Rightarrow> string list \<Rightarrow> 'f \<Rightarrow> 'f \<Rightarrow> string list \<Rightarrow> string list \<Rightarrow>
     string \<Rightarrow> string \<Rightarrow> metrics \<Rightarrow> 'e \<Rightarrow> (string, nd_array, 'e) model_result result" where
  "try_multiclass L M labels trx vax y_train y_val name fam conf est0 =
     bind_result (fit L est0 trx y_train) (\<lambda>est.
     bind_result (predict L est vax) (\<lambda>pred.
     bind_result (multiclass_metrics M y_val pred labels) (\<lambda>vm.
     bind_result (predict_multiclass_scores L est vax) (\<lambda>scores.
       Inr (untested name fam conf vm est pred scores)))))"

definition fit_multiclass_candidates ::
  "('f, string, 'e) learner \<Rightarrow> string scorer \<Rightarrow> 'f \<Rightarrow> 'f \<Rightarrow> string list \<Rightarrow> string list \<Rightarrow> string list \<Rightarrow> int \<Rightarrow>
     (string, nd_array, 'e) model_result list result" where
  "fit_multiclass_candidates L M trx vax y_train y_val labels seed =
     (let attempt = try_multiclass L M labels trx vax y_train y_val in
      bind_result (attempt ''dummy_prior'' ''DummyClassifier'' [(''strategy'', JStr ''prior'')] (dummy_prior L)) (\<lambda>dummy.
      bind_result (map_result (\<lambda>(c, w). attempt (logreg_name (c, w)) ''LogisticRegression''
          (logreg_config (c, w)) (scaled_logreg L (float_literal c) w seed)) logreg_grid) (\<lambda>logregs.
      bind_result (map_result (\<lambda>(n, d, l, w). attempt (forest_name (n, d, l, w)) ''RandomForestClassifier''
          (forest_config (n, d, l, w)) (random_forest L n d l w seed)) forest_grid) (\<lambda>forests.
        Inr (dummy # logregs @ forests)))))"

section \<open>The best candidate\<close>

definition json_float :: "json \<Rightarrow> dbl result" where
  "json_float j = (case j of JFloat d \<Rightarrow> Inr d | JInt n \<Rightarrow> Inr (dbl_of_int n) | _ \<Rightarrow> Inl TypeError)"

definition binary_key :: "metrics \<Rightarrow> (dbl \<times> dbl) result" where
  "binary_key d =
     bind_result (metric d ''anomaly_f1'') (\<lambda>f. bind_result (metric d ''pr_auc'') (\<lambda>p.
     bind_result (json_float f) (\<lambda>x.
     bind_result (if p = JNull then Inr (Fin (- 1)) else json_float p) (\<lambda>y. Inr (x, y)))))"

definition multiclass_key :: "metrics \<Rightarrow> (dbl \<times> dbl) result" where
  "multiclass_key d =
     bind_result (metric d ''macro_f1'') (\<lambda>f. bind_result (metric d ''balanced_accuracy'') (\<lambda>b.
     bind_result (json_float f) (\<lambda>x. bind_result (json_float b) (\<lambda>y. Inr (x, y)))))"

definition max_by :: "('a \<Rightarrow> (dbl \<times> dbl) result) \<Rightarrow> 'a list \<Rightarrow> 'a result" where
  "max_by key xs =
     bind_result (map_result (\<lambda>x. bind_result (key x) (\<lambda>k. Inr (k, x))) xs) (\<lambda>kxs.
     bind_result (py_max dlt_pair fst kxs) (\<lambda>kx. Inr (snd kx)))"

definition choose_best_binary :: "('y, 's, 'e) model_result list \<Rightarrow> ('y, 's, 'e) model_result result" where
  "choose_best_binary results = max_by (\<lambda>r. binary_key (val_metrics r)) results"

definition choose_best_multiclass :: "('y, 's, 'e) model_result list \<Rightarrow> ('y, 's, 'e) model_result result" where
  "choose_best_multiclass results = max_by (\<lambda>r. multiclass_key (val_metrics r)) results"

section \<open>Lemmas\<close>

subsection \<open>The first maximum\<close>

lemma max_by_keys:
  assumes "\<And>x. x \<in> set xs \<Longrightarrow> \<exists>k. key x = Inr k"
  shows "max_by key xs = bind_result (py_max dlt_pair fst (map (\<lambda>x. (projr (key x), x)) xs)) (\<lambda>kx. Inr (snd kx))"
proof -
  have "map_result (\<lambda>x. bind_result (key x) (\<lambda>k. Inr (k, x))) xs = Inr (map (\<lambda>x. (projr (key x), x)) xs)"
    using assms by (intro map_result_total) force
  then show ?thesis by (simp add: max_by_def)
qed

lemma max_by_total:
  assumes "\<And>x. x \<in> set xs \<Longrightarrow> \<exists>k. key x = Inr k" and "xs \<noteq> []"
  shows "\<exists>m \<in> set xs. max_by key xs = Inr m"
proof -
  have "map (\<lambda>x. (projr (key x), x)) xs \<noteq> []" using assms(2) by simp
  from py_max_total [OF this] obtain kx where
    kx: "py_max dlt_pair fst (map (\<lambda>x. (projr (key x), x)) xs) = Inr kx" ..
  from pair_order.max_in [OF kx] have "snd kx \<in> set xs" by auto
  then show ?thesis using kx by (simp add: max_by_keys [OF assms(1)])
qed

lemma max_by_first:
  assumes keys: "\<And>x. x \<in> set xs \<Longrightarrow> \<exists>k. key x = Inr k \<and> no_nan_pair k" and m: "max_by key xs = Inr m"
  shows "\<exists>us vs. xs = us @ m # vs \<and> (\<forall>u \<in> set us. dlt_pair (projr (key u)) (projr (key m))) \<and>
    (\<forall>x \<in> set xs. \<not> dlt_pair (projr (key m)) (projr (key x)))"
proof -
  let ?g = "\<lambda>x. (projr (key x), x)"
  have k: "\<And>x. x \<in> set xs \<Longrightarrow> \<exists>k. key x = Inr k" using keys by blast
  from m obtain k where kx: "py_max dlt_pair fst (map ?g xs) = Inr (k, m)"
    by (auto simp: max_by_keys [OF k] bind_result_Inr)
  have ok: "\<forall>y \<in> set (map ?g xs). no_nan_pair (fst y)" using keys by fastforce
  from pair_order.max_in [OF kx] have km: "k = projr (key m)" by auto
  from pair_order.max_first [OF kx ok] obtain us vs where split: "map ?g xs = us @ (k, m) # vs"
    and us: "\<forall>u \<in> set us. dlt_pair (fst u) k" by auto
  have "xs = map snd (map ?g xs)" by (simp add: comp_def)
  also have "\<dots> = map snd us @ m # map snd vs" unfolding split by simp
  finally have "xs = map snd us @ m # map snd vs" .
  moreover have "\<forall>u \<in> set (map snd us). dlt_pair (projr (key u)) (projr (key m))"
  proof
    fix u assume "u \<in> set (map snd us)"
    then obtain y where y: "y \<in> set us" "u = snd y" by auto
    then have "y \<in> set (map ?g xs)" unfolding split by simp
    then have "fst y = projr (key u)" using y by auto
    then show "dlt_pair (projr (key u)) (projr (key m))" using us y km by auto
  qed
  moreover have "\<forall>x \<in> set xs. \<not> dlt_pair (projr (key m)) (projr (key x))"
    using pair_order.max_ge [OF kx ok] km by fastforce
  ultimately show ?thesis by blast
qed

lemma max_by_unique:
  assumes "m \<in> set xs" and "\<And>x. x \<in> set xs \<Longrightarrow> \<exists>k. key x = Inr k \<and> no_nan_pair k"
    and "\<And>x. x \<in> set xs \<Longrightarrow> x \<noteq> m \<Longrightarrow> dlt_pair (projr (key x)) (projr (key m))"
  shows "max_by key xs = Inr m"
proof -
  let ?g = "\<lambda>x. (projr (key x), x)"
  have "py_max dlt_pair fst (map ?g xs) = Inr (?g m)"
    using assms by (intro pair_order.max_unique) fastforce+
  moreover have "\<And>x. x \<in> set xs \<Longrightarrow> \<exists>k. key x = Inr k" using assms(2) by blast
  ultimately show ?thesis by (simp add: max_by_keys)
qed

subsection \<open>The metrics a key reads are there\<close>

lemma score_entries_f1:
  "score_entries M y p = Inr es \<Longrightarrow> \<exists>d. dict_get es ''anomaly_f1'' = Some (JFloat d) \<and>
     dict_get es ''pr_auc'' = None \<and> dict_get es ''prediction_distribution'' = None"
  by (auto simp: score_entries_def bind_result_Inr dict_get_def)

lemma dict_get_append:
  "dict_get (xs @ ys) k = (case dict_get xs k of Some v \<Rightarrow> Some v | None \<Rightarrow> dict_get ys k)"
  by (simp add: dict_get_def map_add_def split: option.splits)

lemma binary_key_metrics:
  assumes "binary_metrics M y p s = Inr d"
  shows "\<exists>k. binary_key d = Inr k"
proof -
  from assms obtain es ranking where es: "score_entries M y p = Inr es"
    and d: "d = es @ [(''prediction_distribution'', prediction_counts p),
       (''pr_auc'', opt_float (map_option fst ranking)), (''roc_auc'', opt_float (map_option snd ranking))]"
    by (auto simp: binary_metrics_def bind_result_Inr)
  from score_entries_f1 [OF es] obtain f where "dict_get es ''anomaly_f1'' = Some (JFloat f)"
    "dict_get es ''pr_auc'' = None" by blast
  then have "metric d ''anomaly_f1'' = Inr (JFloat f)"
    and "metric d ''pr_auc'' = Inr (opt_float (map_option fst ranking))"
    by (simp_all add: d metric_def dict_index_def dict_get_append, simp add: dict_get_def)
  then show ?thesis by (cases ranking) (simp_all add: binary_key_def json_float_def opt_float_def)
qed

lemma multiclass_key_metrics:
  assumes "multiclass_metrics M y p labels = Inr d"
  shows "\<exists>k. multiclass_key d = Inr k"
  using assms
  by (auto simp: multiclass_metrics_def class_report_def bind_result_Inr multiclass_key_def metric_def
      dict_index_def dict_get_def json_float_def)

subsection \<open>The candidate lists\<close>

definition binary_names :: "string list" where
  "binary_names = ''dummy_prior'' # ''rule_based'' # map logreg_name logreg_grid @ map forest_name forest_grid"

definition multiclass_names :: "string list" where
  "multiclass_names = ''dummy_prior'' # map logreg_name logreg_grid @ map forest_name forest_grid"

lemma names_distinct: "distinct binary_names" "length binary_names = 32"
  "distinct multiclass_names" "length multiclass_names = 31"
  by code_simp+

lemma try_binary_Inr:
  "try_binary L M trx vax yt yv name fam conf e0 = Inr r \<Longrightarrow>
     model_name r = name \<and> test_metrics r = None \<and> (\<exists>y p s. binary_metrics M y p s = Inr (val_metrics r))"
  by (auto simp: try_binary_def bind_result_Inr untested_def) blast

lemma try_rules_Inr:
  "try_rules P M tr va yv = Inr r \<Longrightarrow>
     model_name r = ''rule_based'' \<and> test_metrics r = None \<and> (\<exists>y p s. binary_metrics M y p s = Inr (val_metrics r))"
  by (auto simp: try_rules_def bind_result_Inr untested_def) blast

lemma try_multiclass_Inr:
  "try_multiclass L M labels trx vax yt yv name fam conf e0 = Inr r \<Longrightarrow>
     model_name r = name \<and> test_metrics r = None \<and> (\<exists>y p. multiclass_metrics M y p labels = Inr (val_metrics r))"
  by (auto simp: try_multiclass_def bind_result_Inr untested_def) blast

lemma map_result_names:
  assumes "map_result f xs = Inr rs" and "\<And>x r. f x = Inr r \<Longrightarrow> nm r = g x \<and> Q r"
  shows "map nm rs = map g xs" and "\<forall>r \<in> set rs. Q r"
proof -
  have "list_all2 (\<lambda>x r. f x = Inr r) xs rs" using assms(1) by (simp add: map_result_Inr)
  then have "map nm rs = map g xs \<and> (\<forall>r \<in> set rs. Q r)"
    by (induction rule: list_all2_induct) (use assms(2) in auto)
  then show "map nm rs = map g xs" and "\<forall>r \<in> set rs. Q r" by simp_all
qed


lemma fit_binary_candidatesE:
  assumes "fit_binary_candidates P L M tr va trx vax seed = Inr rs"
  obtains yt yv d ru ls fs where "binary_target P tr = Inr yt" "binary_target P va = Inr yv"
    "try_binary L M trx vax yt yv ''dummy_prior'' ''DummyClassifier'' [(''strategy'', JStr ''prior'')] (dummy_prior L) = Inr d"
    "try_rules P M tr va yv = Inr ru"
    "map_result (\<lambda>(c, w). try_binary L M trx vax yt yv (logreg_name (c, w)) ''LogisticRegression''
         (logreg_config (c, w)) (scaled_logreg L (float_literal c) w seed)) logreg_grid = Inr ls"
    "map_result (\<lambda>(n, d, l, w). try_binary L M trx vax yt yv (forest_name (n, d, l, w)) ''RandomForestClassifier''
         (forest_config (n, d, l, w)) (random_forest L n d l w seed)) forest_grid = Inr fs"
    "rs = d # ru # ls @ fs"
  using assms by (auto simp: fit_binary_candidates_def bind_result_Inr Let_def)

lemma binary_candidates:
  assumes "fit_binary_candidates P L M tr va trx vax seed = Inr rs"
  shows "map model_name rs = binary_names" and "\<forall>r \<in> set rs. \<exists>y p s. binary_metrics M y p s = Inr (val_metrics r)"
proof -
  from assms obtain yt yv d r ls fs where
    d: "try_binary L M trx vax yt yv ''dummy_prior'' ''DummyClassifier'' [(''strategy'', JStr ''prior'')] (dummy_prior L) = Inr d"
    and r: "try_rules P M tr va yv = Inr r"
    and ls: "map_result (\<lambda>(c, w). try_binary L M trx vax yt yv (logreg_name (c, w)) ''LogisticRegression''
         (logreg_config (c, w)) (scaled_logreg L (float_literal c) w seed)) logreg_grid = Inr ls"
    and fs: "map_result (\<lambda>(n, d, l, w). try_binary L M trx vax yt yv (forest_name (n, d, l, w)) ''RandomForestClassifier''
         (forest_config (n, d, l, w)) (random_forest L n d l w seed)) forest_grid = Inr fs"
    and rs: "rs = d # r # ls @ fs"
    by (rule fit_binary_candidatesE)
  let ?Q = "\<lambda>r. \<exists>y p s. binary_metrics M y p s = Inr (val_metrics r)"
  note d' = try_binary_Inr [OF d] and r' = try_rules_Inr [OF r]
  have "map model_name ls = map logreg_name logreg_grid" "\<forall>r \<in> set ls. ?Q r"
    by (rule map_result_names [OF ls, of model_name logreg_name ?Q]; auto dest!: try_binary_Inr split: prod.splits)+
  moreover have "map model_name fs = map forest_name forest_grid" "\<forall>r \<in> set fs. ?Q r"
    by (rule map_result_names [OF fs, of model_name forest_name ?Q]; auto dest!: try_binary_Inr split: prod.splits)+
  ultimately show "map model_name rs = binary_names" and "\<forall>r \<in> set rs. ?Q r"
    using d' r' by (auto simp: rs binary_names_def)
qed

lemma multiclass_candidates:
  assumes "fit_multiclass_candidates L M trx vax yt yv labels seed = Inr rs"
  shows "map model_name rs = multiclass_names" and "\<forall>r \<in> set rs. \<exists>y p. multiclass_metrics M y p labels = Inr (val_metrics r)"
proof -
  from assms obtain d ls fs where
    d: "try_multiclass L M labels trx vax yt yv ''dummy_prior'' ''DummyClassifier'' [(''strategy'', JStr ''prior'')] (dummy_prior L) = Inr d"
    and ls: "map_result (\<lambda>(c, w). try_multiclass L M labels trx vax yt yv (logreg_name (c, w)) ''LogisticRegression''
         (logreg_config (c, w)) (scaled_logreg L (float_literal c) w seed)) logreg_grid = Inr ls"
    and fs: "map_result (\<lambda>(n, d, l, w). try_multiclass L M labels trx vax yt yv (forest_name (n, d, l, w)) ''RandomForestClassifier''
         (forest_config (n, d, l, w)) (random_forest L n d l w seed)) forest_grid = Inr fs"
    and rs: "rs = d # ls @ fs"
    by (auto simp: fit_multiclass_candidates_def bind_result_Inr Let_def)
  let ?Q = "\<lambda>r. \<exists>y p. multiclass_metrics M y p labels = Inr (val_metrics r)"
  note d' = try_multiclass_Inr [OF d]
  have "map model_name ls = map logreg_name logreg_grid" "\<forall>r \<in> set ls. ?Q r"
    by (rule map_result_names [OF ls, of model_name logreg_name ?Q]; auto dest!: try_multiclass_Inr split: prod.splits)+
  moreover have "map model_name fs = map forest_name forest_grid" "\<forall>r \<in> set fs. ?Q r"
    by (rule map_result_names [OF fs, of model_name forest_name ?Q]; auto dest!: try_multiclass_Inr split: prod.splits)+
  ultimately show "map model_name rs = multiclass_names" and "\<forall>r \<in> set rs. ?Q r"
    using d' by (auto simp: rs multiclass_names_def)
qed


subsection \<open>The sigmoid\<close>

lemma fl_unit: "0 \<le> q \<Longrightarrow> q \<le> 1 \<Longrightarrow> 0 \<le> fl q \<and> fl q \<le> 1"
  using binary64.nonneg binary64.le_one by blast

lemma rnd_unit: "0 \<le> q \<Longrightarrow> q \<le> 1 \<Longrightarrow> rnd q = Fin (fl q)"
proof -
  assume "0 \<le> q" and "q \<le> 1"
  moreover have "(1 :: rat) \<le> 2 ^ 53" by simp
  ultimately show ?thesis by (metis rnd_small order_trans)
qed

lemma rnd_above_one: "1 \<le> q \<Longrightarrow> rnd q = PInf \<or> (\<exists>r. rnd q = Fin r \<and> 1 \<le> r)"
proof -
  assume q: "1 \<le> q"
  then have "1 \<le> fl q" using binary64.ge_int [of 1 q] by simp
  then show ?thesis using q by (auto simp: rnd_def Let_def inf_of_def)
qed

lemma sigmoid_unit:
  assumes "ex (dneg d) = PInf \<or> (\<exists>q. ex (dneg d) = Fin q \<and> 0 \<le> q)"
  shows "\<exists>q. sigmoid ex d = Fin q \<and> 0 \<le> q \<and> q \<le> 1"
proof -
  have "dadd (Fin 1) (ex (dneg d)) = PInf \<or> (\<exists>r. dadd (Fin 1) (ex (dneg d)) = Fin r \<and> 1 \<le> r)"
  proof (cases "ex (dneg d) = PInf")
    case False
    with assms obtain q where q: "ex (dneg d) = Fin q" "0 \<le> q" by blast
    then show ?thesis using rnd_above_one [of "1 + q"] by (simp add: dadd_def)
  qed (simp add: dadd_def)
  then show ?thesis
  proof
    assume "dadd (Fin 1) (ex (dneg d)) = PInf"
    then show ?thesis
      by (simp add: sigmoid_def np_div_def ddiv_def is_zero_def sign_bit_def zero_of_def)
  next
    assume "\<exists>r. dadd (Fin 1) (ex (dneg d)) = Fin r \<and> 1 \<le> r"
    then obtain r where r: "dadd (Fin 1) (ex (dneg d)) = Fin r" "1 \<le> r" by blast
    then have u: "0 \<le> 1 / r" "1 / r \<le> 1" by simp_all
    have "ddiv (Fin 1) (Fin r) = Inr (Fin (fl (1 / r)))"
      using r rnd_unit [OF u] by (auto simp: ddiv_def is_zero_def)
    then show ?thesis using fl_unit [OF u] by (simp add: sigmoid_def np_div_def r)
  qed
qed

section \<open>Properties\<close>

text \<open>C34: the grid search is complete and always ends with a best model. When fitting succeeds,
there is one result for each of the 32 two-class configurations, under distinct names and in grid
order, and 31 for the classes of anomalies; the comparison of their validation metrics never raises,
so a best one is found among them.\<close>

theorem grid_search_finds_best:
  assumes "fit_binary_candidates P L M tr va trx vax seed = Inr rs"
    and "fit_multiclass_candidates L' M' trx' vax' yt yv labels seed = Inr rs'"
  shows "map model_name rs = binary_names \<and> distinct (map model_name rs) \<and> length rs = 32 \<and>
    (\<exists>best \<in> set rs. choose_best_binary rs = Inr best) \<and>
    map model_name rs' = multiclass_names \<and> distinct (map model_name rs') \<and> length rs' = 31 \<and>
    (\<exists>best \<in> set rs'. choose_best_multiclass rs' = Inr best)"
proof -
  note b = binary_candidates [OF assms(1)] and m = multiclass_candidates [OF assms(2)]
  have len: "length rs = 32" "length rs' = 31"
    using arg_cong [OF b(1), of length] arg_cong [OF m(1), of length] by (simp_all add: names_distinct)
  have "\<And>r. r \<in> set rs \<Longrightarrow> \<exists>k. binary_key (val_metrics r) = Inr k"
    and "\<And>r. r \<in> set rs' \<Longrightarrow> \<exists>k. multiclass_key (val_metrics r) = Inr k"
    using b(2) m(2) binary_key_metrics multiclass_key_metrics by fast+
  moreover have "rs \<noteq> []" "rs' \<noteq> []" using len by auto
  ultimately show ?thesis
    unfolding choose_best_binary_def choose_best_multiclass_def
    using max_by_total [of rs "\<lambda>r. binary_key (val_metrics r)"]
      max_by_total [of rs' "\<lambda>r. multiclass_key (val_metrics r)"] len b(1) m(1)
    by (simp add: names_distinct)
qed

text \<open>What "best" means. If no validation metric is NaN, the chosen two-class model is not beaten
by any candidate in anomaly F1, and among those of equal F1 not in PR-AUC (a missing one counting
as -1); every candidate before it in grid order is strictly worse.\<close>

theorem best_binary_is_first_maximum:
  assumes "fit_binary_candidates P L M tr va trx vax seed = Inr rs"
    and "\<forall>r \<in> set rs. \<forall>k. binary_key (val_metrics r) = Inr k \<longrightarrow> no_nan_pair k"
  shows "\<exists>best earlier later. choose_best_binary rs = Inr best \<and> rs = earlier @ best # later \<and>
    (\<forall>r \<in> set earlier. dlt_pair (projr (binary_key (val_metrics r))) (projr (binary_key (val_metrics best)))) \<and>
    (\<forall>r \<in> set rs. \<not> dlt_pair (projr (binary_key (val_metrics best))) (projr (binary_key (val_metrics r))))"
proof -
  note b = binary_candidates [OF assms(1)]
  have keys: "\<exists>k. binary_key (val_metrics r) = Inr k \<and> no_nan_pair k" if "r \<in> set rs" for r
    using b(2) assms(2) that binary_key_metrics by meson
  have ne: "rs \<noteq> []" using b(1) by (auto simp: binary_names_def)
  have "\<exists>best \<in> set rs. max_by (\<lambda>r. binary_key (val_metrics r)) rs = Inr best"
    by (rule max_by_total [OF _ ne]) (meson keys)
  then obtain best where best: "max_by (\<lambda>r. binary_key (val_metrics r)) rs = Inr best" by blast
  from max_by_first [OF keys best] show ?thesis
    unfolding choose_best_binary_def using best by blast
qed


text \<open>Two-class scores are shares. Whatever way they are computed, from the class
probabilities or through the sigmoid of the decision function, the scores lie between 0 and 1 when
probabilities do and the exponential is not negative (it may overflow to infinity).\<close>

theorem predict_scores_unit:
  assumes "predict_scores L est x = Inr (Some ss)"
    and "\<forall>d. np_exp L d = PInf \<or> (\<exists>q. np_exp L d = Fin q \<and> 0 \<le> q)"
    and "\<forall>pp k rows. predict_proba L est = Some pp \<longrightarrow> pp x = Inr (Mat k rows) \<longrightarrow>
      (\<forall>r \<in> set rows. length r = k \<and> (\<forall>p \<in> set r. \<exists>q. p = Fin q \<and> 0 \<le> q \<and> q \<le> 1))"
  shows "\<forall>s \<in> set ss. \<exists>q. s = Fin q \<and> 0 \<le> q \<and> q \<le> 1"
proof -
  have sig: "\<exists>q. sigmoid (np_exp L) d = Fin q \<and> 0 \<le> q \<and> q \<le> 1" for d
    using assms(2) sigmoid_unit by meson
  have dec: "\<forall>s \<in> set ss. \<exists>q. s = Fin q \<and> 0 \<le> q \<and> q \<le> 1"
    if "decision_scores L est x = Inr (Some ss)"
  proof -
    from that obtain df a where "decision_function L est = Some df" and "df x = Inr a"
      and a: "(case a of Vec ds \<Rightarrow> Inr (Some (map (sigmoid (np_exp L)) ds)) | Mat _ _ \<Rightarrow> Inr None) =
        (Inr (Some ss) :: dbl list option result)"
      by (auto simp: decision_scores_def bind_result_Inr split: option.splits)
    from a obtain ds where "ss = map (sigmoid (np_exp L)) ds" by (cases a) auto
    then show ?thesis using sig by auto
  qed
  show ?thesis
  proof (cases "predict_proba L est")
    case None
    then show ?thesis using assms(1) dec by (simp add: predict_scores_def)
  next
    case (Some pp)
    with assms(1) obtain a where a: "pp x = Inr a" by (auto simp: predict_scores_def bind_result_Inr)
    show ?thesis
    proof (cases "\<exists>k rows. a = Mat k rows \<and> 2 \<le> k")
      case True
      then obtain k rows where k: "a = Mat k rows" "2 \<le> k" by blast
      have "r ! 1 \<in> set r" if "r \<in> set rows" for r
        using assms(3) Some a k that by (intro nth_mem) fastforce
      then show ?thesis using assms(1,3) Some a k by (fastforce simp: predict_scores_def)
    next
      case False
      then show ?thesis
        using assms(1) Some a dec by (cases a) (auto simp: predict_scores_def)
    qed
  qed
qed


subsection \<open>Witnesses\<close>

text \<open>A learner that always answers "normal", and gives class probabilities only to forests.\<close>

definition demo_learner :: "'y \<Rightarrow> (tframe, 'y, nat) learner" where
  "demo_learner y = \<lparr>dummy_prior = 0, scaled_logreg = \<lambda>_ _ _. 1, random_forest = \<lambda>_ _ _ _ _. 2,
     fit = \<lambda>e _ _. Inr e, predict = \<lambda>_ x. Inr (replicate (rows_of x) y),
     predict_proba = \<lambda>e. if e = 2 then Some (\<lambda>x. Inr (Mat 2 (replicate (rows_of x) [Fin 1, Fin 0]))) else None,
     decision_function = \<lambda>e. if e = 1 then Some (\<lambda>x. Inr (Vec (replicate (rows_of x) (Fin 0)))) else None,
     np_exp = \<lambda>_. Fin 1\<rparr>"

lemma hit_share_one: "\<exists>q. hit_share [a] ps = Inr (Fin q)"
proof -
  have "length (filter (\<lambda>(a, b). a = b) (zip [a] ps)) \<le> length (zip [a] ps)" by (rule length_filter_le)
  then have "length (filter (\<lambda>(a, b). a = b) (zip [a] ps)) \<le> 1" by simp
  from count_ratio_unit(1) [OF this] show ?thesis by (simp add: hit_share_def)
qed

lemma demo_binary_metrics: "\<exists>d. binary_metrics demo_scorer [y] p s = Inr d"
  using hit_share_one [of y p]
  by (auto simp: binary_metrics_def score_entries_def ranking_scores_def demo_scorer_def item_at_def
      split: option.splits)

lemma demo_multiclass_metrics: "\<exists>d. multiclass_metrics demo_scorer [y] p [y] = Inr d"
  using hit_share_one [of y p]
  by (auto simp: multiclass_metrics_def class_report_def demo_scorer_def per_class_def class_entry_def item_at_def)

lemma demo_binary_key:
  "binary_metrics demo_scorer y p s = Inr d \<Longrightarrow> binary_key d = Inr k \<Longrightarrow> no_nan_pair k"
  by (auto simp: binary_metrics_def score_entries_def ranking_scores_def demo_scorer_def item_at_def bind_result_Inr
      binary_key_def metric_def dict_index_def dict_get_def json_float_def opt_float_def no_nan_pair_def
      split: option.splits if_splits)

lemma demo_try_binary:
  assumes "rows_of vax = 1"
  shows "\<exists>r. try_binary (demo_learner (0 :: int)) demo_scorer x vax yt [0] name fam conf e = Inr r"
proof -
  have "\<exists>s. predict_scores (demo_learner (0 :: int)) e vax = Inr s"
    by (simp add: predict_scores_def decision_scores_def demo_learner_def)
  then obtain s where s: "predict_scores (demo_learner (0 :: int)) e vax = Inr s" ..
  have p: "fit (demo_learner (0 :: int)) e x yt = Inr e" "predict (demo_learner (0 :: int)) e vax = Inr [0]"
    by (simp_all add: demo_learner_def assms)
  from demo_binary_metrics obtain d where "binary_metrics demo_scorer [0] [0] s = Inr d" ..
  then show ?thesis by (simp add: try_binary_def p s)
qed

lemma demo_fit_binary:
  assumes "rows_of vax = 1"
  shows "\<exists>rs. fit_binary_candidates tables (demo_learner (0 :: int)) demo_scorer (one_window 0) (one_window 0) x vax 42 = Inr rs"
proof -
  let ?t = "try_binary (demo_learner (0 :: int)) demo_scorer x vax [0] [0]"
  have y: "binary_target tables (one_window 0) = Inr [0]"
    by (simp add: binary_target_def one_window_texts NORMAL_LABEL_def)
  obtain r1 where r1: "?t ''dummy_prior'' ''DummyClassifier'' [(''strategy'', JStr ''prior'')] (dummy_prior (demo_learner (0 :: int))) = Inr r1"
    using demo_try_binary [OF assms] by blast
  obtain r2 :: "(int, dbl list, nat detector) model_result" where
    r2: "try_rules tables demo_scorer (one_window 0) (one_window 0) [0] = Inr r2"
  proof -
    obtain det where det: "rule_fit tables new_detector (one_window 0) = Inr det" using one_window_fit by blast
    obtain tss where t: "rule_triggers tables det (one_window 0) = Inr tss" using one_window_triggers by blast
    obtain pred where pred: "rule_predict tables det (one_window 0) = Inr pred"
      by (simp add: rule_predict_def score_samples_def t)
    obtain proba where proba: "rule_predict_proba tables det (one_window 0) = Inr proba"
      by (simp add: rule_predict_proba_def score_samples_def t)
    from demo_binary_metrics obtain d where
      "binary_metrics demo_scorer [0] pred (Some (map snd proba)) = Inr d" ..
    then show thesis using that by (simp add: try_rules_def det pred proba)
  qed
  obtain ls where ls: "map_result (\<lambda>(c, w). ?t (logreg_name (c, w)) ''LogisticRegression'' (logreg_config (c, w))
      (scaled_logreg (demo_learner (0 :: int)) (float_literal c) w 42)) logreg_grid = Inr ls"
    using map_result_exists [of logreg_grid "\<lambda>(c, w). ?t (logreg_name (c, w)) ''LogisticRegression''
      (logreg_config (c, w)) (scaled_logreg (demo_learner (0 :: int)) (float_literal c) w 42)"] demo_try_binary [OF assms] by fastforce
  obtain fs where fs: "map_result (\<lambda>(n, d, l, w). ?t (forest_name (n, d, l, w)) ''RandomForestClassifier''
      (forest_config (n, d, l, w)) (random_forest (demo_learner (0 :: int)) n d l w 42)) forest_grid = Inr fs"
    using map_result_exists [of forest_grid "\<lambda>(n, d, l, w). ?t (forest_name (n, d, l, w)) ''RandomForestClassifier''
      (forest_config (n, d, l, w)) (random_forest (demo_learner (0 :: int)) n d l w 42)"] demo_try_binary [OF assms] by fastforce
  show ?thesis by (simp add: fit_binary_candidates_def Let_def y r1 r2 ls fs)
qed


lemma demo_try_multiclass:
  "\<exists>r. try_multiclass (demo_learner ''a'') demo_scorer [''a''] x (one_window 0) yt [''a''] name fam conf e = Inr r"
proof -
  have "\<exists>s. predict_multiclass_scores (demo_learner ''a'') e (one_window 0) = Inr s"
    by (simp add: predict_multiclass_scores_def demo_learner_def)
  then obtain s where s: "predict_multiclass_scores (demo_learner ''a'') e (one_window 0) = Inr s" ..
  have p: "fit (demo_learner ''a'') e x yt = Inr e" "predict (demo_learner ''a'') e (one_window 0) = Inr [''a'']"
    by (simp_all add: demo_learner_def one_window_def)
  from demo_multiclass_metrics obtain d where "multiclass_metrics demo_scorer [''a''] [''a''] [''a''] = Inr d" ..
  then show ?thesis by (simp add: try_multiclass_def p s)
qed

lemma demo_fit_multiclass:
  "\<exists>rs. fit_multiclass_candidates (demo_learner ''a'') demo_scorer x (one_window 0) yt [''a''] [''a''] 42 = Inr rs"
proof -
  let ?t = "try_multiclass (demo_learner ''a'') demo_scorer [''a''] x (one_window 0) yt [''a'']"
  obtain r1 where r1: "?t ''dummy_prior'' ''DummyClassifier'' [(''strategy'', JStr ''prior'')] (dummy_prior (demo_learner ''a'')) = Inr r1"
    using demo_try_multiclass by blast
  obtain ls where ls: "map_result (\<lambda>(c, w). ?t (logreg_name (c, w)) ''LogisticRegression'' (logreg_config (c, w))
      (scaled_logreg (demo_learner ''a'') (float_literal c) w 42)) logreg_grid = Inr ls"
    using map_result_exists [of logreg_grid "\<lambda>(c, w). ?t (logreg_name (c, w)) ''LogisticRegression''
      (logreg_config (c, w)) (scaled_logreg (demo_learner ''a'') (float_literal c) w 42)"] demo_try_multiclass by fastforce
  obtain fs where fs: "map_result (\<lambda>(n, d, l, w). ?t (forest_name (n, d, l, w)) ''RandomForestClassifier''
      (forest_config (n, d, l, w)) (random_forest (demo_learner ''a'') n d l w 42)) forest_grid = Inr fs"
    using map_result_exists [of forest_grid "\<lambda>(n, d, l, w). ?t (forest_name (n, d, l, w)) ''RandomForestClassifier''
      (forest_config (n, d, l, w)) (random_forest (demo_learner ''a'') n d l w 42)"] demo_try_multiclass by fastforce
  show ?thesis by (simp add: fit_multiclass_candidates_def Let_def r1 ls fs)
qed

lemma grid_search_finds_best_witness:
  "\<exists>rs rs'. fit_binary_candidates tables (demo_learner 0) demo_scorer (one_window 0) (one_window 0) (one_window 0) (one_window 0) 42 = Inr rs \<and>
     fit_multiclass_candidates (demo_learner ''a'') demo_scorer (one_window 0) (one_window 0) [''a''] [''a''] [''a''] 42 = Inr rs' \<and>
     length rs = 32 \<and> length rs' = 31 \<and> (\<exists>best \<in> set rs. choose_best_binary rs = Inr best)"
proof -
  obtain rs where rs: "fit_binary_candidates tables (demo_learner 0) demo_scorer (one_window 0) (one_window 0) (one_window 0) (one_window 0) 42 = Inr rs"
    using demo_fit_binary [of "one_window 0"] one_window_rows [of 0] by (auto simp: tables_def)
  obtain rs' where rs': "fit_multiclass_candidates (demo_learner ''a'') demo_scorer (one_window 0) (one_window 0) [''a''] [''a''] [''a''] 42 = Inr rs'"
    using demo_fit_multiclass by blast
  from grid_search_finds_best [OF rs rs'] rs rs' show ?thesis by blast
qed

lemma best_binary_is_first_maximum_witness:
  "\<exists>rs best earlier later. fit_binary_candidates tables (demo_learner 0) demo_scorer (one_window 0) (one_window 0) (one_window 0) (one_window 0) 42 = Inr rs \<and>
     choose_best_binary rs = Inr best \<and> rs = earlier @ best # later \<and>
     (\<forall>r \<in> set rs. \<not> dlt_pair (projr (binary_key (val_metrics best))) (projr (binary_key (val_metrics r))))"
proof -
  obtain rs where rs: "fit_binary_candidates tables (demo_learner 0) demo_scorer (one_window 0) (one_window 0) (one_window 0) (one_window 0) 42 = Inr rs"
    using demo_fit_binary [of "one_window 0"] one_window_rows [of 0] by (auto simp: tables_def)
  have "\<forall>r \<in> set rs. \<forall>k. binary_key (val_metrics r) = Inr k \<longrightarrow> no_nan_pair k"
    using binary_candidates(2) [OF rs] demo_binary_key by meson
  from best_binary_is_first_maximum [OF rs this] rs show ?thesis by blast
qed

lemma predict_scores_unit_witness:
  "\<exists>ss. predict_scores (demo_learner (0 :: int)) 2 (one_window 0) = Inr (Some ss) \<and> (\<forall>s \<in> set ss. \<exists>q. s = Fin q \<and> 0 \<le> q \<and> q \<le> 1)"
proof -
  have s: "predict_scores (demo_learner (0 :: int)) 2 (one_window 0) = Inr (Some [Fin 0])"
    by (simp add: predict_scores_def demo_learner_def one_window_def)
  have "\<forall>d. np_exp (demo_learner (0 :: int)) d = PInf \<or> (\<exists>q. np_exp (demo_learner (0 :: int)) d = Fin q \<and> 0 \<le> q)"
    by (simp add: demo_learner_def)
  moreover have "\<forall>pp k rows. predict_proba (demo_learner (0 :: int)) 2 = Some pp \<longrightarrow> pp (one_window 0) = Inr (Mat k rows) \<longrightarrow>
      (\<forall>r \<in> set rows. length r = k \<and> (\<forall>p \<in> set r. \<exists>q. p = Fin q \<and> 0 \<le> q \<and> q \<le> 1))"
    by (auto simp: demo_learner_def)
  ultimately show ?thesis using predict_scores_unit [OF s] s by blast
qed

end
