(* ===== verification/Baselines.thy ===== *)
theory Baselines
  imports Candidates
begin

text \<open>
  The rest of \<open>phase4_train_baselines.py\<close>: the test run of the best models, the tables, the JSON
  payloads, the Markdown summary and the saved models, and \<open>main\<close>, which trains everything before
  it writes the first file. A file's content is a value; the summary is a list of structured lines,
  without their Chinese wording.
\<close>

section \<open>Tables\<close>

type_synonym frame_columns = "(string \<times> item list) list"

text \<open>\<open>frame.insert(len(frame.columns), name, values)\<close>.\<close>

definition insert_column :: "nat \<Rightarrow> string \<Rightarrow> item list \<Rightarrow> frame_columns \<Rightarrow> frame_columns result" where
  "insert_column n name vs fc =
     (if name \<in> set (map fst fc) \<or> length vs \<noteq> n then Inl ValueError else Inr (fc @ [(name, vs)]))"

definition to_table :: "nat \<Rightarrow> frame_columns \<Rightarrow> table" where
  "to_table n fc = (map fst fc, map (\<lambda>i. map (\<lambda>(_, vs). vs ! i) fc) [0..<n])"

definition PREDICTION_COLUMNS :: "string list" where
  "PREDICTION_COLUMNS =
     [''experiment_id'', ''node_name'', ''window_start_unix_ms'', ''window_end_unix_ms'', ''label'',
      ''anomaly_active'', ''recovery_active'']"

definition text_columns :: "('f, 'c) pandas \<Rightarrow> string list \<Rightarrow> 'f \<Rightarrow> frame_columns result" where
  "text_columns P cs source =
     bind_result (select P cs source) (\<lambda>frame.
       map_result (\<lambda>c. bind_result (texts P frame c) (\<lambda>xs. Inr (c, map Text xs))) cs)"

definition label_of_binary :: "int \<Rightarrow> string" where
  "label_of_binary y = (if y = 1 then ANOMALY_LABEL else NORMAL_LABEL)"

definition binary_predictions ::
  "('f, 'c) pandas \<Rightarrow> string \<Rightarrow> 'f \<Rightarrow> int list \<Rightarrow> int list \<Rightarrow> dbl list option \<Rightarrow> table result" where
  "binary_predictions P split_name source y_true y_pred scores =
     (let n = nrows P source in
      bind_result (text_columns P PREDICTION_COLUMNS source) (\<lambda>f0.
      bind_result (insert_column n ''split'' (replicate n (Text split_name)) f0) (\<lambda>f1.
      bind_result (insert_column n ''true_binary'' (map Whole y_true) f1) (\<lambda>f2.
      bind_result (insert_column n ''pred_binary'' (map Whole y_pred) f2) (\<lambda>f3.
      bind_result (insert_column n ''pred_label'' (map (\<lambda>y. Text (label_of_binary y)) y_pred) f3) (\<lambda>f4.
      bind_result (insert_column n ''score_anomaly''
          (map Float (case scores of None \<Rightarrow> replicate n (Fin 0) | Some s \<Rightarrow> s)) f4) (\<lambda>f5.
        Inr (to_table n f5))))))))"

text \<open>\<open>np.max(scores, axis=1)\<close>: NaN wins, an empty row raises.\<close>

definition row_max :: "dbl list \<Rightarrow> dbl result" where
  "row_max xs = (if xs = [] then Inl ValueError else if NaN \<in> set xs then Inr NaN
     else Inr (foldl (\<lambda>a b. if dlt a b then b else a) (hd xs) (tl xs)))"

definition array_column :: "nd_array \<Rightarrow> nat \<Rightarrow> dbl list result" where
  "array_column a i = (case a of Vec _ \<Rightarrow> Inl IndexError
     | Mat k rows \<Rightarrow> if i < k then Inr (map (\<lambda>r. r ! i) rows) else Inl IndexError)"

definition top_scores :: "nd_array \<Rightarrow> dbl list result" where
  "top_scores a = (case a of Vec _ \<Rightarrow> Inl ValueError | Mat _ rows \<Rightarrow> map_result row_max rows)"

definition multiclass_predictions ::
  "('f, 'c) pandas \<Rightarrow> string \<Rightarrow> 'f \<Rightarrow> string list \<Rightarrow> nd_array option \<Rightarrow> string list \<Rightarrow> table result" where
  "multiclass_predictions P split_name source y_pred scores label_order =
     (let n = nrows P source in
      bind_result (text_columns P PREDICTION_COLUMNS source) (\<lambda>f0.
      bind_result (insert_column n ''split'' (replicate n (Text split_name)) f0) (\<lambda>f1.
      bind_result (texts P source ''label'') (\<lambda>labels.
      bind_result (insert_column n ''true_label'' (map Text labels) f1) (\<lambda>f2.
      bind_result (insert_column n ''pred_label'' (map Text y_pred) f2) (\<lambda>f3.
      bind_result (case scores of None \<Rightarrow> Inr f3
        | Some a \<Rightarrow>
            bind_result (top_scores a) (\<lambda>tops.
            bind_result (insert_column n ''top_score'' (map Float tops) f3) (\<lambda>f4.
              fold_result (\<lambda>(i, label) f.
                  bind_result (array_column a i) (\<lambda>xs. insert_column n (''score_'' @ label) (map Float xs) f))
                (enumerate 0 label_order) f4))) (\<lambda>f5.
        Inr (to_table n f5))))))))"

text \<open>The confusion matrix, one row per true label.\<close>

definition confusion_table :: "int list list \<Rightarrow> string list \<Rightarrow> table result" where
  "confusion_table matrix labels =
     (if length matrix \<noteq> length labels \<or> list_ex (\<lambda>r. length r \<noteq> length labels) matrix then Inl ValueError
      else Inr (''true_label'' # map (\<lambda>l. ''pred:'' @ l) labels,
        map (\<lambda>(l, r). Text (''true:'' @ l) # map Whole r) (zip labels matrix)))"

section \<open>The metric payloads\<close>

definition opt_metrics :: "metrics option \<Rightarrow> json" where
  "opt_metrics m = (case m of None \<Rightarrow> JNull | Some d \<Rightarrow> JObj d)"

definition candidate_json :: "('y, 's, 'e) model_result \<Rightarrow> json" where
  "candidate_json r = JObj [(''family'', JStr (family r)), (''config'', JObj (config r)),
     (''val_metrics'', JObj (val_metrics r)), (''test_metrics'', opt_metrics (test_metrics r))]"

definition candidates_json :: "('y, 's, 'e) model_result list \<Rightarrow> (string, json) pydict" where
  "candidates_json results = fold (\<lambda>r. dict_set (model_name r) (candidate_json r)) results []"

definition results_to_payload :: "('y, 's, 'e) model_result list \<Rightarrow> string \<Rightarrow> (string, json) pydict" where
  "results_to_payload results best_name =
     [(''best_model'', JStr best_name), (''candidates'', JObj (candidates_json results))]"

definition with_test_best :: "metrics option \<Rightarrow> (string, json) pydict \<Rightarrow> json" where
  "with_test_best m payload = JObj (dict_set ''test_best'' (opt_metrics m) payload)"

section \<open>The Markdown summary\<close>

datatype summary_line =
    Summary_Title
  | Run_Line string
  | Dataset_Line string
  | Feature_Total nat
  | Constant_Total nat
  | Section_Line nat
  | Model_Line string
  | Metric_Line string string string
  | Class_Line string string string string string
  | Note_Line nat
  | Gap_Line

text \<open>\<open>f"{x:.4f}"\<close> of a metric.\<close>

definition metric_text :: "metrics \<Rightarrow> string \<Rightarrow> string result" where
  "metric_text d k = bind_result (metric d k) (\<lambda>j. bind_result (json_float j) (\<lambda>x. Inr (fmt_fixed 4 x)))"

definition metric_line :: "string \<Rightarrow> metrics \<Rightarrow> string \<Rightarrow> summary_line list result" where
  "metric_line split d k = bind_result (metric_text d k) (\<lambda>t. Inr [Metric_Line split k t])"

definition optional_line :: "string \<Rightarrow> metrics \<Rightarrow> string \<Rightarrow> summary_line list result" where
  "optional_line split d k = (case dict_get d k of None \<Rightarrow> Inr [] | Some JNull \<Rightarrow> Inr [] | Some _ \<Rightarrow> metric_line split d k)"

text \<open>A dictionary that is there and not empty.\<close>

definition present :: "metrics option \<Rightarrow> metrics option" where
  "present m = (case m of None \<Rightarrow> None | Some d \<Rightarrow> if d = [] then None else Some d)"

definition all_lines :: "summary_line list result list \<Rightarrow> summary_line list result" where
  "all_lines rs = bind_result (map_result (\<lambda>r. r) rs) (\<lambda>ls. Inr (concat ls))"

definition class_line :: "string \<times> json \<Rightarrow> summary_line list result" where
  "class_line = (\<lambda>(label, j). case j of
      JObj d \<Rightarrow> bind_result (metric_text d ''precision'') (\<lambda>p. bind_result (metric_text d ''recall'') (\<lambda>r.
        bind_result (metric_text d ''f1'') (\<lambda>f. bind_result (metric d ''support'') (\<lambda>s.
          Inr [Class_Line label p r f (case s of JInt n \<Rightarrow> int_str n | _ \<Rightarrow> [])]))))
    | _ \<Rightarrow> Inl TypeError)"

definition class_lines :: "metrics \<Rightarrow> summary_line list result" where
  "class_lines d = bind_result (metric d ''per_class'') (\<lambda>j. case j of
      JObj cs \<Rightarrow> all_lines (map class_line (sort_key fst cs)) | _ \<Rightarrow> Inl AttributeError)"

definition summarise_markdown ::
  "string \<Rightarrow> string \<Rightarrow> string list \<Rightarrow> string list \<Rightarrow> ('y, 's, 'e) model_result \<Rightarrow>
     ('z, 't, 'g) model_result \<Rightarrow> summary_line list result" where
  "summarise_markdown run_id dataset_dir feature_cols constants binary_best multiclass_best =
     (let bv = val_metrics binary_best; mv = val_metrics multiclass_best in
      all_lines [
        Inr [Summary_Title, Gap_Line, Run_Line run_id, Dataset_Line dataset_dir,
          Feature_Total (length feature_cols), Constant_Total (length constants), Gap_Line,
          Section_Line 1, Gap_Line, Model_Line (model_name binary_best)],
        metric_line ''val'' bv ''anomaly_f1'', optional_line ''val'' bv ''pr_auc'',
        (case present (test_metrics binary_best) of None \<Rightarrow> Inr []
         | Some d \<Rightarrow> all_lines [metric_line ''test'' d ''anomaly_f1'', optional_line ''test'' d ''pr_auc'']),
        Inr [Gap_Line, Section_Line 2, Gap_Line, Model_Line (model_name multiclass_best)],
        metric_line ''val'' mv ''macro_f1'', metric_line ''val'' mv ''balanced_accuracy'',
        (case present (test_metrics multiclass_best) of None \<Rightarrow> Inr []
         | Some d \<Rightarrow> all_lines [metric_line ''test'' d ''macro_f1'', metric_line ''test'' d ''balanced_accuracy'']),
        Inr [Gap_Line, Section_Line 3, Gap_Line],
        (case present (test_metrics multiclass_best) of None \<Rightarrow> Inr [] | Some d \<Rightarrow> class_lines d),
        Inr [Gap_Line, Section_Line 4, Gap_Line, Note_Line 1, Note_Line 2, Note_Line 3]])"

section \<open>Training and testing\<close>

record 'e saved_model =
  saved_run_id :: string
  saved_estimator :: 'e
  saved_feature_columns :: "string list"
  saved_constant_columns :: "string list"
  saved_excluded_columns :: "string list"
  saved_task :: string
  saved_labels :: "string list option"
  saved_best_config :: metrics

datatype ('b, 'm) out_file =
    Json_File json
  | Table_File table
  | Summary_File "summary_line list"
  | Binary_Model "'b saved_model"
  | Multiclass_Model "'m saved_model"

record run_args =
  dataset_dir :: string
  results_dir :: string
  run_artifacts_dir :: string
  random_seed :: int
  run_id :: string
  now_utc :: string

text \<open>\<open>test_predictions\<close>, \<open>test_scores\<close> and \<open>test_metrics\<close> of the best model, which is an element of the
result list: the names are distinct, so it is the one of that name.\<close>

definition replace_result ::
  "('y, 's, 'e) model_result \<Rightarrow> ('y, 's, 'e) model_result list \<Rightarrow> ('y, 's, 'e) model_result list" where
  "replace_result r rs = map (\<lambda>x. if model_name x = model_name r then r else x) rs"

definition tested ::
  "('y, 's, 'e) model_result \<Rightarrow> 'y list \<Rightarrow> 's option \<Rightarrow> metrics \<Rightarrow> ('y, 's, 'e) model_result" where
  "tested r pred scores m = r\<lparr>test_predictions := Some pred, test_scores := scores, test_metrics := Some m\<rparr>"

definition test_binary ::
  "('f, 'c) pandas \<Rightarrow> ('f, int, 'e) learner \<Rightarrow> int scorer \<Rightarrow> 'f \<Rightarrow> 'f \<Rightarrow> int list \<Rightarrow>
     (int, dbl list, 'e detector) model_result \<Rightarrow> (int, dbl list, 'e detector) model_result result" where
  "test_binary P L M test_df tex y_test best =
     (case estimator best of
        Rules det \<Rightarrow>
          bind_result (rule_predict P det test_df) (\<lambda>pred.
          bind_result (rule_predict_proba P det test_df) (\<lambda>proba.
          bind_result (binary_metrics M y_test pred (Some (map snd proba))) (\<lambda>m.
            Inr (tested best pred (Some (map snd proba)) m))))
      | Library est \<Rightarrow>
          bind_result (predict L est tex) (\<lambda>pred.
          bind_result (predict_scores L est tex) (\<lambda>scores.
          bind_result (binary_metrics M y_test pred scores) (\<lambda>m.
            Inr (tested best pred scores m)))))"

definition test_multiclass ::
  "('f, string, 'e) learner \<Rightarrow> string scorer \<Rightarrow> 'f \<Rightarrow> string list \<Rightarrow> string list \<Rightarrow>
     (string, nd_array, 'e) model_result \<Rightarrow> (string, nd_array, 'e) model_result result" where
  "test_multiclass L M tex y_test labels best =
     bind_result (predict L (estimator best) tex) (\<lambda>pred.
     bind_result (predict_multiclass_scores L (estimator best) tex) (\<lambda>scores.
     bind_result (multiclass_metrics M y_test pred labels) (\<lambda>m.
       Inr (tested best pred scores m))))"

text \<open>The anomaly labels of all three splits, sorted.\<close>

definition anomaly_label_set :: "string list \<Rightarrow> string list" where
  "anomaly_label_set labels = sort (uniq (filter (\<lambda>l. l \<noteq> NORMAL_LABEL) labels))"

definition anomaly_rows :: "('f, 'c) pandas \<Rightarrow> string list \<Rightarrow> 'f \<Rightarrow> 'f" where
  "anomaly_rows P labels x = loc P (map (\<lambda>l. l \<noteq> NORMAL_LABEL) labels) x"

record ('f, 'b, 'm) trained =
  t_matrices :: "'f matrices"
  t_binary :: "(int, dbl list, 'b detector) model_result list"
  t_binary_best :: "(int, dbl list, 'b detector) model_result"
  t_multiclass :: "(string, nd_array, 'm) model_result list"
  t_multiclass_best :: "(string, nd_array, 'm) model_result"
  t_labels :: "string list"
  t_binary_confusion :: "int list list"
  t_multiclass_confusion :: "int list list"
  t_y_val :: "int list"
  t_y_test :: "int list"
  t_anomaly_val :: 'f
  t_anomaly_test :: 'f

definition train_models ::
  "('f, 'c) pandas \<Rightarrow> ('f, int, 'b) learner \<Rightarrow> ('f, string, 'm) learner \<Rightarrow> int scorer \<Rightarrow> string scorer \<Rightarrow>
     'f \<Rightarrow> 'f \<Rightarrow> 'f \<Rightarrow> int \<Rightarrow> ('f, 'b, 'm) trained result" where
  "train_models P LB LM MB MM train_df val_df test_df seed =
     bind_result (build_feature_matrices P train_df val_df test_df) (\<lambda>m.
     bind_result (fit_binary_candidates P LB MB train_df val_df (train_x m) (val_x m) seed) (\<lambda>binary_results.
     bind_result (choose_best_binary binary_results) (\<lambda>binary_best0.
     bind_result (binary_target P test_df) (\<lambda>y_test.
     bind_result (test_binary P LB MB test_df (test_x m) y_test binary_best0) (\<lambda>binary_best.
     bind_result (texts P train_df ''label'') (\<lambda>train_labels.
     bind_result (texts P val_df ''label'') (\<lambda>val_labels.
     bind_result (texts P test_df ''label'') (\<lambda>test_labels.
       let labels = anomaly_label_set (train_labels @ val_labels @ test_labels);
           av = anomaly_rows P val_labels val_df; ate = anomaly_rows P test_labels test_df in
     bind_result (texts P (anomaly_rows P train_labels train_df) ''label'') (\<lambda>ay_train.
     bind_result (texts P av ''label'') (\<lambda>ay_val.
     bind_result (texts P ate ''label'') (\<lambda>ay_test.
     bind_result (fit_multiclass_candidates LM MM (anomaly_rows P train_labels (train_x m))
         (anomaly_rows P val_labels (val_x m)) ay_train ay_val labels seed) (\<lambda>multiclass_results.
     bind_result (choose_best_multiclass multiclass_results) (\<lambda>multiclass_best0.
     bind_result (test_multiclass LM MM (anomaly_rows P test_labels (test_x m)) ay_test labels multiclass_best0)
       (\<lambda>multiclass_best.
     bind_result (confusion_matrix MB [0, 1] y_test (the (test_predictions binary_best))) (\<lambda>bc.
     bind_result (confusion_matrix MM labels ay_test (the (test_predictions multiclass_best))) (\<lambda>mc.
     bind_result (binary_target P val_df) (\<lambda>y_val.
       Inr \<lparr>t_matrices = m, t_binary = replace_result binary_best binary_results, t_binary_best = binary_best,
         t_multiclass = replace_result multiclass_best multiclass_results, t_multiclass_best = multiclass_best,
         t_labels = labels, t_binary_confusion = bc, t_multiclass_confusion = mc, t_y_val = y_val,
         t_y_test = y_test, t_anomaly_val = av, t_anomaly_test = ate\<rparr>)))))))))))))))))"

section \<open>Writing\<close>

fun write_all :: "(string \<times> 'a result) list \<Rightarrow> (string \<times> 'a) list \<times> unit result" where
  "write_all [] = ([], Inr ())"
| "write_all ((name, r) # fs) =
     (case r of Inl e \<Rightarrow> ([], Inl e)
      | Inr c \<Rightarrow> (let (out, res) = write_all fs in ((name, c) # out, res)))"

definition str_array :: "string list \<Rightarrow> json" where
  "str_array xs = JArr (map JStr xs)"

definition feature_columns_payload :: "'f matrices \<Rightarrow> json" where
  "feature_columns_payload m = JObj [(''excluded_columns'', str_array (sort EXCLUDED_COLUMNS)),
     (''raw_feature_columns'', str_array (raw_feature_columns m)),
     (''dropped_constant_columns'', str_array (constant_columns m)),
     (''final_feature_columns'', str_array (final_feature_columns m))]"

definition label_counts :: "('f, 'c) pandas \<Rightarrow> 'f \<Rightarrow> json result" where
  "label_counts P frame = bind_result (texts P frame ''label'') (\<lambda>ls. Inr (sorted_counter ls))"

definition run_manifest ::
  "('f, 'c) pandas \<Rightarrow> run_args \<Rightarrow> 'f \<Rightarrow> 'f \<Rightarrow> 'f \<Rightarrow> ('f, 'b, 'm) trained \<Rightarrow> json result" where
  "run_manifest P a train_df val_df test_df t =
     bind_result (label_counts P train_df) (\<lambda>train_counts.
     bind_result (label_counts P val_df) (\<lambda>val_counts.
     bind_result (label_counts P test_df) (\<lambda>test_counts.
       Inr (JObj [(''run_id'', JStr (run_id a)), (''generated_at_utc'', JStr (now_utc a)),
         (''dataset_dir'', JStr (dataset_dir a)), (''results_dir'', JStr (results_dir a)),
         (''artifacts_dir'', JStr (run_artifacts_dir a)), (''random_seed'', JInt (random_seed a)),
         (''binary_best_model'', JStr (model_name (t_binary_best t))),
         (''multiclass_best_model'', JStr (model_name (t_multiclass_best t))),
         (''binary_best_config'', JObj (config (t_binary_best t))),
         (''multiclass_best_config'', JObj (config (t_multiclass_best t))),
         (''binary_label_definition'', JObj [(''normal'', JInt 0), (''anomaly'', JInt 1)]),
         (''multiclass_labels'', str_array (t_labels t)),
         (''train_rows'', JInt (int (nrows P train_df))), (''val_rows'', JInt (int (nrows P val_df))),
         (''test_rows'', JInt (int (nrows P test_df))),
         (''train_label_distribution'', train_counts), (''val_label_distribution'', val_counts),
         (''test_label_distribution'', test_counts),
         (''feature_columns'', feature_columns_payload (t_matrices t))]))))"

definition saved ::
  "run_args \<Rightarrow> 'f matrices \<Rightarrow> string \<Rightarrow> string list option \<Rightarrow> ('y, 's, 'e) model_result \<Rightarrow> 'e saved_model" where
  "saved a m task labels best =
     \<lparr>saved_run_id = run_id a, saved_estimator = estimator best,
      saved_feature_columns = final_feature_columns m, saved_constant_columns = constant_columns m,
      saved_excluded_columns = sort EXCLUDED_COLUMNS, saved_task = task, saved_labels = labels,
      saved_best_config = config best\<rparr>"

definition binary_payload :: "('f, 'b, 'm) trained \<Rightarrow> json" where
  "binary_payload t = with_test_best (test_metrics (t_binary_best t))
     (results_to_payload (t_binary t) (model_name (t_binary_best t)))"

definition multiclass_payload :: "('f, 'b, 'm) trained \<Rightarrow> json" where
  "multiclass_payload t = with_test_best (test_metrics (t_multiclass_best t))
     (results_to_payload (t_multiclass t) (model_name (t_multiclass_best t)))"

definition result_files ::
  "('f, 'c) pandas \<Rightarrow> run_args \<Rightarrow> 'f \<Rightarrow> 'f \<Rightarrow> 'f \<Rightarrow> ('f, 'b, 'm) trained \<Rightarrow>
     (string \<times> ('b detector, 'm) out_file result) list" where
  "result_files P a train_df val_df test_df t =
     (let tab = (\<lambda>r. bind_result r (\<lambda>x. Inr (Table_File x))); bb = t_binary_best t; mb = t_multiclass_best t in
      [(''binary_metrics.json'', Inr (Json_File (binary_payload t))),
       (''multiclass_metrics.json'', Inr (Json_File (multiclass_payload t))),
       (''binary_confusion_matrix.csv'', tab (confusion_table (t_binary_confusion t) [NORMAL_LABEL, ANOMALY_LABEL])),
       (''multiclass_confusion_matrix.csv'', tab (confusion_table (t_multiclass_confusion t) (t_labels t))),
       (''binary_predictions_val.csv'', tab (binary_predictions P ''val'' val_df (t_y_val t)
          (the (val_predictions bb)) (val_scores bb))),
       (''binary_predictions_test.csv'', tab (binary_predictions P ''test'' test_df (t_y_test t)
          (the (test_predictions bb)) (test_scores bb))),
       (''multiclass_predictions_val.csv'', tab (multiclass_predictions P ''val'' (t_anomaly_val t)
          (the (val_predictions mb)) (val_scores mb) (t_labels t))),
       (''multiclass_predictions_test.csv'', tab (multiclass_predictions P ''test'' (t_anomaly_test t)
          (the (test_predictions mb)) (test_scores mb) (t_labels t))),
       (''feature_columns.json'', Inr (Json_File (feature_columns_payload (t_matrices t)))),
       (''run_manifest.json'', bind_result (run_manifest P a train_df val_df test_df t) (\<lambda>j. Inr (Json_File j))),
       (''baseline_summary.md'', bind_result (summarise_markdown (run_id a) (dataset_dir a)
          (final_feature_columns (t_matrices t)) (constant_columns (t_matrices t)) bb mb) (\<lambda>s. Inr (Summary_File s))),
       (''binary_best_model.joblib'', Inr (Binary_Model (saved a (t_matrices t) ''binary'' None bb))),
       (''multiclass_best_model.joblib'',
          Inr (Multiclass_Model (saved a (t_matrices t) ''multiclass'' (Some (t_labels t)) mb))),
       (''binary_candidate_metrics.json'', Inr (Json_File (binary_payload t))),
       (''multiclass_candidate_metrics.json'', Inr (Json_File (multiclass_payload t)))])"

definition baselines_main ::
  "('f, 'c) pandas \<Rightarrow> ('f, int, 'b) learner \<Rightarrow> ('f, string, 'm) learner \<Rightarrow> int scorer \<Rightarrow> string scorer \<Rightarrow>
     (string \<Rightarrow> 'f result) \<Rightarrow> run_args \<Rightarrow> (string \<times> ('b detector, 'm) out_file) list \<times> unit result" where
  "baselines_main P LB LM MB MM read_csv a =
     (case bind_result (read_csv ''windows_train.csv'') (\<lambda>train_df.
           bind_result (read_csv ''windows_val.csv'') (\<lambda>val_df.
           bind_result (read_csv ''windows_test.csv'') (\<lambda>test_df.
           bind_result (train_models P LB LM MB MM train_df val_df test_df (random_seed a)) (\<lambda>t.
             Inr (result_files P a train_df val_df test_df t))))) of
        Inl e \<Rightarrow> ([], Inl e)
      | Inr files \<Rightarrow> write_all files)"


section \<open>Lemmas\<close>

lemma fold_dict_set_names:
  assumes "distinct (map f rs)"
  shows "fold (\<lambda>r. dict_set (f r) (g r)) rs [] = map (\<lambda>r. (f r, g r)) rs"
proof -
  have "fold (\<lambda>r. dict_set (f r) (g r)) rs d = d @ map (\<lambda>r. (f r, g r)) rs"
    if "distinct (map f rs)" and "set (map f rs) \<inter> set (map fst d) = {}" for d
    using that
  proof (induction rs arbitrary: d)
    case (Cons r rs)
    have "dict_set (f r) (g r) d = d @ [(f r, g r)]" using Cons.prems by (intro dict_set_absent) auto
    then show ?case using Cons.IH [of "d @ [(f r, g r)]"] Cons.prems by auto
  qed simp
  from this [of "[]"] assms show ?thesis by simp
qed

lemma candidates_json_eq:
  "distinct (map model_name rs) \<Longrightarrow> candidates_json rs = map (\<lambda>r. (model_name r, candidate_json r)) rs"
  by (simp add: candidates_json_def fold_dict_set_names)

lemma names_replace_result [simp]: "map model_name (replace_result r rs) = map model_name rs"
  by (induction rs) (simp_all add: replace_result_def)

lemma untested_candidates:
  "fit_binary_candidates P L M tr va trx vax seed = Inr rs \<Longrightarrow> r \<in> set rs \<Longrightarrow> test_metrics r = None"
proof -
  assume a: "fit_binary_candidates P L M tr va trx vax seed = Inr rs" and r: "r \<in> set rs"
  from a obtain yt yv d ru ls fs where
    d: "try_binary L M trx vax yt yv ''dummy_prior'' ''DummyClassifier'' [(''strategy'', JStr ''prior'')] (dummy_prior L) = Inr d"
    and ru: "try_rules P M tr va yv = Inr ru"
    and ls: "map_result (\<lambda>(c, w). try_binary L M trx vax yt yv (logreg_name (c, w)) ''LogisticRegression''
         (logreg_config (c, w)) (scaled_logreg L (float_literal c) w seed)) logreg_grid = Inr ls"
    and fs: "map_result (\<lambda>(n, d, l, w). try_binary L M trx vax yt yv (forest_name (n, d, l, w)) ''RandomForestClassifier''
         (forest_config (n, d, l, w)) (random_forest L n d l w seed)) forest_grid = Inr fs"
    and rs: "rs = d # ru # ls @ fs"
    by (rule fit_binary_candidatesE)
  have "\<forall>r \<in> set ls. test_metrics r = None" "\<forall>r \<in> set fs. test_metrics r = None"
    by (rule map_result_names(2) [OF ls, of model_name logreg_name]
        map_result_names(2) [OF fs, of model_name forest_name]; auto dest!: try_binary_Inr split: prod.splits)+
  then show ?thesis
    using r try_binary_Inr [OF d] try_rules_Inr [OF ru] by (auto simp: rs)
qed

lemma test_binary_same:
  "test_binary P L M te tex y b0 = Inr b \<Longrightarrow> model_name b = model_name b0 \<and> test_metrics b \<noteq> None \<and>
     val_metrics b = val_metrics b0 \<and> family b = family b0 \<and> config b = config b0"
  by (auto simp: test_binary_def bind_result_Inr tested_def split: detector.splits)

lemma chooses_best:
  assumes "fit_binary_candidates P L M tr va trx vax seed = Inr rs"
  shows "\<exists>b \<in> set rs. choose_best_binary rs = Inr b"
  unfolding choose_best_binary_def
proof (rule max_by_total)
  show "rs \<noteq> []" using binary_candidates(1) [OF assms] by (auto simp: binary_names_def)
  show "\<exists>k. binary_key (val_metrics r) = Inr k" if "r \<in> set rs" for r
    using binary_candidates(2) [OF assms] that binary_key_metrics by meson
qed

lemma write_all_stops:
  assumes "write_all (xs @ (n, Inl e) # ys) = (out, res)"
  shows "res \<noteq> Inr ()" and "set (map fst out) \<subseteq> set (map fst xs)"
proof -
  have "res \<noteq> Inr () \<and> set (map fst out) \<subseteq> set (map fst xs)"
    using assms
  proof (induction xs arbitrary: out)
    case (Cons x xs)
    obtain m r where x: "x = (m, r)" by (cases x)
    show ?case
    proof (cases r)
      case (Inr c)
      obtain out1 res1 where w: "write_all (xs @ (n, Inl e) # ys) = (out1, res1)"
        by (cases "write_all (xs @ (n, Inl e) # ys)")
      with Cons.prems have "res1 = res" and "out = (m, c) # out1" by (simp_all add: x Inr)
      then show ?thesis using Cons.IH [of out1] w by (auto simp: x)
    qed (use Cons.prems in \<open>auto simp: x\<close>)
  qed auto
  then show "res \<noteq> Inr ()" and "set (map fst out) \<subseteq> set (map fst xs)" by simp_all
qed

lemma write_all_names: "write_all xs = (out, Inr ()) \<Longrightarrow> map fst out = map fst xs"
proof (induction xs arbitrary: out)
  case (Cons x xs)
  then show ?case by (cases x) (auto split: sum.splits prod.splits)
qed simp

lemma insert_column_Inr:
  "insert_column n c vs f = Inr g \<longleftrightarrow> c \<notin> set (map fst f) \<and> length vs = n \<and> g = f @ [(c, vs)]"
  by (auto simp: insert_column_def)

lemma score_columns:
  assumes "fold_result (\<lambda>(i, label) f. bind_result (array_column a i)
      (\<lambda>xs. insert_column n (''score_'' @ label) (map Float xs) f)) (enumerate j labels) f = Inr g"
    and "\<forall>(c, vs) \<in> set f. length vs = n"
  shows "map fst g = map fst f @ map (\<lambda>l. ''score_'' @ l) labels" and "\<forall>(c, vs) \<in> set g. length vs = n"
    and "labels \<noteq> [] \<Longrightarrow> \<exists>k rows. a = Mat k rows \<and> j + length labels \<le> k"
proof -
  have "map fst g = map fst f @ map (\<lambda>l. ''score_'' @ l) labels \<and> (\<forall>(c, vs) \<in> set g. length vs = n) \<and>
      (labels \<noteq> [] \<longrightarrow> (\<exists>k rows. a = Mat k rows \<and> j + length labels \<le> k))"
    using assms
  proof (induction labels arbitrary: f j)
    case (Cons l labels)
    from Cons.prems(1) obtain xs where xs: "array_column a j = Inr xs" "length xs = n"
      and rest: "fold_result (\<lambda>(i, label) f. bind_result (array_column a i)
        (\<lambda>xs. insert_column n (''score_'' @ label) (map Float xs) f)) (enumerate (Suc j) labels)
          (f @ [(''score_'' @ l, map Float xs)]) = Inr g"
      by (auto simp: bind_result_Inr insert_column_Inr)
    from xs(1) obtain k rows where "a = Mat k rows" "j < k"
      by (auto simp: array_column_def split: nd_array.splits if_splits)
    then show ?case
      using Cons.IH [OF rest] Cons.prems(2) xs(2) by (cases "labels = []") auto
  qed simp
  then show "map fst g = map fst f @ map (\<lambda>l. ''score_'' @ l) labels" and "\<forall>(c, vs) \<in> set g. length vs = n"
    and "labels \<noteq> [] \<Longrightarrow> \<exists>k rows. a = Mat k rows \<and> j + length labels \<le> k" by simp_all
qed

lemma text_columns_shape:
  assumes "data_frames P" and "text_columns P cs src = Inr f" and "distinct (columns P src)"
  shows "map fst f = cs" and "\<forall>(c, vs) \<in> set f. length vs = nrows P src"
proof -
  from assms(2) obtain g where g: "select P cs src = Inr g"
    and f: "map_result (\<lambda>c. bind_result (texts P g c) (\<lambda>xs. Inr (c, map Text xs))) cs = Inr f"
    by (auto simp: text_columns_def bind_result_Inr)
  have sub: "set cs \<subseteq> set (columns P src)"
  proof (rule ccontr)
    assume "\<not> set cs \<subseteq> set (columns P src)"
    from data_frames.select_missing [OF assms(1) this] g show False by auto
  qed
  from data_frames.select_present [OF assms(1,3) sub] g have n: "nrows P g = nrows P src" by auto
  have "list_all2 (\<lambda>c (d, vs). d = c \<and> length vs = nrows P src) cs f"
    using f unfolding map_result_Inr
    by (rule list_all2_mono) (auto simp: bind_result_Inr n dest: data_frames.texts_length [OF assms(1)])
  then show "map fst f = cs" and "\<forall>(c, vs) \<in> set f. length vs = nrows P src"
    by (induction rule: list_all2_induct) auto
qed


lemma multiclass_needs_columns:
  "k < length labels \<Longrightarrow> \<exists>e. multiclass_predictions P s src y_pred (Some (Mat k rows)) labels = Inl e"
proof (rule ccontr)
  assume k: "k < length labels" and "\<not> (\<exists>e. multiclass_predictions P s src y_pred (Some (Mat k rows)) labels = Inl e)"
  then obtain t where "multiclass_predictions P s src y_pred (Some (Mat k rows)) labels = Inr t"
    by (cases "multiclass_predictions P s src y_pred (Some (Mat k rows)) labels") auto
  then obtain f5 f4 where f4: "fold_result (\<lambda>(i, label) f. bind_result (array_column (Mat k rows) i)
      (\<lambda>xs. insert_column (nrows P src) (''score_'' @ label) (map Float xs) f)) (enumerate 0 labels) f4 = Inr f5"
    by (auto simp: multiclass_predictions_def Let_def bind_result_Inr)
  obtain ls l rest where split: "labels = ls @ l # rest" and ls: "length ls = k"
    using k id_take_nth_drop [OF k] by (metis length_take less_imp_le min.absorb2)
  have "fold_result (\<lambda>(i, label) f. bind_result (array_column (Mat k rows) i)
      (\<lambda>xs. insert_column (nrows P src) (''score_'' @ label) (map Float xs) f)) (enumerate 0 labels) f4 \<noteq> Inr f5"
    using ls by (auto simp: split enumerate_append_eq fold_result_append bind_result_Inr array_column_def)
  with f4 show False by blast
qed

section \<open>Properties\<close>

text \<open>C35: the metrics file tells the truth about the test run. It names the best two-class model,
lists all 32 candidates in grid order, and gives test metrics to exactly one of them, the best one:
the same metrics it records as those of the best model.\<close>

theorem payload_marks_best:
  assumes "fit_binary_candidates P L M tr va trx vax seed = Inr rs" and "choose_best_binary rs = Inr b0"
    and "test_binary P L M te tex y_test b0 = Inr b"
  shows "\<exists>tm cs. test_metrics b = Some tm \<and>
    with_test_best (test_metrics b) (results_to_payload (replace_result b rs) (model_name b)) =
      JObj [(''best_model'', JStr (model_name b)), (''candidates'', JObj cs), (''test_best'', JObj tm)] \<and>
    map fst cs = binary_names \<and> model_name b \<in> set binary_names \<and>
    (\<forall>(n, c) \<in> set cs. \<exists>d. c = JObj d \<and>
       dict_get d ''test_metrics'' = Some (if n = model_name b then JObj tm else JNull))"
proof -
  note b = binary_candidates [OF assms(1)] and same = test_binary_same [OF assms(3)]
  have names: "map model_name (replace_result b rs) = binary_names" using b by simp
  then have cs: "candidates_json (replace_result b rs) =
      map (\<lambda>r. (model_name r, candidate_json r)) (replace_result b rs)"
    by (simp add: candidates_json_eq names_distinct)
  obtain tm where tm: "test_metrics b = Some tm" using same by blast
  from assms(2) have "b0 \<in> set rs"
    by (auto simp: choose_best_binary_def max_by_def bind_result_Inr map_result_Inr dest!: pair_order.max_in)
      (fastforce simp: list_all2_conv_all_nth in_set_conv_nth bind_result_Inr)
  then have "model_name b \<in> set binary_names" using b(1) same by (metis image_eqI list.set_map)
  moreover have "\<exists>d. candidate_json r = JObj d \<and>
      dict_get d ''test_metrics'' = Some (if model_name r = model_name b then JObj tm else JNull)"
    if "r \<in> set (replace_result b rs)" for r
    using that untested_candidates [OF assms(1)] tm
    by (auto simp: replace_result_def candidate_json_def dict_get_def opt_metrics_def)
  ultimately show ?thesis
    using names cs tm
    by (auto simp: with_test_best_def results_to_payload_def dict_set_def opt_metrics_def comp_def)
qed

text \<open>The table of predicted classes. It has the seven identifying columns, the split, the true
and the predicted label, the top score and one score column per label, as many rows as the frame,
each as wide as the header; and there are at least as many score columns as labels.\<close>

theorem multiclass_table_shape:
  assumes "data_frames P" and "distinct (columns P src)" and "labels \<noteq> []"
    and "multiclass_predictions P split src y_pred (Some a) labels = Inr (header, rows)"
  shows "header = PREDICTION_COLUMNS @ [''split'', ''true_label'', ''pred_label'', ''top_score''] @
      map (\<lambda>l. ''score_'' @ l) labels \<and>
    length rows = nrows P src \<and> length y_pred = nrows P src \<and> (\<forall>r \<in> set rows. length r = length header) \<and>
    (\<exists>k m. a = Mat k m \<and> length labels \<le> k)"
proof -
  let ?n = "nrows P src"
  from assms(4) obtain f0 ls tops g where f0: "text_columns P PREDICTION_COLUMNS src = Inr f0"
    and len: "length ls = ?n" "length y_pred = ?n" "length tops = ?n"
    and sc: "fold_result (\<lambda>(i, label) f. bind_result (array_column a i)
        (\<lambda>xs. insert_column ?n (''score_'' @ label) (map Float xs) f)) (enumerate 0 labels)
        (f0 @ [(''split'', replicate ?n (Text split)), (''true_label'', map Text ls),
          (''pred_label'', map Text y_pred), (''top_score'', map Float tops)]) = Inr g"
    and out: "header = map fst g" "rows = map (\<lambda>i. map (\<lambda>(_, vs). vs ! i) g) [0..<?n]"
    by (auto simp: multiclass_predictions_def Let_def bind_result_Inr insert_column_Inr to_table_def)
  note base = text_columns_shape [OF assms(1) f0 assms(2)]
  have "\<forall>(c, vs) \<in> set (f0 @ [(''split'', replicate ?n (Text split)), (''true_label'', map Text ls),
          (''pred_label'', map Text y_pred), (''top_score'', map Float tops)]). length vs = ?n"
    using base(2) len by auto
  note g = score_columns [OF sc this]
  have "length g = length (map fst g)" by simp
  then show ?thesis
    using g base(1) len(2) assms(3) by (auto simp: out)
qed

text \<open>C36: a class that no training window has costs the trained models. When the best multiclass
model gives fewer score columns than there are anomaly labels over all three splits, the run ends
with an error after at most the metrics, the confusion matrices and the two-class predictions are
written: no manifest, no summary and no model file.\<close>

theorem unseen_class_loses_models:
  assumes "val_scores (t_multiclass_best t) = Some (Mat k m)" and "k < length (t_labels t)"
    and "write_all (result_files P a tr va te t) = (files, res)"
  shows "res \<noteq> Inr () \<and> set (map fst files) \<subseteq>
    {''binary_metrics.json'', ''multiclass_metrics.json'', ''binary_confusion_matrix.csv'',
     ''multiclass_confusion_matrix.csv'', ''binary_predictions_val.csv'', ''binary_predictions_test.csv''}"
proof -
  let ?p = "multiclass_predictions P ''val'' (t_anomaly_val t) (the (val_predictions (t_multiclass_best t)))
    (val_scores (t_multiclass_best t)) (t_labels t)"
  obtain e where e: "?p = Inl e"
    using multiclass_needs_columns [OF assms(2)] assms(1) by metis
  let ?six = "[''binary_metrics.json'', ''multiclass_metrics.json'', ''binary_confusion_matrix.csv'',
     ''multiclass_confusion_matrix.csv'', ''binary_predictions_val.csv'', ''binary_predictions_test.csv'']"
  obtain xs ys where rf: "result_files P a tr va te t = xs @ (''multiclass_predictions_val.csv'', Inl e) # ys"
    and xs: "map fst xs = ?six"
  proof (rule that)
    show "result_files P a tr va te t = take 6 (result_files P a tr va te t) @
        (''multiclass_predictions_val.csv'', Inl e) # drop 7 (result_files P a tr va te t)"
      by (simp add: result_files_def Let_def e)
    show "map fst (take 6 (result_files P a tr va te t)) = ?six"
      by (simp add: result_files_def Let_def)
  qed
  have w: "write_all (xs @ (''multiclass_predictions_val.csv'', Inl e) # ys) = (files, res)"
    using assms(3) by (simp only: rf)
  have "set (map fst xs) = set ?six" by (simp only: xs)
  then show ?thesis using write_all_stops [OF w] by simp
qed


subsection \<open>Witnesses\<close>

lemma demo_test_binary:
  "\<exists>b. test_binary tables (demo_learner 0) demo_scorer (one_window 0) (one_window 0) [0] b0 = Inr b"
proof (cases "estimator b0")
  case (Rules det)
  obtain tss where t: "rule_triggers tables det (one_window 0) = Inr tss" using one_window_triggers by blast
  obtain pred where pred: "rule_predict tables det (one_window 0) = Inr pred"
    by (simp add: rule_predict_def score_samples_def t)
  obtain proba where proba: "rule_predict_proba tables det (one_window 0) = Inr proba"
    by (simp add: rule_predict_proba_def score_samples_def t)
  from demo_binary_metrics obtain d where "binary_metrics demo_scorer [0] pred (Some (map snd proba)) = Inr d" ..
  then show ?thesis by (simp add: test_binary_def Rules pred proba)
next
  case (Library est)
  have "\<exists>s. predict_scores (demo_learner (0 :: int)) est (one_window 0) = Inr s"
    by (simp add: predict_scores_def decision_scores_def demo_learner_def)
  then obtain s where s: "predict_scores (demo_learner (0 :: int)) est (one_window 0) = Inr s" ..
  have p: "predict (demo_learner (0 :: int)) est (one_window 0) = Inr [0]"
    by (simp add: demo_learner_def one_window_def)
  from demo_binary_metrics obtain d where "binary_metrics demo_scorer [0] [0] s = Inr d" ..
  then show ?thesis by (simp add: test_binary_def Library p s)
qed

lemma payload_marks_best_witness:
  "\<exists>rs b0 b tm cs. fit_binary_candidates tables (demo_learner 0) demo_scorer (one_window 0) (one_window 0) (one_window 0) (one_window 0) 42 = Inr rs \<and>
     choose_best_binary rs = Inr b0 \<and>
     test_binary tables (demo_learner 0) demo_scorer (one_window 0) (one_window 0) [0] b0 = Inr b \<and>
     with_test_best (test_metrics b) (results_to_payload (replace_result b rs) (model_name b)) =
      JObj [(''best_model'', JStr (model_name b)), (''candidates'', JObj cs), (''test_best'', JObj tm)] \<and>
     length cs = 32"
proof -
  obtain rs where rs: "fit_binary_candidates tables (demo_learner 0) demo_scorer (one_window 0) (one_window 0) (one_window 0) (one_window 0) 42 = Inr rs"
    using demo_fit_binary [of "one_window 0"] one_window_rows [of 0] by (auto simp: tables_def)
  from chooses_best [OF rs] obtain b0 where b0: "choose_best_binary rs = Inr b0" by blast
  obtain b where b: "test_binary tables (demo_learner 0) demo_scorer (one_window 0) (one_window 0) [0] b0 = Inr b"
    using demo_test_binary by blast
  from payload_marks_best [OF rs b0 b] obtain tm cs where
    w: "with_test_best (test_metrics b) (results_to_payload (replace_result b rs) (model_name b)) =
      JObj [(''best_model'', JStr (model_name b)), (''candidates'', JObj cs), (''test_best'', JObj tm)]"
    and cs: "map fst cs = binary_names" by blast
  from arg_cong [OF cs, of length] have "length cs = 32" by (simp add: names_distinct)
  with rs b0 b w show ?thesis by blast
qed

definition demo_source :: tframe where
  "demo_source = \<lparr>rows_of = 1, cells_of = map (\<lambda>c. (c, [Str ''v''])) PREDICTION_COLUMNS\<rparr>"

lemma multiclass_table_shape_witness:
  "\<exists>header rows. multiclass_predictions tables ''val'' demo_source [''a''] (Some (Mat 1 [[Fin 1]])) [''a''] = Inr (header, rows) \<and>
     length rows = 1 \<and> length header = 12 \<and> (\<forall>r \<in> set rows. length r = length header)"
proof -
  have "columns tables demo_source = PREDICTION_COLUMNS"
    by (simp add: tables_def tcolumns_def demo_source_def comp_def)
  then have d: "distinct (columns tables demo_source)" by (simp add: PREDICTION_COLUMNS_def)
  have n: "nrows tables demo_source = 1" by (simp add: tables_def demo_source_def)
  have "isl (multiclass_predictions tables ''val'' demo_source [''a''] (Some (Mat 1 [[Fin 1]])) [''a'']) = False"
    by code_simp
  then obtain header rows where
    t: "multiclass_predictions tables ''val'' demo_source [''a''] (Some (Mat 1 [[Fin 1]])) [''a''] = Inr (header, rows)"
    by (cases "multiclass_predictions tables ''val'' demo_source [''a''] (Some (Mat 1 [[Fin 1]])) [''a'']") auto
  from multiclass_table_shape [OF tables.data_frames_axioms d _ t] n t show ?thesis
    by (auto simp: PREDICTION_COLUMNS_def)
qed

definition demo_trained :: "(tframe, nat, nat) trained" where
  "demo_trained =
     \<lparr>t_matrices = \<lparr>train_x = one_window 0, val_x = one_window 0, test_x = one_window 0, raw_feature_columns = [],
        constant_columns = [], final_feature_columns = []\<rparr>,
      t_binary = [], t_binary_best = untested ''m'' ''f'' [] [] (Library 0) [0] None,
      t_multiclass = [], t_multiclass_best = untested ''m'' ''f'' [] [] 0 [''b''] (Some (Mat 1 [[Fin 1]])),
      t_labels = [''a'', ''b''], t_binary_confusion = [[1, 0], [0, 0]], t_multiclass_confusion = [[0, 0], [0, 1]],
      t_y_val = [0], t_y_test = [0], t_anomaly_val = demo_source, t_anomaly_test = demo_source\<rparr>"

definition demo_args :: run_args where
  "demo_args = \<lparr>dataset_dir = ''d'', results_dir = ''r'', run_artifacts_dir = ''a'', random_seed = 42,
     run_id = ''id'', now_utc = ''now''\<rparr>"

lemma unseen_class_loses_models_witness:
  "\<exists>files res. write_all (result_files tables demo_args demo_source demo_source demo_source demo_trained) = (files, res) \<and>
     res \<noteq> Inr () \<and> ''run_manifest.json'' \<notin> set (map fst files)"
proof -
  obtain files res where w: "write_all (result_files tables demo_args demo_source demo_source demo_source demo_trained) = (files, res)"
    by (cases "write_all (result_files tables demo_args demo_source demo_source demo_source demo_trained)")
  have "val_scores (t_multiclass_best demo_trained) = Some (Mat 1 [[Fin 1]])" and "1 < length (t_labels demo_trained)"
    by (simp_all add: demo_trained_def untested_def)
  from unseen_class_loses_models [OF this w] w show ?thesis by auto
qed

end
