(* ===== verification/Generalization.thy ===== *)
theory Generalization
  imports Baselines
begin

text \<open>
  \<open>phase6_run_generalization.py\<close>: the trained models applied to newly collected experiments. An
  experiment's topology, load tier and family are read off its identifier; predictions are listed
  per window and summarised per group.
\<close>

section \<open>Experiment identifiers\<close>

text \<open>
  The pattern \<open>^phase6-(local|remote)-(low|medium|high)-([a-z0-9-]+)-\\d{8}T\\d{6}Z$\<close>. The stamp has a
  fixed width, so the slug is what is left before it; \<open>$\<close> also matches before a final newline.
\<close>

definition strip_prefix :: "string \<Rightarrow> string \<Rightarrow> string option" where
  "strip_prefix p s = (if take (length p) s = p then Some (drop (length p) s) else None)"

definition choose_prefix :: "string list \<Rightarrow> string \<Rightarrow> (string \<times> string) option" where
  "choose_prefix ps s = List.find (\<lambda>_. True)
     (List.map_filter (\<lambda>p. map_option (\<lambda>rest. (p, rest)) (strip_prefix (p @ ''-'') s)) ps)"

definition slug_char :: "char \<Rightarrow> bool" where
  "slug_char c \<longleftrightarrow> (let n = of_char c :: nat in 97 \<le> n \<and> n \<le> 122) \<or> is_digit c \<or> c = CHR ''-''"

definition stamp_ok :: "string \<Rightarrow> bool" where
  "stamp_ok s \<longleftrightarrow> length s = 16 \<and> list_all is_digit (take 8 s) \<and> s ! 8 = CHR ''T'' \<and>
     list_all is_digit (take 6 (drop 9 s)) \<and> s ! 15 = CHR ''Z''"

definition NEWLINE :: string where
  "NEWLINE = [char_of (10 :: nat)]"

definition chomp :: "string \<Rightarrow> string" where
  "chomp s = (if s \<noteq> [] \<and> [last s] = NEWLINE then butlast s else s)"

definition match_slug :: "string \<Rightarrow> string option" where
  "match_slug s =
     (let body = chomp s; n = length body - 17; slug = take n body; tail = drop n body
      in if 17 < length body \<and> list_all slug_char slug \<and> hd tail = CHR ''-'' \<and> stamp_ok (tl tail)
         then Some slug else None)"

record experiment_parts =
  ex_topology :: string
  ex_load_tier :: string
  ex_family_slug :: string
  ex_family_from_slug :: string

definition match_experiment :: "string \<Rightarrow> (string \<times> string \<times> string) option" where
  "match_experiment s =
     (case strip_prefix ''phase6-'' s of None \<Rightarrow> None | Some r1 \<Rightarrow>
      (case choose_prefix [''local'', ''remote''] r1 of None \<Rightarrow> None | Some (topology, r2) \<Rightarrow>
       (case choose_prefix [''low'', ''medium'', ''high''] r2 of None \<Rightarrow> None | Some (load_tier, r3) \<Rightarrow>
         map_option (\<lambda>slug. (topology, load_tier, slug)) (match_slug r3))))"

definition SCENARIO_FAMILY_FROM_TYPE :: "(string \<times> string) list" where
  "SCENARIO_FAMILY_FROM_TYPE =
     [(''normal_steady_state'', ''normal''), (''backend_rollout_restart'', ''backend_churn''),
      (''conntrack_pressure'', ''conntrack_pressure''), (''path_degradation_netem'', ''path_degradation'')]"

definition FAMILY_FROM_SLUG :: "(string \<times> string) list" where
  "FAMILY_FROM_SLUG =
     [(''normal'', ''normal''), (''backend-churn'', ''backend_churn''),
      (''conntrack-pressure'', ''conntrack_pressure''), (''path-degradation'', ''path_degradation'')]"

definition PRIMARY_LABEL_BY_FAMILY :: "(string \<times> string) list" where
  "PRIMARY_LABEL_BY_FAMILY =
     [(''backend_churn'', ''backend_churn''), (''conntrack_pressure'', ''conntrack_pressure''),
      (''path_degradation'', ''path_degradation'')]"

definition parse_experiment_id :: "string \<Rightarrow> experiment_parts" where
  "parse_experiment_id s =
     (case match_experiment s of
        None \<Rightarrow> \<lparr>ex_topology = ''unknown'', ex_load_tier = ''unknown'', ex_family_slug = ''unknown'',
          ex_family_from_slug = ''unknown''\<rparr>
      | Some (topology, load_tier, slug) \<Rightarrow>
          \<lparr>ex_topology = topology, ex_load_tier = load_tier, ex_family_slug = slug,
           ex_family_from_slug = dict_get_or (replace_char (CHR ''-'') ''_'' slug) FAMILY_FROM_SLUG slug\<rparr>)"

subsection \<open>What the pattern accepts\<close>

lemma strip_prefix_Some: "strip_prefix p s = Some r \<longleftrightarrow> s = p @ r"
  by (auto simp: strip_prefix_def) (metis append_take_drop_id)

lemma choose_prefix_Nil [simp]: "choose_prefix [] s = None"
  by (simp add: choose_prefix_def map_filter_simps)

lemma choose_prefix_Cons:
  "choose_prefix (p # ps) s =
     (case strip_prefix (p @ ''-'') s of Some r \<Rightarrow> Some (p, r) | None \<Rightarrow> choose_prefix ps s)"
  by (simp add: choose_prefix_def map_filter_simps split: option.split)

lemma chomp_split: "\<exists>nl \<in> {[], NEWLINE}. s = chomp s @ nl"
proof (cases "s \<noteq> [] \<and> [last s] = NEWLINE")
  case True
  then have "s = chomp s @ NEWLINE" by (metis append_butlast_last_id chomp_def)
  then show ?thesis by blast
qed (auto simp: chomp_def)

lemma chomp_append:
  assumes "x \<noteq> []" and "[last x] \<noteq> NEWLINE" and "nl \<in> {[], NEWLINE}"
  shows "chomp (x @ nl) = x"
  using assms by (auto simp: chomp_def NEWLINE_def butlast_append)

lemma stamp_end: "stamp_ok s \<Longrightarrow> s \<noteq> [] \<and> last s = CHR ''Z''"
proof -
  assume s: "stamp_ok s"
  then have "s \<noteq> []" by (auto simp: stamp_ok_def)
  then show ?thesis using s by (simp add: last_conv_nth stamp_ok_def)
qed

lemma newline_Z: "[CHR ''Z''] \<noteq> NEWLINE"
  by code_simp

lemma match_slug_iff:
  "match_slug s = Some f \<longleftrightarrow> (\<exists>stamp nl. s = f @ ''-'' @ stamp @ nl \<and> stamp_ok stamp \<and> f \<noteq> [] \<and>
     list_all slug_char f \<and> nl \<in> {[], NEWLINE})" (is "?L \<longleftrightarrow> ?R")
proof
  assume ?L
  let ?n = "length (chomp s) - 17"
  from \<open>?L\<close> have f: "f = take ?n (chomp s)" "17 < length (chomp s)" "list_all slug_char f"
    and tail: "hd (drop ?n (chomp s)) = CHR ''-''" "stamp_ok (tl (drop ?n (chomp s)))"
    by (auto simp: match_slug_def Let_def split: if_splits)
  have "drop ?n (chomp s) \<noteq> []" using f(2) by simp
  then have "drop ?n (chomp s) = ''-'' @ tl (drop ?n (chomp s))" using tail(1) by (cases "drop ?n (chomp s)") auto
  then have c: "chomp s = f @ ''-'' @ tl (drop ?n (chomp s))"
    by (metis append_take_drop_id f(1))
  from chomp_split obtain nl where nl: "nl \<in> {[], NEWLINE}" and s: "s = chomp s @ nl" by blast
  have "s = f @ ''-'' @ tl (drop ?n (chomp s)) @ nl" using s c by (metis append.assoc)
  moreover have "f \<noteq> []" using f by auto
  ultimately show ?R using tail(2) f(3) nl by blast
next
  assume ?R
  then obtain stamp nl where s: "s = f @ ''-'' @ stamp @ nl" and st: "stamp_ok stamp" and f: "f \<noteq> []" "list_all slug_char f"
    and nl: "nl \<in> {[], NEWLINE}" by blast
  have "chomp ((f @ ''-'' @ stamp) @ nl) = f @ ''-'' @ stamp"
    using stamp_end [OF st] newline_Z nl by (intro chomp_append) simp_all
  then have c: "chomp s = f @ ''-'' @ stamp" by (simp add: s)
  have "length stamp = 16" using st by (simp add: stamp_ok_def)
  then show ?L using f st by (simp add: match_slug_def Let_def c)
qed

text \<open>The pattern as a regular language.\<close>

definition experiment_id_of :: "string \<Rightarrow> string \<Rightarrow> string \<Rightarrow> string \<Rightarrow> string" where
  "experiment_id_of topology load_tier slug stamp =
     ''phase6-'' @ topology @ ''-'' @ load_tier @ ''-'' @ slug @ ''-'' @ stamp"

lemma choose_prefix_iff:
  assumes "\<And>p. p \<in> set ps \<Longrightarrow> CHR ''-'' \<notin> set p"
  shows "choose_prefix ps s = Some (p, r) \<longleftrightarrow> p \<in> set ps \<and> s = p @ ''-'' @ r"
proof -
  have uniq: "p = q" if "p @ ''-'' @ r = q @ ''-'' @ r'" "CHR ''-'' \<notin> set p" "CHR ''-'' \<notin> set q" for p q r r' :: string
  proof -
    have "takeWhile (\<lambda>c. c \<noteq> CHR ''-'') (p @ CHR ''-'' # r) = p" if "CHR ''-'' \<notin> set p" for p r
      using that by (induction p) auto
    note t = this [OF that(2), of r] this [OF that(3), of r']
    have "takeWhile (\<lambda>c. c \<noteq> CHR ''-'') (p @ CHR ''-'' # r) = takeWhile (\<lambda>c. c \<noteq> CHR ''-'') (q @ CHR ''-'' # r')"
      using that(1) by simp
    then show ?thesis by (simp only: t)
  qed
  have "choose_prefix ps s = Some (p, r) \<longleftrightarrow> p \<in> set ps \<and> s = p @ ''-'' @ r"
    if "\<forall>p \<in> set ps. CHR ''-'' \<notin> set p" for ps
    using that
  proof (induction ps)
    case (Cons q ps)
    show ?case
    proof (cases "strip_prefix (q @ ''-'') s")
      case None
      then have "\<nexists>r. s = q @ ''-'' @ r" by (metis append.assoc option.distinct(1) strip_prefix_Some)
      then show ?thesis using Cons None by (auto simp: choose_prefix_Cons)
    next
      case (Some r')
      then have s: "s = q @ ''-'' @ r'" by (simp add: strip_prefix_Some)
      have "p = q \<and> r = r'" if "p \<in> set (q # ps)" "s = p @ ''-'' @ r"
        using uniq [of p r q r'] that s Cons.prems by auto
      then show ?thesis using Some s by (auto simp: choose_prefix_Cons)
    qed
  qed simp
  then show ?thesis using assms by blast
qed

lemma match_experiment_iff:
  "match_experiment s = Some (t, l, f) \<longleftrightarrow> t \<in> {''local'', ''remote''} \<and> l \<in> {''low'', ''medium'', ''high''} \<and>
     f \<noteq> [] \<and> list_all slug_char f \<and>
     (\<exists>stamp nl. stamp_ok stamp \<and> nl \<in> {[], NEWLINE} \<and> s = experiment_id_of t l f stamp @ nl)"
proof -
  have topo: "choose_prefix [''local'', ''remote''] x = Some (p, r) \<longleftrightarrow> p \<in> {''local'', ''remote''} \<and> x = p @ ''-'' @ r"
    for x p r by (subst choose_prefix_iff) auto
  have tier: "choose_prefix [''low'', ''medium'', ''high''] x = Some (p, r) \<longleftrightarrow>
      p \<in> {''low'', ''medium'', ''high''} \<and> x = p @ ''-'' @ r" for x p r
    by (subst choose_prefix_iff) auto
  have "match_experiment s = Some (t, l, f) \<longleftrightarrow> (\<exists>r1 r2 r3. strip_prefix ''phase6-'' s = Some r1 \<and>
      choose_prefix [''local'', ''remote''] r1 = Some (t, r2) \<and>
      choose_prefix [''low'', ''medium'', ''high''] r2 = Some (l, r3) \<and> match_slug r3 = Some f)"
    by (auto simp: match_experiment_def split: option.splits)
  also have "\<dots> \<longleftrightarrow> (\<exists>r3. t \<in> {''local'', ''remote''} \<and> l \<in> {''low'', ''medium'', ''high''} \<and>
      s = ''phase6-'' @ t @ ''-'' @ l @ ''-'' @ r3 \<and> match_slug r3 = Some f)"
    unfolding topo tier strip_prefix_Some by blast
  also have "\<dots> \<longleftrightarrow> t \<in> {''local'', ''remote''} \<and> l \<in> {''low'', ''medium'', ''high''} \<and>
     f \<noteq> [] \<and> list_all slug_char f \<and>
     (\<exists>stamp nl. stamp_ok stamp \<and> nl \<in> {[], NEWLINE} \<and> s = experiment_id_of t l f stamp @ nl)"
    unfolding match_slug_iff experiment_id_of_def append.assoc by blast
  finally show ?thesis .
qed

text \<open>The family recorded for a slug is the slug with underscores, listed or not.\<close>

lemma family_from_slug_eq:
  "dict_get_or (replace_char (CHR ''-'') ''_'' slug) FAMILY_FROM_SLUG slug = replace_char (CHR ''-'') ''_'' slug"
proof -
  have "\<forall>(k, v) \<in> set FAMILY_FROM_SLUG. replace_char (CHR ''-'') ''_'' k = v"
    by (simp add: FAMILY_FROM_SLUG_def)
  then have "replace_char (CHR ''-'') ''_'' slug = v" if "map_of FAMILY_FROM_SLUG slug = Some v" for v
    using map_of_SomeD [OF that] by fast
  then show ?thesis by (auto simp: dict_get_or_def dict_get_def split: option.split)
qed

section \<open>Predictions per window\<close>

definition GROUP_COLUMNS :: "string list" where
  "GROUP_COLUMNS =
     [''experiment_id'', ''node_name'', ''window_start_unix_ms'', ''window_end_unix_ms'', ''label'',
      ''anomaly_active'', ''recovery_active'', ''experiment_type'', ''topology'', ''load_tier'',
      ''scenario_family'', ''family_slug'']"

record prediction =
  p_texts :: "(string \<times> string) list"
  true_binary :: int
  score_anomaly :: dbl
  pred_binary :: int
  pred_multiclass_label :: string
  multiclass_top_score :: dbl

definition p_text :: "prediction \<Rightarrow> string \<Rightarrow> string" where
  "p_text p c = dict_get_or [] (p_texts p) c"

text \<open>\<open>out.loc[sel, column] = xs\<close>: the selected rows take the values in order, the others the default.\<close>

fun fill :: "bool list \<Rightarrow> 'a \<Rightarrow> 'a list \<Rightarrow> 'a list" where
  "fill [] d xs = []"
| "fill (False # bs) d xs = d # fill bs d xs"
| "fill (True # bs) d [] = d # fill bs d []"
| "fill (True # bs) d (x # xs) = x # fill bs d xs"

definition half :: dbl where
  "half = Fin (1 / 2)"

definition anomaly_sel :: "string list \<Rightarrow> bool list" where
  "anomaly_sel labels = map (\<lambda>l. l \<noteq> NORMAL_LABEL) labels"

definition anomaly_total :: "string list \<Rightarrow> nat" where
  "anomaly_total labels = length (filter (\<lambda>l. l \<noteq> NORMAL_LABEL) labels)"

definition class_column :: "nat \<Rightarrow> string list \<Rightarrow> string list \<Rightarrow> string list" where
  "class_column n labels classes =
     (if length classes = anomaly_total labels then fill (anomaly_sel labels) [] classes else replicate n [])"

definition top_column :: "nat \<Rightarrow> string list \<Rightarrow> string list \<Rightarrow> dbl list \<Rightarrow> dbl list result" where
  "top_column n labels classes tops =
     (if length classes \<noteq> anomaly_total labels then Inr (replicate n NaN)
      else if length tops \<noteq> anomaly_total labels then Inl ValueError
      else Inr (fill (anomaly_sel labels) NaN tops))"

definition prediction_rows ::
  "nat \<Rightarrow> (string \<times> string list) list \<Rightarrow> int list \<Rightarrow> dbl list \<Rightarrow> string list \<Rightarrow> dbl list \<Rightarrow> prediction list" where
  "prediction_rows n base target bs ml mt =
     map (\<lambda>i. \<lparr>p_texts = map (\<lambda>(c, xs). (c, xs ! i)) base, true_binary = target ! i,
         score_anomaly = bs ! i, pred_binary = (if dle half (bs ! i) then 1 else 0),
         pred_multiclass_label = ml ! i, multiclass_top_score = mt ! i\<rparr>) [0..<n]"

definition family_rows_for_group ::
  "('f, 'c) pandas \<Rightarrow> 'f \<Rightarrow> dbl list \<Rightarrow> string list \<Rightarrow> dbl list \<Rightarrow> prediction list result" where
  "family_rows_for_group P frame binary_scores multiclass_preds multiclass_tops =
     (let n = nrows P frame in
      bind_result (select P GROUP_COLUMNS frame) (\<lambda>out.
      bind_result (map_result (\<lambda>c. bind_result (texts P out c) (\<lambda>xs. Inr (c, xs))) GROUP_COLUMNS) (\<lambda>base.
      bind_result (binary_target P frame) (\<lambda>target.
      bind_result (if length binary_scores = n then Inr binary_scores else Inl ValueError) (\<lambda>bs.
      bind_result (texts P out ''label'') (\<lambda>labels.
      bind_result (top_column n labels multiclass_preds multiclass_tops) (\<lambda>mt.
        Inr (prediction_rows n base target bs (class_column n labels multiclass_preds) mt))))))))"

text \<open>The model's own decisions replace the ones at threshold one half.\<close>

definition set_pred :: "prediction list \<Rightarrow> int list \<Rightarrow> prediction list result" where
  "set_pred ps ys = (if length ys \<noteq> length ps then Inl ValueError
     else Inr (map (\<lambda>(p, y). p\<lparr>pred_binary := y\<rparr>) (zip ps ys)))"

definition prediction_table :: "prediction list \<Rightarrow> table" where
  "prediction_table ps =
     (GROUP_COLUMNS @ [''true_binary'', ''score_anomaly'', ''pred_binary'', ''pred_binary_label'',
        ''pred_multiclass_label'', ''multiclass_top_score''],
      map (\<lambda>p. map (\<lambda>c. Text (p_text p c)) GROUP_COLUMNS @ [Whole (true_binary p), Float (score_anomaly p),
        Whole (pred_binary p), Text (label_of_binary (pred_binary p)), Text (pred_multiclass_label p),
        Float (multiclass_top_score p)]) ps)"

lemma keep_fill:
  "length xs = length (filter (\<lambda>b. b) sel) \<Longrightarrow> keep_masked sel (fill sel d xs) = xs"
  by (induction sel d xs rule: fill.induct) (simp_all add: keep_masked_def)

lemma length_fill [simp]: "length (fill sel d xs) = length sel"
  by (induction sel d xs rule: fill.induct) simp_all


section \<open>Groups\<close>

text \<open>A row of a summary, as the dictionary the script builds.\<close>

type_synonym summary_row = "(string \<times> item) list"

definition summary_table :: "string list \<Rightarrow> summary_row list \<Rightarrow> table" where
  "summary_table header rows = (header, map (\<lambda>r. map (\<lambda>c. dict_get_or Absent r c) header) rows)"

text \<open>\<open>frame.groupby(keys, sort=True)\<close>.\<close>

definition grouped :: "('a \<Rightarrow> 'k :: linorder) \<Rightarrow> 'a list \<Rightarrow> ('k \<times> 'a list) list" where
  "grouped key ps = sort_key fst (group_by key (\<lambda>p. p) ps)"

definition normal_key :: "prediction \<Rightarrow> string \<times> string" where
  "normal_key p = (p_text p ''topology'', p_text p ''load_tier'')"

definition anomaly_key :: "prediction \<Rightarrow> string \<times> string \<times> string" where
  "anomaly_key p = (p_text p ''scenario_family'', p_text p ''topology'', p_text p ''load_tier'')"

definition experiment_total :: "prediction list \<Rightarrow> nat" where
  "experiment_total g = length (uniq (map (\<lambda>p. p_text p ''experiment_id'') g))"

definition normal_group_metrics :: "int list \<Rightarrow> int list \<Rightarrow> summary_row result" where
  "normal_group_metrics y_true y_pred =
     (let n = length y_true; predicted = length (filter (\<lambda>y. y = 1) y_pred) in
      bind_result (if n = 0 then Inr (Fin 0) else count_ratio predicted n) (\<lambda>rate.
        let specificity = dsub (Fin 1) rate
        in Inr [(''row_count'', Whole (int n)), (''false_positive_rate'', Float rate),
             (''specificity'', Float specificity), (''normal_recall'', Float specificity),
             (''anomaly_prediction_rate'', Float rate)]))"

definition normal_row :: "(string \<times> string) \<times> prediction list \<Rightarrow> summary_row result" where
  "normal_row = (\<lambda>((topology, load_tier), g).
     bind_result (normal_group_metrics (map true_binary g) (map pred_binary g)) (\<lambda>m.
       let v = dict_get_or Absent m in
       Inr [(''topology'', Text topology), (''load_tier'', Text load_tier), (''row_count'', v ''row_count''),
         (''experiment_count'', Whole (int (experiment_total g))),
         (''false_positive_rate'', v ''false_positive_rate''), (''specificity'', v ''specificity''),
         (''normal_recall'', v ''normal_recall''), (''anomaly_prediction_rate'', v ''anomaly_prediction_rate'')]))"

definition metric_float :: "metrics \<Rightarrow> string \<Rightarrow> dbl result" where
  "metric_float d k = bind_result (metric d k) json_float"

definition json_item :: "json \<Rightarrow> item" where
  "json_item j = (case j of JFloat d \<Rightarrow> Float d | JInt n \<Rightarrow> Whole n | JStr s \<Rightarrow> Text s | _ \<Rightarrow> Absent)"

definition group_entries :: "string \<times> string \<times> string \<Rightarrow> prediction list \<Rightarrow> summary_row" where
  "group_entries = (\<lambda>(fam, topology, load_tier) g.
     [(''scenario_family'', Text fam), (''topology'', Text topology), (''load_tier'', Text load_tier),
      (''row_count'', Whole (int (length g))), (''experiment_count'', Whole (int (experiment_total g)))])"

definition anomaly_binary_row :: "int scorer \<Rightarrow> (string \<times> string \<times> string) \<times> prediction list \<Rightarrow> summary_row result" where
  "anomaly_binary_row M = (\<lambda>(key, g).
     bind_result (binary_metrics M (map true_binary g) (map pred_binary g) (Some (map score_anomaly g))) (\<lambda>d.
     bind_result (metric_float d ''anomaly_precision'') (\<lambda>p.
     bind_result (metric_float d ''anomaly_recall'') (\<lambda>r.
     bind_result (metric_float d ''anomaly_f1'') (\<lambda>f.
     bind_result (metric_float d ''balanced_accuracy'') (\<lambda>b.
     bind_result (metric d ''pr_auc'') (\<lambda>pr.
     bind_result (metric d ''roc_auc'') (\<lambda>roc.
       Inr (group_entries key g @ [(''anomaly_precision'', Float p), (''anomaly_recall'', Float r),
         (''anomaly_f1'', Float f), (''balanced_accuracy'', Float b), (''pr_auc'', json_item pr),
         (''roc_auc'', json_item roc)])))))))))"

definition primary_metrics :: "metrics \<Rightarrow> string \<Rightarrow> (dbl \<times> int) result" where
  "primary_metrics d label =
     bind_result (metric d ''per_class'') (\<lambda>j. case j of
        JObj classes \<Rightarrow>
          (case dict_get classes label of
             None \<Rightarrow> Inr (Fin 0, 0)
           | Some (JObj e) \<Rightarrow> bind_result (metric_float e ''f1'') (\<lambda>f. bind_result (metric e ''support'') (\<lambda>s.
               Inr (f, case s of JInt n \<Rightarrow> n | _ \<Rightarrow> 0)))
           | Some _ \<Rightarrow> Inl TypeError)
      | _ \<Rightarrow> Inl AttributeError)"

definition anomaly_multiclass_row ::
  "string scorer \<Rightarrow> string list \<Rightarrow> (string \<times> string \<times> string) \<times> prediction list \<Rightarrow> summary_row result" where
  "anomaly_multiclass_row M labels = (\<lambda>(key, g).
     bind_result (generalization_multiclass_metrics M (map (\<lambda>p. p_text p ''label'') g)
         (map pred_multiclass_label g) labels True) (\<lambda>d.
     let primary = dict_get_or [] PRIMARY_LABEL_BY_FAMILY (fst key) in
     bind_result (primary_metrics d primary) (\<lambda>(pf, ps).
     bind_result (metric_float d ''macro_f1'') (\<lambda>f.
     bind_result (metric_float d ''balanced_accuracy'') (\<lambda>b.
       Inr (group_entries key g @ [(''macro_f1'', Float f), (''balanced_accuracy'', Float b),
         (''primary_label'', Text primary), (''primary_label_f1'', Float pf),
         (''primary_label_support'', Whole ps)]))))))"

section \<open>The script\<close>

definition NORMAL_HEADER :: "string list" where
  "NORMAL_HEADER = [''topology'', ''load_tier'', ''row_count'', ''experiment_count'',
     ''false_positive_rate'', ''specificity'', ''normal_recall'', ''anomaly_prediction_rate'']"

definition ANOMALY_BINARY_HEADER :: "string list" where
  "ANOMALY_BINARY_HEADER = [''scenario_family'', ''topology'', ''load_tier'', ''row_count'',
     ''experiment_count'', ''anomaly_precision'', ''anomaly_recall'', ''anomaly_f1'',
     ''balanced_accuracy'', ''pr_auc'', ''roc_auc'']"

definition ANOMALY_MULTICLASS_HEADER :: "string list" where
  "ANOMALY_MULTICLASS_HEADER = [''scenario_family'', ''topology'', ''load_tier'', ''row_count'',
     ''experiment_count'', ''macro_f1'', ''balanced_accuracy'', ''primary_label'', ''primary_label_f1'',
     ''primary_label_support'']"

text \<open>The frame with the columns read off the identifiers; an empty frame has no parsed columns.\<close>

definition scenario_family :: "string \<Rightarrow> experiment_parts \<Rightarrow> string" where
  "scenario_family experiment_type parts =
     dict_get_or (ex_family_from_slug parts) SCENARIO_FAMILY_FROM_TYPE experiment_type"

definition annotate :: "('f, 'c) pandas \<Rightarrow> 'f \<Rightarrow> 'f result" where
  "annotate P frame =
     bind_result (texts P frame ''experiment_id'') (\<lambda>ids.
     let parsed = map parse_experiment_id ids in
     if ids = [] then Inl (KeyError ''topology'') else
     bind_result (with_texts P ''topology'' (map ex_topology parsed) frame) (\<lambda>f1.
     bind_result (with_texts P ''load_tier'' (map ex_load_tier parsed) f1) (\<lambda>f2.
     bind_result (with_texts P ''family_slug'' (map ex_family_slug parsed) f2) (\<lambda>f3.
     bind_result (texts P f3 ''experiment_type'') (\<lambda>types.
       with_texts P ''scenario_family'' (map (\<lambda>(t, p). scenario_family t p) (zip types parsed)) f3)))))"

definition predictions_of ::
  "('f, 'c) pandas \<Rightarrow> ('f, int, 'b) learner \<Rightarrow> ('f, string, 'm) learner \<Rightarrow> 'b saved_model \<Rightarrow> 'm saved_model \<Rightarrow>
     'f \<Rightarrow> prediction list result" where
  "predictions_of P LB LM bm mm frame =
     bind_result (build_feature_matrix P frame (saved_excluded_columns bm) (saved_feature_columns bm)) (\<lambda>bx.
     bind_result (predict_scores LB (saved_estimator bm) bx) (\<lambda>scores.
     case scores of None \<Rightarrow> Inl (SystemExit ''binary estimator did not produce anomaly scores'') | Some bs \<Rightarrow>
     bind_result (predict LB (saved_estimator bm) bx) (\<lambda>by_model.
     bind_result (texts P frame ''label'') (\<lambda>labels.
     bind_result (build_feature_matrix P (anomaly_rows P labels frame) (saved_excluded_columns mm)
         (saved_feature_columns mm)) (\<lambda>mx.
     bind_result (predict LM (saved_estimator mm) mx) (\<lambda>classes.
     bind_result (predict_multiclass_scores LM (saved_estimator mm) mx) (\<lambda>ms.
     bind_result (case ms of None \<Rightarrow> Inr (replicate (length classes) (Fin 0)) | Some a \<Rightarrow> top_scores a) (\<lambda>tops.
     bind_result (case saved_labels mm of None \<Rightarrow> Inl (KeyError ''labels'') | Some ls \<Rightarrow> Inr ls) (\<lambda>_.
     bind_result (family_rows_for_group P frame bs classes tops) (\<lambda>ps. set_pred ps by_model))))))))))"

definition is_normal_family :: "prediction \<Rightarrow> bool" where
  "is_normal_family p \<longleftrightarrow> p_text p ''scenario_family'' = ''normal''"

definition is_anomaly_label :: "prediction \<Rightarrow> bool" where
  "is_anomaly_label p \<longleftrightarrow> p_text p ''label'' \<noteq> NORMAL_LABEL"

record summaries =
  s_normal :: "summary_row list"
  s_binary :: "summary_row list"
  s_multiclass :: "summary_row list"

definition summaries_of ::
  "int scorer \<Rightarrow> string scorer \<Rightarrow> string list \<Rightarrow> prediction list \<Rightarrow> summaries result" where
  "summaries_of MB MM labels ps =
     bind_result (map_result normal_row (grouped normal_key (filter is_normal_family ps))) (\<lambda>normal.
     bind_result (map_result (anomaly_binary_row MB)
         (grouped anomaly_key (filter (\<lambda>p. \<not> is_normal_family p) ps))) (\<lambda>binary.
     bind_result (map_result (anomaly_multiclass_row MM labels)
         (grouped anomaly_key (filter is_anomaly_label ps))) (\<lambda>multiclass.
       Inr \<lparr>s_normal = normal, s_binary = binary, s_multiclass = multiclass\<rparr>)))"

datatype report_file = Report_Json json | Report_Table table

record study_args =
  study_dataset_dir :: string
  study_results_dir :: string
  study_models_dir :: string
  study_now :: string

definition item_json :: "item \<Rightarrow> json" where
  "item_json i = (case i of Text s \<Rightarrow> JStr s | Whole n \<Rightarrow> JInt n | Float d \<Rightarrow> JFloat d | Absent \<Rightarrow> JNull)"

definition row_json :: "summary_row \<Rightarrow> json" where
  "row_json r = JObj (map (\<lambda>(k, i). (k, item_json i)) r)"

definition overall_binary :: "int scorer \<Rightarrow> prediction list \<Rightarrow> metrics result" where
  "overall_binary M ps = (let g = filter (\<lambda>p. \<not> is_normal_family p) ps in
     binary_metrics M (map true_binary g) (map pred_binary g) (Some (map score_anomaly g)))"

definition overall_multiclass :: "string scorer \<Rightarrow> string list \<Rightarrow> prediction list \<Rightarrow> metrics result" where
  "overall_multiclass M labels ps = (let g = filter is_anomaly_label ps in
     generalization_multiclass_metrics M (map (\<lambda>p. p_text p ''label'') g) (map pred_multiclass_label g) labels False)"

definition text_counts :: "('f, 'c) pandas \<Rightarrow> 'f \<Rightarrow> string \<Rightarrow> json result" where
  "text_counts P frame c = bind_result (texts P frame c) (\<lambda>xs. Inr (sorted_counter xs))"

definition study_manifest ::
  "('f, 'c) pandas \<Rightarrow> study_args \<Rightarrow> 'b saved_model \<Rightarrow> 'm saved_model \<Rightarrow> 'f \<Rightarrow> prediction list \<Rightarrow> json result" where
  "study_manifest P a bm mm frame ps =
     bind_result (texts P frame ''experiment_id'') (\<lambda>ids.
     bind_result (text_counts P frame ''label'') (\<lambda>labels.
     bind_result (text_counts P frame ''experiment_type'') (\<lambda>types.
     bind_result (text_counts P frame ''topology'') (\<lambda>topologies.
     bind_result (text_counts P frame ''load_tier'') (\<lambda>tiers.
       Inr (JObj [(''generated_at_utc'', JStr (study_now a)), (''dataset_dir'', JStr (study_dataset_dir a)),
         (''results_dir'', JStr (study_results_dir a)), (''model_artifacts_dir'', JStr (study_models_dir a)),
         (''binary_model_run_id'', JStr (saved_run_id bm)), (''multiclass_model_run_id'', JStr (saved_run_id mm)),
         (''binary_model_task'', JStr (saved_task bm)), (''multiclass_model_task'', JStr (saved_task mm)),
         (''row_count'', JInt (int (nrows P frame))),
         (''normal_row_count'', JInt (int (length (filter is_normal_family ps)))),
         (''anomaly_row_count'', JInt (int (length (filter (\<lambda>p. \<not> is_normal_family p) ps)))),
         (''anomaly_only_row_count'', JInt (int (length (filter is_anomaly_label ps)))),
         (''experiment_count'', JInt (int (length (uniq ids)))),
         (''label_distribution'', labels), (''experiment_type_distribution'', types),
         (''topology_distribution'', topologies), (''load_tier_distribution'', tiers)]))))))"

definition study_files ::
  "('f, 'c) pandas \<Rightarrow> int scorer \<Rightarrow> string scorer \<Rightarrow> study_args \<Rightarrow> 'b saved_model \<Rightarrow> 'm saved_model \<Rightarrow>
     'f \<Rightarrow> prediction list \<Rightarrow> (string \<times> report_file result) list" where
  "study_files P MB MM a bm mm frame ps =
     (let labels = (case saved_labels mm of Some ls \<Rightarrow> ls | None \<Rightarrow> []);
          by_group = summaries_of MB MM labels ps;
          tab = (\<lambda>h f. bind_result by_group (\<lambda>s. Inr (Report_Table (summary_table h (f s)))));
          payloads = bind_result by_group (\<lambda>s. bind_result (overall_binary MB ps) (\<lambda>b.
            bind_result (overall_multiclass MM labels ps) (\<lambda>m. Inr (s, b, m))));
          now = (''generated_at_utc'', JStr (study_now a));
          groups = (\<lambda>rows. (''groups'', JArr (map row_json rows)));
          js = (\<lambda>f. bind_result payloads (\<lambda>p. Inr (Report_Json (JObj (f p)))))
      in [(''scenario_predictions.csv'', Inr (Report_Table (prediction_table ps))),
          (''normal_binary_summary.csv'', tab NORMAL_HEADER s_normal),
          (''anomaly_binary_summary.csv'', tab ANOMALY_BINARY_HEADER s_binary),
          (''anomaly_multiclass_summary.csv'', tab ANOMALY_MULTICLASS_HEADER s_multiclass),
          (''normal_binary_metrics.json'', js (\<lambda>(s, b, m).
             [now, (''scope'', JStr ''normal_only''), groups (s_normal s)])),
          (''anomaly_binary_metrics.json'', js (\<lambda>(s, b, m).
             [now, (''scope'', JStr ''anomaly_experiments_binary''), (''overall'', JObj b), groups (s_binary s)])),
          (''anomaly_multiclass_metrics.json'', js (\<lambda>(s, b, m).
             [now, (''scope'', JStr ''anomaly_experiments_multiclass''), (''overall'', JObj m), groups (s_multiclass s)])),
          (''run_manifest.json'', bind_result (study_manifest P a bm mm frame ps) (\<lambda>j. Inr (Report_Json j)))])"

definition generalization_main ::
  "('f, 'c) pandas \<Rightarrow> ('f, int, 'b) learner \<Rightarrow> ('f, string, 'm) learner \<Rightarrow> int scorer \<Rightarrow> string scorer \<Rightarrow>
     study_args \<Rightarrow> 'b saved_model \<Rightarrow> 'm saved_model \<Rightarrow> 'f result \<Rightarrow> (string \<times> report_file) list \<times> unit result" where
  "generalization_main P LB LM MB MM a bm mm window_frame =
     (case bind_result window_frame (\<lambda>frame0. bind_result (annotate P frame0) (\<lambda>frame.
           bind_result (predictions_of P LB LM bm mm frame) (\<lambda>ps. Inr (frame, ps)))) of
        Inl e \<Rightarrow> ([], Inl e)
      | Inr (frame, ps) \<Rightarrow> write_all (study_files P MB MM a bm mm frame ps))"

section \<open>Lemmas\<close>

lemma set_grouped: "set (grouped key ps) = (\<lambda>k. (k, filter (\<lambda>p. key p = k) ps)) ` key ` set ps"
  by (auto simp: grouped_def group_simps)

lemma sum_list_sort_key: "sum_list (map f (sort_key g xs)) = sum_list (map f xs)"
  for f :: "_ \<Rightarrow> nat"
  by (metis mset_map mset_sort sum_mset_sum_list)

lemma sum_filter_partition:
  "distinct ks \<Longrightarrow> set (map f xs) \<subseteq> set ks \<Longrightarrow> (\<Sum>k \<leftarrow> ks. length (filter (\<lambda>x. f x = k) xs)) = length xs"
proof (induction xs)
  case (Cons x xs)
  have "(\<Sum>k \<leftarrow> ks. length (filter (\<lambda>y. f y = k) (x # xs))) =
      (\<Sum>k \<leftarrow> ks. if f x = k then 1 else 0) + (\<Sum>k \<leftarrow> ks. length (filter (\<lambda>y. f y = k) xs))"
    unfolding sum_list_addf [symmetric] by (rule arg_cong [where f = sum_list], rule map_cong) auto
  moreover have "(\<Sum>k \<leftarrow> ks. if f x = k then 1 else 0 :: nat) = 1"
  proof -
    have absent: "a \<notin> set ls \<Longrightarrow> (\<Sum>k \<leftarrow> ls. if a = k then 1 else 0 :: nat) = 0" for a ls
      by (induction ls) auto
    have "distinct ls \<Longrightarrow> a \<in> set ls \<Longrightarrow> (\<Sum>k \<leftarrow> ls. if a = k then 1 else 0 :: nat) = 1" for a ls
      by (induction ls) (auto simp: absent)
    from this [of ks "f x"] Cons.prems show ?thesis by simp
  qed
  ultimately show ?case using Cons by simp
qed simp

lemma grouped_partition: "(\<Sum>(k, g) \<leftarrow> grouped key ps. length g) = length ps"
proof -
  have "(\<Sum>(k, g) \<leftarrow> grouped key ps. length g) = (\<Sum>k \<leftarrow> uniq (map key ps). length (filter (\<lambda>p. key p = k) ps))"
    by (simp add: grouped_def sum_list_sort_key group_by_eq comp_def)
  then show ?thesis by (simp add: sum_filter_partition)
qed

lemma grouped_sorted: "sorted (map fst (grouped key ps)) \<and> distinct (map fst (grouped key ps))"
proof -
  have "distinct (map fst (grouped key ps))"
    unfolding grouped_def by (simp add: group_by_eq comp_def distinct_map inj_on_def)
  then show ?thesis by (simp add: grouped_def)
qed


lemma binary_target_length:
  assumes "data_frames P" and "binary_target P f = Inr ys"
  shows "length ys = nrows P f"
  using assms data_frames.texts_length [OF assms(1)] by (auto simp: binary_target_def bind_result_Inr)

text \<open>What a prediction row shows of the frame's row.\<close>

lemma family_rows_columns:
  assumes laws: "data_frames P" and ps: "family_rows_for_group P frame bs classes tops = Inr ps"
  shows "length ps = nrows P frame"
    and "c \<in> set GROUP_COLUMNS \<Longrightarrow> texts P frame c = Inr (map (\<lambda>p. p_text p c) ps)"
    and "\<exists>labels. texts P frame ''label'' = Inr labels \<and>
      map pred_multiclass_label ps = class_column (nrows P frame) labels classes"
proof -
  let ?n = "nrows P frame"
  from ps obtain out base target labels mt where
    out: "select P GROUP_COLUMNS frame = Inr out"
    and base: "map_result (\<lambda>c. bind_result (texts P out c) (\<lambda>xs. Inr (c, xs))) GROUP_COLUMNS = Inr base"
    and labels: "texts P out ''label'' = Inr labels"
    and "ps = prediction_rows ?n base target bs (class_column ?n labels classes) mt"
    by (auto simp: family_rows_for_group_def Let_def bind_result_Inr split: if_splits)
  note p = this(4) [unfolded prediction_rows_def]
  show len: "length ps = ?n" by (simp add: p)
  have ls: "texts P frame ''label'' = Inr labels"
    using data_frames.texts_select [OF laws out, of "''label''"] labels by (simp add: GROUP_COLUMNS_def)
  then have "length labels = ?n" using data_frames.texts_length [OF laws] by blast
  then have "length (class_column ?n labels classes) = ?n" by (simp add: class_column_def anomaly_sel_def)
  then have "map pred_multiclass_label ps = class_column ?n labels classes"
    by (intro nth_equalityI) (simp_all add: p)
  then show "\<exists>labels. texts P frame ''label'' = Inr labels \<and>
      map pred_multiclass_label ps = class_column ?n labels classes"
    using ls by blast
  assume c: "c \<in> set GROUP_COLUMNS"
  have "list_all2 (\<lambda>c (d, xs). d = c \<and> texts P frame c = Inr xs) GROUP_COLUMNS base"
    using base unfolding map_result_Inr
    by (rule list.rel_mono_strong) (auto simp: bind_result_Inr data_frames.texts_select [OF laws out])
  then have b: "map fst base = GROUP_COLUMNS" "\<forall>(d, xs) \<in> set base. texts P frame d = Inr xs"
    by (induction rule: list_all2_induct) auto
  from c b(1) obtain xs where xs: "(c, xs) \<in> set base" by (metis (no_types) imageE list.set_map prod.collapse)
  have "distinct (map fst base)" by (simp add: b(1) GROUP_COLUMNS_def)
  then have "map_of base c = Some xs" using xs by simp
  then have "map_of (map (\<lambda>(c, xs). (c, xs ! i)) base) c = Some (xs ! i)" for i
    by (induction base) auto
  then have t: "p_text (ps ! i) c = xs ! i" if "i < ?n" for i
    using that by (simp add: p p_text_def dict_get_or_def dict_get_def)
  from b(2) xs have tx: "texts P frame c = Inr xs" by auto
  then have "length xs = ?n" using data_frames.texts_length [OF laws] by blast
  then have "xs = map (\<lambda>p. p_text p c) ps" using t len by (intro nth_equalityI) simp_all
  then show "texts P frame c = Inr (map (\<lambda>p. p_text p c) ps)" using tx by simp
qed

lemma set_pred_Inr:
  assumes "set_pred ps0 ys = Inr ps"
  shows "map pred_binary ps = ys" and "map (\<lambda>p. p_text p c) ps = map (\<lambda>p. p_text p c) ps0"
    and "map pred_multiclass_label ps = map pred_multiclass_label ps0" and "length ps = length ps0"
  using assms
  by (auto simp: set_pred_def p_text_def comp_def case_prod_beta' split: if_splits intro!: nth_equalityI)

lemma filter_fill:
  assumes "length ls = length ms" and "ms = fill (map p ls) d xs" and "length xs = length (filter p ls)"
  shows "map snd (filter (\<lambda>(l, m). p l) (zip ls ms)) = xs" and "\<forall>(l, m) \<in> set (zip ls ms). p l \<or> m = d"
proof -
  have "map snd (filter (\<lambda>(l, m). p l) (zip ls (fill (map p ls) d xs))) = xs \<and>
      (\<forall>(l, m) \<in> set (zip ls (fill (map p ls) d xs)). p l \<or> m = d)"
    using assms(3)
  proof (induction ls arbitrary: xs)
    case (Cons l ls)
    show ?case
    proof (cases "p l")
      case True
      then obtain x ys where xs: "xs = x # ys" using Cons.prems by (cases xs) auto
      then show ?thesis using True Cons.IH [of ys] Cons.prems by auto
    next
      case False
      then show ?thesis using Cons.IH [of xs] Cons.prems by auto
    qed
  qed simp
  then show "map snd (filter (\<lambda>(l, m). p l) (zip ls ms)) = xs" and "\<forall>(l, m) \<in> set (zip ls ms). p l \<or> m = d"
    by (simp_all add: assms(2))
qed

section \<open>Properties\<close>

definition valid_parts :: "string \<Rightarrow> string \<Rightarrow> string \<Rightarrow> bool" where
  "valid_parts topology load_tier slug \<longleftrightarrow> topology \<in> {''local'', ''remote''} \<and>
     load_tier \<in> {''low'', ''medium'', ''high''} \<and> slug \<noteq> [] \<and> list_all slug_char slug"

definition unknown_parts :: experiment_parts where
  "unknown_parts = \<lparr>ex_topology = ''unknown'', ex_load_tier = ''unknown'', ex_family_slug = ''unknown'',
     ex_family_from_slug = ''unknown''\<rparr>"

text \<open>C25: parsing an experiment identifier gives back what it was written from, even when the slug
itself contains dashes or digits; the family is the slug with its dashes turned into underscores,
for the slugs of the table as for any other. A text that is no such identifier, but for one newline
at its end, has unknown parts.\<close>

theorem experiment_id_roundtrip:
  "(valid_parts topology load_tier slug \<and> stamp_ok stamp \<longrightarrow>
      parse_experiment_id (experiment_id_of topology load_tier slug stamp) =
        \<lparr>ex_topology = topology, ex_load_tier = load_tier, ex_family_slug = slug,
         ex_family_from_slug = replace_char (CHR ''-'') ''_'' slug\<rparr>) \<and>
   (parse_experiment_id s = unknown_parts \<longleftrightarrow>
      \<not> (\<exists>t l f st nl. valid_parts t l f \<and> stamp_ok st \<and> nl \<in> {[], NEWLINE} \<and> s = experiment_id_of t l f st @ nl))"
proof (intro conjI impI)
  assume "valid_parts topology load_tier slug \<and> stamp_ok stamp"
  then have assms: "topology \<in> {''local'', ''remote''}" "load_tier \<in> {''low'', ''medium'', ''high''}"
    "slug \<noteq> []" "list_all slug_char slug" "stamp_ok stamp" by (simp_all add: valid_parts_def)
  have "\<exists>st nl. stamp_ok st \<and> nl \<in> {[], NEWLINE} \<and>
      experiment_id_of topology load_tier slug stamp = experiment_id_of topology load_tier slug st @ nl"
    using assms(5) by force
  then have "match_experiment (experiment_id_of topology load_tier slug stamp) = Some (topology, load_tier, slug)"
    unfolding match_experiment_iff using assms by blast
  then show "parse_experiment_id (experiment_id_of topology load_tier slug stamp) =
        \<lparr>ex_topology = topology, ex_load_tier = load_tier, ex_family_slug = slug,
         ex_family_from_slug = replace_char (CHR ''-'') ''_'' slug\<rparr>"
    by (simp add: parse_experiment_id_def family_from_slug_eq)
next
  have "parse_experiment_id s = unknown_parts \<longleftrightarrow> match_experiment s = None"
  proof (cases "match_experiment s")
    case (Some p)
    obtain t l f where p: "p = (t, l, f)" by (cases p)
    have "t \<in> {''local'', ''remote''}" using Some match_experiment_iff unfolding p by blast
    then show ?thesis using Some by (auto simp: p parse_experiment_id_def unknown_parts_def)
  qed (simp add: parse_experiment_id_def unknown_parts_def)
  also have "\<dots> \<longleftrightarrow> (\<nexists>t l f. match_experiment s = Some (t, l, f))"
    by (cases "match_experiment s") auto
  finally show "parse_experiment_id s = unknown_parts \<longleftrightarrow>
      \<not> (\<exists>t l f st nl. valid_parts t l f \<and> stamp_ok st \<and> nl \<in> {[], NEWLINE} \<and> s = experiment_id_of t l f st @ nl)"
    unfolding match_experiment_iff valid_parts_def by blast
qed

text \<open>The false-positive summary of a group of normal windows. The rate is the rounded share of
windows predicted anomalous (0 for an empty group) and lies between 0 and 1; specificity and normal
recall are one minus it, rounded, and lie between 0 and 1 too. No division by zero occurs.\<close>

theorem normal_group_rates:
  assumes "length y_pred = length y_true" and "length y_true \<le> 2 ^ 53"
  shows "\<exists>rate spec. normal_group_metrics y_true y_pred =
      Inr [(''row_count'', Whole (int (length y_true))), (''false_positive_rate'', Float (Fin rate)),
        (''specificity'', Float (Fin spec)), (''normal_recall'', Float (Fin spec)),
        (''anomaly_prediction_rate'', Float (Fin rate))] \<and>
    rate = (if y_true = [] then 0 else fl (of_nat (length (filter (\<lambda>y. y = 1) y_pred)) / of_nat (length y_true))) \<and>
    spec = fl (1 - rate) \<and> 0 \<le> rate \<and> rate \<le> 1 \<and> 0 \<le> spec \<and> spec \<le> 1"
proof -
  let ?k = "length (filter (\<lambda>y. y = 1) y_pred)" and ?n = "length y_true"
  let ?rate = "if y_true = [] then 0 else fl (of_nat ?k / of_nat ?n) :: rat"
  have k: "?k \<le> ?n" using assms(1) by (metis length_filter_le)
  have rate: "(if ?n = 0 then Inr (Fin 0) else count_ratio ?k ?n) = Inr (Fin ?rate) \<and> 0 \<le> ?rate \<and> ?rate \<le> 1"
    using count_ratio_unit [OF k _ assms(2)] by auto
  then have u: "0 \<le> 1 - ?rate" "1 - ?rate \<le> 1" by auto
  have "dsub (Fin 1) (Fin ?rate) = rnd (1 - ?rate)"
    by (cases "?rate = 0") (simp_all add: dsub_def dadd_def)
  then have "dsub (Fin 1) (Fin ?rate) = Fin (fl (1 - ?rate))" by (simp only: rnd_unit [OF u])
  then have "normal_group_metrics y_true y_pred =
      Inr [(''row_count'', Whole (int ?n)), (''false_positive_rate'', Float (Fin ?rate)),
        (''specificity'', Float (Fin (fl (1 - ?rate)))), (''normal_recall'', Float (Fin (fl (1 - ?rate)))),
        (''anomaly_prediction_rate'', Float (Fin ?rate))]"
    using rate by (simp add: normal_group_metrics_def Let_def del: length_0_conv)
  then show ?thesis using rate fl_unit [OF u] by blast
qed

text \<open>C11: the prediction table says what the models said. Its rows are the windows of the frame in
order, each with the experiment, node, time, label, phase and scenario of its window; the two-class decision is the one of the saved model (not the threshold on the score); the
predicted classes, read off the rows with an anomaly label, are the multiclass model's predictions
in order, and every other row has none.\<close>

theorem predictions_follow_models:
  assumes "data_frames P" and "predictions_of P LB LM bm mm frame = Inr ps"
  shows "\<exists>bx decisions labels mx classes.
    build_feature_matrix P frame (saved_excluded_columns bm) (saved_feature_columns bm) = Inr bx \<and>
    predict LB (saved_estimator bm) bx = Inr decisions \<and> map pred_binary ps = decisions \<and>
    texts P frame ''label'' = Inr labels \<and> map (\<lambda>p. p_text p ''label'') ps = labels \<and>
    length ps = nrows P frame \<and>
    (\<forall>c \<in> {''experiment_id'', ''node_name'', ''window_start_unix_ms'', ''window_end_unix_ms'', ''label'',
        ''anomaly_active'', ''recovery_active'', ''experiment_type'', ''topology'', ''load_tier'',
        ''scenario_family'', ''family_slug''}. texts P frame c = Inr (map (\<lambda>p. p_text p c) ps)) \<and>
    build_feature_matrix P (anomaly_rows P labels frame) (saved_excluded_columns mm) (saved_feature_columns mm) = Inr mx \<and>
    predict LM (saved_estimator mm) mx = Inr classes \<and>
    (length classes = length (filter is_anomaly_label ps) \<longrightarrow>
       map pred_multiclass_label (filter is_anomaly_label ps) = classes \<and>
       (\<forall>p \<in> set ps. is_anomaly_label p \<or> pred_multiclass_label p = []))"
proof -
  from assms(2) obtain bx bs decisions labels mx classes tops ps0 where
    b: "build_feature_matrix P frame (saved_excluded_columns bm) (saved_feature_columns bm) = Inr bx"
    "predict LB (saved_estimator bm) bx = Inr decisions" "texts P frame ''label'' = Inr labels"
    "build_feature_matrix P (anomaly_rows P labels frame) (saved_excluded_columns mm) (saved_feature_columns mm) = Inr mx"
    "predict LM (saved_estimator mm) mx = Inr classes"
    and ps0: "family_rows_for_group P frame bs classes tops = Inr ps0" and ps: "set_pred ps0 decisions = Inr ps"
    by (auto simp: predictions_of_def bind_result_Inr split: option.splits)
  note rows = family_rows_columns [OF assms(1) ps0] and same = set_pred_Inr [OF ps]
  have lab: "map (\<lambda>p. p_text p ''label'') ps = labels"
    using rows(2) [of "''label''"] b(3) by (simp add: same(2) GROUP_COLUMNS_def)
  have ids: "\<forall>c \<in> {''experiment_id'', ''node_name'', ''window_start_unix_ms'', ''window_end_unix_ms'', ''label'',
        ''anomaly_active'', ''recovery_active'', ''experiment_type'', ''topology'', ''load_tier'',
        ''scenario_family'', ''family_slug''}. texts P frame c = Inr (map (\<lambda>p. p_text p c) ps)"
    using rows(2) by (simp add: same(2) GROUP_COLUMNS_def)
  have ml: "map pred_multiclass_label ps = class_column (nrows P frame) labels classes"
    using rows(3) b(3) by (simp add: same(3))
  have len: "length (filter is_anomaly_label ps) = anomaly_total labels"
    by (simp add: lab [symmetric] anomaly_total_def filter_map comp_def is_anomaly_label_def [abs_def])
  have "map pred_multiclass_label (filter is_anomaly_label ps) = classes \<and>
      (\<forall>p \<in> set ps. is_anomaly_label p \<or> pred_multiclass_label p = [])"
    if c: "length classes = length (filter is_anomaly_label ps)"
  proof -
    let ?ls = "map (\<lambda>p. p_text p ''label'') ps" and ?ms = "map pred_multiclass_label ps"
    have "?ms = fill (map (\<lambda>l. l \<noteq> NORMAL_LABEL) ?ls) [] classes"
      using ml c len by (simp add: class_column_def anomaly_sel_def flip: lab)
    moreover have "length classes = length (filter (\<lambda>l. l \<noteq> NORMAL_LABEL) ?ls)"
      using c len by (simp add: lab anomaly_total_def)
    ultimately have f: "map snd (filter (\<lambda>(l, m). l \<noteq> NORMAL_LABEL) (zip ?ls ?ms)) = classes"
      "\<forall>(l, m) \<in> set (zip ?ls ?ms). l \<noteq> NORMAL_LABEL \<or> m = []"
      using filter_fill [of ?ls ?ms "\<lambda>l. l \<noteq> NORMAL_LABEL" "[]" classes] by simp_all
    have z: "zip ?ls ?ms = map (\<lambda>p. (p_text p ''label'', pred_multiclass_label p)) ps"
      by (simp add: zip_map1 zip_map2 zip_same_conv_map comp_def)
    show ?thesis
      using f unfolding z by (simp add: filter_map comp_def is_anomaly_label_def [abs_def])
  qed
  then show ?thesis using b lab ids rows(1) same(1,4) by (intro exI conjI) (assumption | simp)+
qed


lemma experiment_total_card: "experiment_total g = card ((\<lambda>p. p_text p ''experiment_id'') ` set g)"
proof -
  have "card (set (uniq (map (\<lambda>p. p_text p ''experiment_id'') g))) = length (uniq (map (\<lambda>p. p_text p ''experiment_id'') g))"
    by (rule distinct_card) simp
  then show ?thesis by (simp add: experiment_total_def)
qed

lemma summary_row_starts:
  "normal_row (k, g) = Inr r \<Longrightarrow> take 4 r = [(''topology'', Text (fst k)), (''load_tier'', Text (snd k)),
     (''row_count'', Whole (int (length g))), (''experiment_count'', Whole (int (experiment_total g)))]"
  "anomaly_binary_row MB (j, g) = Inr r \<Longrightarrow> take 5 r = group_entries j g"
  "anomaly_multiclass_row MM labels (j, g) = Inr r \<Longrightarrow> take 5 r = group_entries j g"
  by (auto simp: normal_row_def normal_group_metrics_def anomaly_binary_row_def anomaly_multiclass_row_def group_entries_def
      bind_result_Inr Let_def dict_get_or_def dict_get_def split: prod.splits)

text \<open>A table with one row per group of windows: the values of the key columns in ascending order, the
number of windows, and the number of experiments.\<close>

definition lists_groups :: "string list \<Rightarrow> (prediction \<Rightarrow> bool) \<Rightarrow> prediction list \<Rightarrow> summary_row list \<Rightarrow> bool" where
  "lists_groups key_columns chosen ps rows \<longleftrightarrow>
     (\<exists>ks. sorted ks \<and> distinct ks \<and> set ks = (\<lambda>p. map (p_text p) key_columns) ` {p \<in> set ps. chosen p} \<and>
       map (take (length key_columns + 2)) rows = map (\<lambda>k.
         let g = filter (\<lambda>p. chosen p \<and> map (p_text p) key_columns = k) ps
         in zip key_columns (map Text k) @ [(''row_count'', Whole (int (length g))),
           (''experiment_count'', Whole (int (card ((\<lambda>p. p_text p ''experiment_id'') ` set g))))]) ks)"

lemma grouped_rows:
  assumes "map_result f (grouped key (filter chosen ps)) = Inr rows"
    and start: "\<And>k g r. f (k, g) = Inr r \<Longrightarrow> take (length key_columns + 2) r = zip key_columns (map Text (names k)) @
      [(''row_count'', Whole (int (length g))), (''experiment_count'', Whole (int (experiment_total g)))]"
    and names: "\<And>p. names (key p) = map (p_text p) key_columns"
    and order: "\<And>j k. names j \<le> names k \<longleftrightarrow> j \<le> k"
  shows "lists_groups key_columns chosen ps rows"
proof -
  let ?ks = "map fst (grouped key (filter chosen ps))"
  have inj: "names j = names k \<longleftrightarrow> j = k" for j k using order by (metis order_antisym order_refl)
  have "list_all2 (\<lambda>x r. f x = Inr r) (grouped key (filter chosen ps)) rows" using assms(1) by (simp add: map_result_Inr)
  then have "map (take (length key_columns + 2)) rows = map (\<lambda>(k, g). zip key_columns (map Text (names k)) @
      [(''row_count'', Whole (int (length g))), (''experiment_count'', Whole (int (experiment_total g)))]) (grouped key (filter chosen ps))"
    by (induction rule: list_all2_induct) (auto simp: start [simplified])
  also have "\<dots> = map (\<lambda>k. let g = filter (\<lambda>p. chosen p \<and> map (p_text p) key_columns = k) ps
      in zip key_columns (map Text k) @ [(''row_count'', Whole (int (length g))),
        (''experiment_count'', Whole (int (card ((\<lambda>p. p_text p ''experiment_id'') ` set g))))]) (map names ?ks)"
    by (auto simp: set_grouped inj experiment_total_card Let_def conj_commute simp flip: names)
  finally have rows: "map (take (length key_columns + 2)) rows = \<dots>" .
  have "sorted (map names ?ks)"
    using grouped_sorted [of key "filter chosen ps"] by (simp only: sorted_map order)
  moreover have "distinct (map names ?ks)"
    using grouped_sorted [of key "filter chosen ps"] by (simp only: distinct_map) (simp add: inj_on_def inj)
  moreover have "set (map names ?ks) = (\<lambda>p. map (p_text p) key_columns) ` {p \<in> set ps. chosen p}"
    by (force simp: set_grouped names)
  ultimately show ?thesis unfolding lists_groups_def using rows by blast
qed

text \<open>C24: the summaries count every window once. Each of the three tables has one row for every key that
occurs among its windows and no other, in ascending order of the keys: topology and load tier for
the windows of the family \<open>normal\<close>; family, topology and load tier for the windows of the other families
in the two-class table, and for the windows with an anomaly label in the multiclass table. A row gives
its key, the number of exactly the windows of the table with that key, and the number of different
experiments among them.\<close>

theorem group_summaries_partition:
  assumes "summaries_of MB MM labels ps = Inr s"
  shows "lists_groups [''topology'', ''load_tier''] (\<lambda>p. p_text p ''scenario_family'' = ''normal'') ps (s_normal s) \<and>
    lists_groups [''scenario_family'', ''topology'', ''load_tier''] (\<lambda>p. p_text p ''scenario_family'' \<noteq> ''normal'') ps (s_binary s) \<and>
    lists_groups [''scenario_family'', ''topology'', ''load_tier''] (\<lambda>p. p_text p ''label'' \<noteq> ''normal'') ps (s_multiclass s)"
proof -
  from assms have
    n: "map_result normal_row (grouped normal_key (filter (\<lambda>p. p_text p ''scenario_family'' = ''normal'') ps)) = Inr (s_normal s)"
    and b: "map_result (anomaly_binary_row MB) (grouped anomaly_key (filter (\<lambda>p. p_text p ''scenario_family'' \<noteq> ''normal'') ps)) = Inr (s_binary s)"
    and m: "map_result (anomaly_multiclass_row MM labels) (grouped anomaly_key (filter (\<lambda>p. p_text p ''label'' \<noteq> ''normal'') ps)) = Inr (s_multiclass s)"
    by (auto simp: summaries_of_def bind_result_Inr is_normal_family_def [abs_def] is_anomaly_label_def [abs_def] NORMAL_LABEL_def)
  have "lists_groups [''topology'', ''load_tier''] (\<lambda>p. p_text p ''scenario_family'' = ''normal'') ps (s_normal s)"
    by (rule grouped_rows [OF n, where names = "\<lambda>(t, l). [t, l]"])
      (auto simp: normal_key_def eval_nat_numeral dest: summary_row_starts(1))
  moreover have "lists_groups [''scenario_family'', ''topology'', ''load_tier''] (\<lambda>p. p_text p ''scenario_family'' \<noteq> ''normal'') ps (s_binary s)"
    by (rule grouped_rows [OF b, where names = "\<lambda>(f, t, l). [f, t, l]"])
      (auto simp: anomaly_key_def eval_nat_numeral group_entries_def dest: summary_row_starts(2))
  moreover have "lists_groups [''scenario_family'', ''topology'', ''load_tier''] (\<lambda>p. p_text p ''label'' \<noteq> ''normal'') ps (s_multiclass s)"
    by (rule grouped_rows [OF m, where names = "\<lambda>(f, t, l). [f, t, l]"])
      (auto simp: anomaly_key_def eval_nat_numeral group_entries_def dest: summary_row_starts(3))
  ultimately show ?thesis by blast
qed

subsection \<open>Witnesses\<close>

lemma experiment_id_roundtrip_witness:
  "valid_parts ''local'' ''high'' ''path-degradation'' \<and> stamp_ok ''20260524T101500Z'' \<and>
   parse_experiment_id (experiment_id_of ''local'' ''high'' ''path-degradation'' ''20260524T101500Z'') =
     \<lparr>ex_topology = ''local'', ex_load_tier = ''high'', ex_family_slug = ''path-degradation'',
      ex_family_from_slug = ''path_degradation''\<rparr>"
proof -
  have v: "valid_parts ''local'' ''high'' ''path-degradation''" "stamp_ok ''20260524T101500Z''"
    by code_simp+
  from experiment_id_roundtrip [of "''local''" "''high''" "''path-degradation''" "''20260524T101500Z''" "[]"] v
  show ?thesis by simp
qed

lemma normal_group_rates_witness:
  "\<exists>rate spec. normal_group_metrics [0, 0] [0, 1] =
      Inr [(''row_count'', Whole 2), (''false_positive_rate'', Float (Fin rate)),
        (''specificity'', Float (Fin spec)), (''normal_recall'', Float (Fin spec)),
        (''anomaly_prediction_rate'', Float (Fin rate))] \<and> 0 \<le> rate \<and> rate \<le> 1 \<and> 0 \<le> spec \<and> spec \<le> 1"
  using normal_group_rates [of "[0, 1]" "[0, 0]"] by auto


definition demo_windows :: tframe where
  "demo_windows = \<lparr>rows_of = 2, cells_of = map (\<lambda>c. (c, if c = ''label'' then [Str ''normal'', Str ''a'']
     else [Str ''v'', Str ''v''])) GROUP_COLUMNS\<rparr>"

definition demo_saved :: "'e \<Rightarrow> 'e saved_model" where
  "demo_saved e = \<lparr>saved_run_id = ''id'', saved_estimator = e, saved_feature_columns = [''x''],
     saved_constant_columns = [], saved_excluded_columns = GROUP_COLUMNS, saved_task = ''t'',
     saved_labels = Some [''a''], saved_best_config = []\<rparr>"

lemma demo_windows_columns: "columns tables demo_windows = GROUP_COLUMNS" "nrows tables demo_windows = 2"
  by (simp_all add: tables_def tcolumns_def demo_windows_def comp_def)

lemma demo_labels: "texts tables demo_windows ''label'' = Inr [''normal'', ''a'']"
  by (simp add: tables_def ttexts_def tcolumns_def tcolumn_def demo_windows_def GROUP_COLUMNS_def tvalues_def tcell_text_def)

lemma demo_matrix:
  assumes "columns tables f = GROUP_COLUMNS"
  shows "\<exists>x. build_feature_matrix tables f GROUP_COLUMNS [''x''] = Inr x \<and> nrows tables x = nrows tables f"
proof -
  have "raw_features tables GROUP_COLUMNS f = []" by (simp add: raw_features_def assms)
  then show ?thesis
    by (simp add: build_feature_matrix_def encoded_def tables_def tselect_def convert_numeric_like_def
        tcolumns_def tdummies_def treindex_def)
qed

lemma demo_rows:
  assumes "length bs = 2" and "length cs = 1" and "length ts = 1"
  shows "\<exists>ps. family_rows_for_group tables demo_windows bs cs ts = Inr ps"
proof -
  have dist: "distinct (columns tables demo_windows)"
    unfolding demo_windows_columns by (simp add: GROUP_COLUMNS_def)
  obtain out where out: "select tables GROUP_COLUMNS demo_windows = Inr out"
    "columns tables out = GROUP_COLUMNS"
    using tables.select_present [OF dist, of GROUP_COLUMNS] by (auto simp: demo_windows_columns)
  have "\<exists>base. map_result (\<lambda>c. bind_result (texts tables out c) (\<lambda>xs. Inr (c, xs))) GROUP_COLUMNS = Inr base"
  proof (rule map_result_exists)
    fix c assume "c \<in> set GROUP_COLUMNS"
    then show "\<exists>y. bind_result (texts tables out c) (\<lambda>xs. Inr (c, xs)) = Inr y"
      using tables.texts_present [of c out] out(2) by auto
  qed
  then obtain base where
    base: "map_result (\<lambda>c. bind_result (texts tables out c) (\<lambda>xs. Inr (c, xs))) GROUP_COLUMNS = Inr base" ..
  have "texts tables out ''label'' = Inr [''normal'', ''a'']"
    using tables.texts_select [OF out(1), of "''label''"] demo_labels by (simp add: GROUP_COLUMNS_def)
  moreover have "binary_target tables demo_windows = Inr [0, 1]"
    by (simp add: binary_target_def demo_labels NORMAL_LABEL_def)
  moreover have "\<exists>mt. top_column 2 [''normal'', ''a''] cs ts = Inr mt"
    using assms by (simp add: top_column_def anomaly_total_def NORMAL_LABEL_def)
  then obtain mt where "top_column 2 [''normal'', ''a''] cs ts = Inr mt" ..
  ultimately show ?thesis
    by (simp add: family_rows_for_group_def Let_def demo_windows_columns(2) assms(1) out(1) base)
qed

lemma predictions_follow_models_witness:
  "\<exists>ps decisions. predictions_of tables (demo_learner 0) (demo_learner ''a'') (demo_saved 2) (demo_saved 2) demo_windows = Inr ps \<and>
     map pred_binary ps = decisions \<and> map (\<lambda>p. p_text p ''label'') ps = [''normal'', ''a''] \<and> length ps = 2"
proof -
  have ex: "saved_excluded_columns (demo_saved 2) = GROUP_COLUMNS" "saved_feature_columns (demo_saved 2) = [''x'']"
    "saved_labels (demo_saved 2) = Some [''a'']" "saved_estimator (demo_saved 2) = (2 :: nat)"
    by (simp_all add: demo_saved_def)
  let ?sub = "anomaly_rows tables [''normal'', ''a''] demo_windows"
  have sub: "columns tables ?sub = GROUP_COLUMNS" "nrows tables ?sub = 1"
    using tables.columns_loc tables.nrows_loc [of "map (\<lambda>l. l \<noteq> NORMAL_LABEL) [''normal'', ''a'']" demo_windows]
    by (simp_all add: anomaly_rows_def demo_windows_columns NORMAL_LABEL_def)
  obtain bx where bx: "build_feature_matrix tables demo_windows GROUP_COLUMNS [''x''] = Inr bx" "rows_of bx = 2"
    using demo_matrix [OF demo_windows_columns(1)] demo_windows_columns(2) by (auto simp: tables_def)
  obtain mx where mx: "build_feature_matrix tables ?sub GROUP_COLUMNS [''x''] = Inr mx" "rows_of mx = 1"
    using demo_matrix [OF sub(1)] sub(2) by (auto simp: tables_def)
  have models: "predict_scores (demo_learner (0 :: int)) 2 bx = Inr (Some [Fin 0, Fin 0])"
    "predict (demo_learner (0 :: int)) 2 bx = Inr [0, 0]" "predict (demo_learner ''a'') 2 mx = Inr [''a'']"
    "predict_multiclass_scores (demo_learner ''a'') 2 mx = Inr (Some (Mat 2 [[Fin 1, Fin 0]]))"
    using bx(2) mx(2)
    by (simp_all add: predict_scores_def predict_multiclass_scores_def demo_learner_def numeral_2_eq_2)
  have "\<exists>t. top_scores (Mat 2 [[Fin 1, Fin 0]]) = Inr [t]"
    by (simp add: top_scores_def row_max_def)
  then obtain t where t: "top_scores (Mat 2 [[Fin 1, Fin 0]]) = Inr [t]" by blast
  obtain ps0 where ps0: "family_rows_for_group tables demo_windows [Fin 0, Fin 0] [''a''] [t] = Inr ps0"
    using demo_rows [of "[Fin 0, Fin 0]" "[''a'']" "[t]"] by auto
  have "length ps0 = 2"
    using family_rows_columns(1) [OF tables.data_frames_axioms ps0] demo_windows_columns by simp
  then obtain ps where "set_pred ps0 [0, 0] = Inr ps" by (simp add: set_pred_def)
  then have p: "predictions_of tables (demo_learner 0) (demo_learner ''a'') (demo_saved 2) (demo_saved 2) demo_windows = Inr ps"
    by (simp add: predictions_of_def ex bx models demo_labels mx t ps0)
  from predictions_follow_models [OF tables.data_frames_axioms p] obtain decisions labels where
    "map pred_binary ps = decisions" "texts tables demo_windows ''label'' = Inr labels"
    "map (\<lambda>p. p_text p ''label'') ps = labels" "length ps = nrows tables demo_windows"
    by (elim exE conjE)
  then show ?thesis using p demo_labels demo_windows_columns(2) by (intro exI conjI) simp_all
qed

definition demo_prediction :: prediction where
  "demo_prediction = \<lparr>p_texts = [(''scenario_family'', ''normal''), (''topology'', ''local''), (''load_tier'', ''low''),
     (''label'', ''normal'')], true_binary = 0, score_anomaly = Fin 0, pred_binary = 0, pred_multiclass_label = [],
     multiclass_top_score = NaN\<rparr>"

lemma lists_groups_single:
  assumes "lists_groups key_columns chosen [p] rows" and "chosen p"
  shows "map (take (length key_columns + 2)) rows =
    [zip key_columns (map Text (map (p_text p) key_columns)) @ [(''row_count'', Whole 1), (''experiment_count'', Whole 1)]]"
proof -
  have one: "ks = [k]" if "distinct ks" "set ks = {k}" for ks :: "string list list" and k
    using that by (cases ks rule: remdups_adj.cases) auto
  from assms(1) obtain ks where ks: "distinct ks" "set ks = {map (p_text p) key_columns}"
    and rows: "map (take (length key_columns + 2)) rows = map (\<lambda>k.
       let g = filter (\<lambda>p. chosen p \<and> map (p_text p) key_columns = k) [p]
       in zip key_columns (map Text k) @ [(''row_count'', Whole (int (length g))),
         (''experiment_count'', Whole (int (card ((\<lambda>p. p_text p ''experiment_id'') ` set g))))]) ks"
  proof -
    have "(\<lambda>p. map (p_text p) key_columns) ` {q \<in> set [p]. chosen q} = {map (p_text p) key_columns}" using assms(2) by auto
    with assms(1) that show thesis unfolding lists_groups_def by (elim exE conjE) (simp only:)
  qed
  show ?thesis unfolding rows one [OF ks] using assms(2) by (simp add: Let_def)
qed

lemma group_summaries_partition_witness:
  "\<exists>s. summaries_of demo_scorer demo_scorer [''a''] [demo_prediction] = Inr s \<and>
     map (take 3) (s_normal s) = [[(''topology'', Text ''local''), (''load_tier'', Text ''low''), (''row_count'', Whole 1)]]"
proof -
  have "\<exists>r. normal_row ((''local'', ''low''), [demo_prediction]) = Inr r"
    using count_ratio_unit(1) [of 0 1] by (simp add: normal_row_def normal_group_metrics_def demo_prediction_def Let_def)
  then obtain r where r: "normal_row ((''local'', ''low''), [demo_prediction]) = Inr r" by blast
  have "p_text demo_prediction ''scenario_family'' = ''normal''" "p_text demo_prediction ''label'' = ''normal''"
    "p_text demo_prediction ''topology'' = ''local''" "p_text demo_prediction ''load_tier'' = ''low''"
    by (simp_all add: demo_prediction_def p_text_def dict_get_or_def dict_get_def)
  then obtain s where s: "summaries_of demo_scorer demo_scorer [''a''] [demo_prediction] = Inr s"
    using r by (simp add: summaries_of_def is_normal_family_def is_anomaly_label_def NORMAL_LABEL_def grouped_def
        group_by_eq uniq_def normal_key_def)
  have texts: "p_text demo_prediction ''topology'' = ''local''" "p_text demo_prediction ''load_tier'' = ''low''"
    "p_text demo_prediction ''scenario_family'' = ''normal''"
    by (simp_all add: demo_prediction_def p_text_def dict_get_or_def dict_get_def)
  have "map (take 4) (s_normal s) = [[(''topology'', Text ''local''), (''load_tier'', Text ''low''), (''row_count'', Whole 1),
      (''experiment_count'', Whole 1)]]"
    using lists_groups_single [OF conjunct1 [OF group_summaries_partition [OF s]] texts(3)]
    by (simp add: texts eval_nat_numeral)
  then have "map (take 3) (map (take 4) (s_normal s)) = [[(''topology'', Text ''local''), (''load_tier'', Text ''low''), (''row_count'', Whole 1)]]"
    by simp
  then show ?thesis using s by (auto simp: comp_def min_def)
qed

end
