(* ===== verification/Ablation.thy ===== *)
theory Ablation
  imports Generalization
begin

text \<open>
  \<open>phase6_run_ablation.py\<close>: the best random forests of the training run retrained without one group
  of features at a time. The settings come from the manifest the training run wrote.
\<close>

section \<open>Feature groups\<close>

definition VARIANT_ORDER :: "string list" where
  "VARIANT_ORDER = [''all_features'', ''minus_datapath_stats'', ''minus_ct_gc'', ''minus_k8s_events'',
     ''minus_topology_backend'']"

definition FEATURE_GROUPS :: "(string, string list) pydict" where
  "FEATURE_GROUPS =
     [(''datapath_stats'', [''delta_tcp_packets'', ''delta_nodeport_hit'', ''delta_backend_selected'',
         ''delta_rr_update'', ''delta_snat_install'', ''delta_request_rewrite'', ''delta_revnat_hit'',
         ''delta_ct_lookup_miss'', ''delta_response_rewrite'']),
      (''ct_gc'', [''ct_active_count'', ''fwd_ct_active_count'', ''gc_runs_in_window'', ''gc_deleted_ct'',
         ''gc_deleted_fwd_ct'', ''ct_entry_timeout_seconds'', ''ct_gc_interval_seconds'']),
      (''k8s_events'', [''service_event_seen'', ''slice_event_seen'', ''node_event_seen'',
         ''sync_reconcile_count'', ''sync_upserted_services'', ''sync_removed_services'']),
      (''topology_backend'', [''has_remote_backend'', ''backend_total'', ''backend_local'',
         ''backend_remote'', ''backend_total_delta''])]"

definition VARIANT_TO_GROUP :: "(string, string) pydict" where
  "VARIANT_TO_GROUP =
     [(''minus_datapath_stats'', ''datapath_stats''), (''minus_ct_gc'', ''ct_gc''),
      (''minus_k8s_events'', ''k8s_events''), (''minus_topology_backend'', ''topology_backend'')]"

definition build_variant_columns :: "string list \<Rightarrow> string \<Rightarrow> string list result" where
  "build_variant_columns all_columns variant =
     (if variant = ''all_features'' then Inr all_columns
      else bind_result (dict_index VARIANT_TO_GROUP variant) (\<lambda>group.
           bind_result (dict_index FEATURE_GROUPS group) (\<lambda>dropped.
             Inr (filter (\<lambda>c. c \<notin> set dropped) all_columns))))"

section \<open>Settings of the training run\<close>

definition member :: "json \<Rightarrow> string \<Rightarrow> json result" where
  "member j k = (case j of JObj d \<Rightarrow> dict_index d k | _ \<Rightarrow> Inl TypeError)"

text \<open>A list of names; the manifest has no other lists.\<close>

definition text_of :: "json \<Rightarrow> string result" where
  "text_of j = (case j of JStr s \<Rightarrow> Inr s | _ \<Rightarrow> Inl TypeError)"

definition texts_of :: "json \<Rightarrow> string list result" where
  "texts_of j = (case j of JArr js \<Rightarrow> map_result text_of js | _ \<Rightarrow> Inl TypeError)"

record settings =
  phase4_features :: "string list"
  phase4_excluded :: "string list"
  phase4_binary_config :: json
  phase4_multiclass_config :: json
  phase4_labels :: "string list"

definition read_settings :: "json \<Rightarrow> settings result" where
  "read_settings run_info =
     bind_result (member run_info ''feature_columns'') (\<lambda>fc.
     bind_result (bind_result (member fc ''final_feature_columns'') texts_of) (\<lambda>final.
     bind_result (bind_result (member fc ''excluded_columns'') texts_of) (\<lambda>excluded.
     bind_result (member run_info ''binary_best_config'') (\<lambda>binary_config.
     bind_result (member run_info ''multiclass_best_config'') (\<lambda>multiclass_config.
     bind_result (bind_result (member run_info ''multiclass_labels'') texts_of) (\<lambda>labels.
       Inr \<lparr>phase4_features = final, phase4_excluded = excluded, phase4_binary_config = binary_config,
         phase4_multiclass_config = multiclass_config, phase4_labels = labels\<rparr>))))))"

text \<open>
  The arguments of the forest; scikit-learn rejects a value of another type with a \<open>ValueError\<close>.
\<close>

definition int_param :: "json \<Rightarrow> int result" where
  "int_param j = (case j of JInt n \<Rightarrow> Inr n | _ \<Rightarrow> Inl ValueError)"

definition opt_int_param :: "json \<Rightarrow> int option result" where
  "opt_int_param j = (case j of JNull \<Rightarrow> Inr None | JInt n \<Rightarrow> Inr (Some n) | _ \<Rightarrow> Inl ValueError)"

definition opt_str_param :: "json \<Rightarrow> string option result" where
  "opt_str_param j = (case j of JNull \<Rightarrow> Inr None | JStr s \<Rightarrow> Inr (Some s) | _ \<Rightarrow> Inl ValueError)"

definition forest_params :: "json \<Rightarrow> (int \<times> int option \<times> int \<times> string option) result" where
  "forest_params conf =
     bind_result (member conf ''n_estimators'') (\<lambda>n0. bind_result (member conf ''max_depth'') (\<lambda>d0.
     bind_result (member conf ''min_samples_leaf'') (\<lambda>l0. bind_result (member conf ''class_weight'') (\<lambda>w0.
     bind_result (int_param n0) (\<lambda>n. bind_result (opt_int_param d0) (\<lambda>d.
     bind_result (int_param l0) (\<lambda>l. bind_result (opt_str_param w0) (\<lambda>w. Inr (n, d, l, w)))))))))"

section \<open>One variant\<close>

definition ABLATION_SEED :: int where
  "ABLATION_SEED = 42"

text \<open>\<open>estimator.predict_proba(features)[:, 1].tolist()\<close>.\<close>

definition ablation_scores :: "('f, 'y, 'e) learner \<Rightarrow> 'e \<Rightarrow> 'f \<Rightarrow> dbl list result" where
  "ablation_scores L est x = (case predict_proba L est of
      None \<Rightarrow> Inl AttributeError | Some pp \<Rightarrow> bind_result (pp x) (\<lambda>a. array_column a 1))"

definition binary_variant ::
  "('f, 'c) pandas \<Rightarrow> ('f, int, 'e) learner \<Rightarrow> int scorer \<Rightarrow> json \<Rightarrow> string list \<Rightarrow> 'f \<times> 'f \<times> 'f \<Rightarrow>
     int list \<Rightarrow> int list \<Rightarrow> int list \<Rightarrow> (metrics \<times> metrics) result" where
  "binary_variant P L M conf cs matrices y_train y_val y_test =
     (let (trx, vax, tex) = matrices in
      bind_result (forest_params conf) (\<lambda>(n, d, l, w).
      bind_result (select P cs trx) (\<lambda>tr. bind_result (fit L (random_forest L n d l w ABLATION_SEED) tr y_train) (\<lambda>model.
      bind_result (select P cs vax) (\<lambda>va. bind_result (predict L model va) (\<lambda>val_pred.
      bind_result (select P cs tex) (\<lambda>te. bind_result (predict L model te) (\<lambda>test_pred.
      bind_result (ablation_scores L model va) (\<lambda>val_sc.
      bind_result (ablation_scores L model te) (\<lambda>test_sc.
      bind_result (ablation_binary_metrics M y_val val_pred val_sc) (\<lambda>vm.
      bind_result (ablation_binary_metrics M y_test test_pred test_sc) (\<lambda>tm.
        Inr (vm, tm)))))))))))))"

definition multiclass_variant ::
  "('f, 'c) pandas \<Rightarrow> ('f, string, 'e) learner \<Rightarrow> string scorer \<Rightarrow> json \<Rightarrow> string list \<Rightarrow> string list \<Rightarrow>
     'f \<times> 'f \<times> 'f \<Rightarrow> string list \<Rightarrow> string list \<Rightarrow> string list \<Rightarrow> (metrics \<times> metrics) result" where
  "multiclass_variant P L M conf labels cs matrices train_labels val_labels test_labels =
     (let (trx, vax, tex) = matrices; anomalous = filter (\<lambda>l. l \<noteq> NORMAL_LABEL) in
      bind_result (select P cs trx) (\<lambda>tr. bind_result (select P cs vax) (\<lambda>va. bind_result (select P cs tex) (\<lambda>te.
      bind_result (forest_params conf) (\<lambda>(n, d, l, w).
      bind_result (fit L (random_forest L n d l w ABLATION_SEED) (anomaly_rows P train_labels tr) (anomalous train_labels)) (\<lambda>model.
      bind_result (predict L model (anomaly_rows P val_labels va)) (\<lambda>val_pred.
      bind_result (predict L model (anomaly_rows P test_labels te)) (\<lambda>test_pred.
      bind_result (ablation_multiclass_metrics M (anomalous val_labels) val_pred labels) (\<lambda>vm.
      bind_result (ablation_multiclass_metrics M (anomalous test_labels) test_pred labels) (\<lambda>tm.
        Inr (vm, tm)))))))))))"

record variant_result =
  variant_name :: string
  selected_columns :: "string list"
  binary_result :: "metrics \<times> metrics"
  binary_summary :: "item list"
  multiclass_result :: "metrics \<times> metrics"
  multiclass_summary :: "item list"

definition summary_items :: "string \<Rightarrow> string list \<Rightarrow> string list \<Rightarrow> metrics \<times> metrics \<Rightarrow> item list result" where
  "summary_items name cs keys ms =
     bind_result (map_result (\<lambda>(m, k). metric m k) (map (\<lambda>k. (fst ms, k)) keys @ map (\<lambda>k. (snd ms, k)) keys)) (\<lambda>vs.
       Inr (Text name # Whole (int (length cs)) # map json_item vs))"

definition run_variant ::
  "('f, 'c) pandas \<Rightarrow> ('f, int, 'b) learner \<Rightarrow> ('f, string, 'm) learner \<Rightarrow> int scorer \<Rightarrow> string scorer \<Rightarrow> settings \<Rightarrow>
     'f \<times> 'f \<times> 'f \<Rightarrow> string list \<times> string list \<times> string list \<Rightarrow> int list \<times> int list \<times> int list \<Rightarrow>
     string \<Rightarrow> variant_result result" where
  "run_variant P LB LM MB MM s matrices labels targets name =
     (let (train_labels, val_labels, test_labels) = labels; (y_train, y_val, y_test) = targets in
      bind_result (build_variant_columns (phase4_features s) name) (\<lambda>cs.
      bind_result (binary_variant P LB MB (phase4_binary_config s) cs matrices y_train y_val y_test) (\<lambda>b.
      bind_result (summary_items name cs [''anomaly_f1'', ''pr_auc'', ''balanced_accuracy''] b) (\<lambda>brow.
      bind_result (multiclass_variant P LM MM (phase4_multiclass_config s) (phase4_labels s) cs matrices
          train_labels val_labels test_labels) (\<lambda>m.
      bind_result (summary_items name cs [''macro_f1'', ''balanced_accuracy''] m) (\<lambda>mrow.
        Inr \<lparr>variant_name = name, selected_columns = cs, binary_result = b, binary_summary = brow,
          multiclass_result = m, multiclass_summary = mrow\<rparr>))))))"

section \<open>The script\<close>

record ablation_args =
  ablation_dataset_dir :: string
  ablation_results_dir :: string
  ablation_manifest_path :: string
  ablation_now :: string

definition BINARY_VARIANT_HEADER :: "string list" where
  "BINARY_VARIANT_HEADER = [''variant'', ''feature_count'', ''val_anomaly_f1'', ''val_pr_auc'',
     ''val_balanced_accuracy'', ''test_anomaly_f1'', ''test_pr_auc'', ''test_balanced_accuracy'']"

definition MULTICLASS_VARIANT_HEADER :: "string list" where
  "MULTICLASS_VARIANT_HEADER = [''variant'', ''feature_count'', ''val_macro_f1'', ''val_balanced_accuracy'',
     ''test_macro_f1'', ''test_balanced_accuracy'']"

definition variant_json :: "variant_result \<Rightarrow> metrics \<times> metrics \<Rightarrow> json" where
  "variant_json v ms = JObj [(''feature_count'', JInt (int (length (selected_columns v)))),
     (''dropped_group'', JStr (dict_get_or [] VARIANT_TO_GROUP (variant_name v))),
     (''selected_columns'', str_array (selected_columns v)),
     (''val_metrics'', JObj (fst ms)), (''test_metrics'', JObj (snd ms))]"

definition variants_json :: "ablation_args \<Rightarrow> (variant_result \<Rightarrow> metrics \<times> metrics) \<Rightarrow> variant_result list \<Rightarrow> json" where
  "variants_json a f vs = JObj [(''variants'', JObj (map (\<lambda>v. (variant_name v, variant_json v (f v))) vs)),
     (''generated_at_utc'', JStr (ablation_now a))]"

definition ablation_manifest ::
  "('f, 'c) pandas \<Rightarrow> ablation_args \<Rightarrow> json \<Rightarrow> settings \<Rightarrow> 'f \<Rightarrow> 'f \<Rightarrow> 'f \<Rightarrow> json result" where
  "ablation_manifest P a run_info s train_df val_df test_df =
     bind_result (member run_info ''binary_best_model'') (\<lambda>bm.
     bind_result (member run_info ''multiclass_best_model'') (\<lambda>mm.
     bind_result (label_counts P train_df) (\<lambda>train_counts.
     bind_result (label_counts P val_df) (\<lambda>val_counts.
     bind_result (label_counts P test_df) (\<lambda>test_counts.
       Inr (JObj [(''generated_at_utc'', JStr (ablation_now a)), (''dataset_dir'', JStr (ablation_dataset_dir a)),
         (''results_dir'', JStr (ablation_results_dir a)),
         (''phase4_run_manifest'', JStr (ablation_manifest_path a)),
         (''variant_order'', str_array VARIANT_ORDER),
         (''feature_groups'', JObj (map (\<lambda>(g, cs). (g, str_array cs)) FEATURE_GROUPS)),
         (''binary_best_config'', phase4_binary_config s),
         (''multiclass_best_config'', phase4_multiclass_config s),
         (''binary_best_model'', bm), (''multiclass_best_model'', mm),
         (''feature_column_count'', JInt (int (length (phase4_features s)))),
         (''train_rows'', JInt (int (nrows P train_df))), (''val_rows'', JInt (int (nrows P val_df))),
         (''test_rows'', JInt (int (nrows P test_df))),
         (''train_label_distribution'', train_counts), (''val_label_distribution'', val_counts),
         (''test_label_distribution'', test_counts)]))))))"

definition ablation_files ::
  "('f, 'c) pandas \<Rightarrow> ablation_args \<Rightarrow> json \<Rightarrow> settings \<Rightarrow> 'f \<Rightarrow> 'f \<Rightarrow> 'f \<Rightarrow> variant_result list \<Rightarrow>
     (string \<times> report_file result) list" where
  "ablation_files P a run_info s train_df val_df test_df vs =
     [(''binary_variant_summary.csv'', Inr (Report_Table (BINARY_VARIANT_HEADER, map binary_summary vs))),
      (''multiclass_variant_summary.csv'', Inr (Report_Table (MULTICLASS_VARIANT_HEADER, map multiclass_summary vs))),
      (''binary_metrics.json'', Inr (Report_Json (variants_json a binary_result vs))),
      (''multiclass_metrics.json'', Inr (Report_Json (variants_json a multiclass_result vs))),
      (''run_manifest.json'', bind_result (ablation_manifest P a run_info s train_df val_df test_df)
         (\<lambda>j. Inr (Report_Json j)))]"

definition ablation_main ::
  "('f, 'c) pandas \<Rightarrow> ('f, int, 'b) learner \<Rightarrow> ('f, string, 'm) learner \<Rightarrow> int scorer \<Rightarrow> string scorer \<Rightarrow>
     json result \<Rightarrow> (string \<Rightarrow> 'f result) \<Rightarrow> ablation_args \<Rightarrow> (string \<times> report_file) list \<times> unit result" where
  "ablation_main P LB LM MB MM manifest_file read_csv a =
     (case bind_result manifest_file (\<lambda>run_info.
           bind_result (read_settings run_info) (\<lambda>s.
           bind_result (read_csv ''windows_train.csv'') (\<lambda>train_df.
           bind_result (read_csv ''windows_val.csv'') (\<lambda>val_df.
           bind_result (read_csv ''windows_test.csv'') (\<lambda>test_df.
           bind_result (build_ablation_matrices P train_df val_df test_df (phase4_excluded s) (phase4_features s)) (\<lambda>matrices.
           bind_result (texts P train_df ''label'') (\<lambda>train_labels.
           bind_result (texts P val_df ''label'') (\<lambda>val_labels.
           bind_result (texts P test_df ''label'') (\<lambda>test_labels.
           bind_result (binary_target P train_df) (\<lambda>y_train.
           bind_result (binary_target P val_df) (\<lambda>y_val.
           bind_result (binary_target P test_df) (\<lambda>y_test.
           bind_result (map_result (run_variant P LB LM MB MM s matrices (train_labels, val_labels, test_labels)
               (y_train, y_val, y_test)) VARIANT_ORDER) (\<lambda>vs.
             Inr (ablation_files P a run_info s train_df val_df test_df vs)))))))))))))) of
        Inl e \<Rightarrow> ([], Inl e)
      | Inr files \<Rightarrow> write_all files)"

section \<open>Lemmas\<close>

definition dropped_by :: "string \<Rightarrow> string list" where
  "dropped_by v = dict_get_or [] FEATURE_GROUPS (dict_get_or [] VARIANT_TO_GROUP v)"

lemma variant_columns_cases:
  "build_variant_columns cs v = (if v \<in> set VARIANT_ORDER then Inr (filter (\<lambda>c. c \<notin> set (dropped_by v)) cs)
     else Inl (KeyError v))"
  by (simp add: build_variant_columns_def dropped_by_def VARIANT_ORDER_def VARIANT_TO_GROUP_def FEATURE_GROUPS_def
      dict_index_def dict_get_or_def dict_get_def)

lemma map_result_text_of [simp]: "map_result text_of (map JStr xs) = Inr xs"
  by (induction xs) (simp_all add: text_of_def)

lemma texts_of_array [simp]: "texts_of (str_array xs) = Inr xs"
  by (simp add: texts_of_def str_array_def)

lemma read_settings_run_manifest:
  "run_manifest P a tr va te t = Inr j \<Longrightarrow> read_settings j =
     Inr \<lparr>phase4_features = final_feature_columns (t_matrices t), phase4_excluded = sort EXCLUDED_COLUMNS,
       phase4_binary_config = JObj (config (t_binary_best t)),
       phase4_multiclass_config = JObj (config (t_multiclass_best t)), phase4_labels = t_labels t\<rparr>"
  by (auto simp: run_manifest_def bind_result_Inr read_settings_def member_def dict_index_def dict_get_def
      feature_columns_payload_def)

lemma forest_params_config: "forest_params (JObj (forest_config g)) = Inr g"
proof -
  obtain n d l w where "g = (n, d, l, w)" by (cases g)
  then show ?thesis
    by (cases d; cases w) (simp_all add: forest_params_def forest_config_def member_def dict_index_def dict_get_def
        int_param_def opt_int_param_def opt_str_param_def opt_int_def opt_str_def)
qed

lemma forest_params_missing: "dict_get d ''n_estimators'' = None \<Longrightarrow>
    forest_params (JObj d) = Inl (KeyError ''n_estimators'')"
  by (simp add: forest_params_def member_def dict_index_def)

text \<open>What a candidate's configuration says.\<close>

lemma try_binary_config:
  "try_binary L M trx vax yt yv name fam conf e0 = Inr r \<Longrightarrow>
     model_name r = name \<and> family r = fam \<and> config r = conf"
  by (auto simp: try_binary_def bind_result_Inr untested_def)

lemma map_result_elem: "map_result f xs = Inr rs \<Longrightarrow> r \<in> set rs \<Longrightarrow> \<exists>x \<in> set xs. f x = Inr r"
  unfolding map_result_Inr by (induction rule: list_all2_induct) auto

lemma binary_configs:
  assumes "fit_binary_candidates P L M tr va trx vax seed = Inr rs" and "r \<in> set rs"
  shows "if family r = ''RandomForestClassifier''
    then \<exists>g \<in> set forest_grid. model_name r = forest_name g \<and> config r = forest_config g
    else dict_get (config r) ''n_estimators'' = None"
proof -
  from assms(1) obtain yt yv d ru ls fs where
    d: "try_binary L M trx vax yt yv ''dummy_prior'' ''DummyClassifier'' [(''strategy'', JStr ''prior'')] (dummy_prior L) = Inr d"
    and ru: "try_rules P M tr va yv = Inr ru"
    and ls: "map_result (\<lambda>(c, w). try_binary L M trx vax yt yv (logreg_name (c, w)) ''LogisticRegression''
         (logreg_config (c, w)) (scaled_logreg L (float_literal c) w seed)) logreg_grid = Inr ls"
    and fs: "map_result (\<lambda>(n, d, l, w). try_binary L M trx vax yt yv (forest_name (n, d, l, w)) ''RandomForestClassifier''
         (forest_config (n, d, l, w)) (random_forest L n d l w seed)) forest_grid = Inr fs"
    and rs: "rs = d # ru # ls @ fs"
    by (rule fit_binary_candidatesE)
  from assms(2) consider "r = d" | "r = ru" | "r \<in> set ls" | "r \<in> set fs" unfolding rs by auto
  then show ?thesis
  proof cases
    case 1
    then show ?thesis using try_binary_config [OF d] by (simp add: dict_get_def)
  next
    case 2
    then have "family r = ''RuleBasedBinaryDetector''" "config r = [(''pressure_quantile'', JFloat (float_literal ''0.95''))]"
      using ru by (auto simp: try_rules_def bind_result_Inr untested_def)
    then show ?thesis by (simp add: dict_get_def)
  next
    case 3
    then obtain c w where "family r = ''LogisticRegression''" "config r = logreg_config (c, w)"
      using map_result_elem [OF ls, of r] by (auto dest!: try_binary_config)
    then show ?thesis by (simp add: dict_get_def logreg_config_def)
  next
    case 4
    then obtain g where "g \<in> set forest_grid" "family r = ''RandomForestClassifier''" "config r = forest_config g"
      "model_name r = forest_name g"
      using map_result_elem [OF fs, of r] by (auto dest!: try_binary_config)
    then show ?thesis by auto
  qed
qed

subsection \<open>Frames that a learner cannot tell apart\<close>

definition same_data :: "('f, 'c) pandas \<Rightarrow> 'f \<Rightarrow> 'f \<Rightarrow> bool" where
  "same_data P f g \<longleftrightarrow> columns P f = columns P g \<and> nrows P f = nrows P g \<and>
     (\<forall>c \<in> set (columns P f). column P f c = column P g c)"

definition reads_columns :: "('f, 'c) pandas \<Rightarrow> ('f, 'y, 'e) learner \<Rightarrow> bool" where
  "reads_columns P L \<longleftrightarrow> (\<forall>f g. same_data P f g \<longrightarrow> (\<forall>e. (\<forall>y. fit L e f y = fit L e g y) \<and>
     predict L e f = predict L e g \<and>
     (\<forall>pp. predict_proba L e = Some pp \<longrightarrow> pp f = pp g)))"

context data_frames
begin

lemma same_select:
  assumes "columns P f = cs" and "distinct cs"
  shows "\<exists>g. select P cs f = Inr g \<and> same_data P f g"
proof -
  from assms obtain g where g: "select P cs f = Inr g" "columns P g = cs" "nrows P g = nrows P f"
    using select_present [of f cs] by auto
  then show ?thesis using assms(1) column_select [OF g(1)] by (auto simp: same_data_def)
qed

lemma variant_blind:
  assumes "set cs \<inter> set dropped = {}"
    and "agree_outside P dropped trx trx'" and "agree_outside P dropped vax vax'" and "agree_outside P dropped tex tex'"
  shows "binary_variant P L M conf cs (trx, vax, tex) y_train y_val y_test =
      binary_variant P L M conf cs (trx', vax', tex') y_train y_val y_test"
    and "multiclass_variant P L' M' conf classes cs (trx, vax, tex) train_labels val_labels test_labels =
      multiclass_variant P L' M' conf classes cs (trx', vax', tex') train_labels val_labels test_labels"
  by (simp_all add: binary_variant_def multiclass_variant_def select_agree [OF assms(2,1)]
      select_agree [OF assms(3,1)] select_agree [OF assms(4,1)])

lemma ablation_rows:
  assumes "build_ablation_matrices P tr va te ex cs = Inr (a, b, c)"
    and "distinct (columns P tr)" "distinct (columns P va)" "distinct (columns P te)"
  shows "nrows P a = nrows P tr" and "nrows P b = nrows P va" and "nrows P c = nrows P te"
proof -
  let ?raw = "raw_features P ex tr"
  from assms(1) obtain tr0 va0 te0 a0 b0 c0 where
    e: "encoded P ?raw tr = Inr tr0" "encoded P ?raw va = Inr va0" "encoded P ?raw te = Inr te0"
    and r: "reindex P cs tr0 = Inr a0" "reindex P cs va0 = Inr b0" "reindex P cs te0 = Inr c0"
    and x: "a = fillna_zero P a0" "b = fillna_zero P b0" "c = fillna_zero P c0"
    by (auto simp: build_ablation_matrices_def bind_result_Inr Let_def)
  have d: "distinct ?raw" using assms(2) by (rule distinct_raw)
  show "nrows P a = nrows P tr" "nrows P b = nrows P va" "nrows P c = nrows P te"
    using encoded_rows(1) [OF e(1) d assms(2)] encoded_rows(1) [OF e(2) d assms(3)]
      encoded_rows(1) [OF e(3) d assms(4)] reindex_shape [OF r(1)] reindex_shape [OF r(2)] reindex_shape [OF r(3)]
    by (simp_all add: x nrows_fillna)
qed

lemma ablation_same_data:
  assumes m: "build_feature_matrices P tr va te = Inr m"
    and d: "distinct (columns P tr)" "distinct (columns P va)" "distinct (columns P te)"
    and u: "unambiguous P (raw_features P EXCLUDED_COLUMNS tr) tr"
      "unambiguous P (raw_features P EXCLUDED_COLUMNS tr) va"
      "unambiguous P (raw_features P EXCLUDED_COLUMNS tr) te"
    and ex: "set ex = set EXCLUDED_COLUMNS"
    and abc: "build_ablation_matrices P tr va te ex (final_feature_columns m) = Inr (a, b, c)"
  shows "same_data P (train_x m) a" and "same_data P (val_x m) b" and "same_data P (test_x m) c"
    and "columns P a = final_feature_columns m" and "columns P b = final_feature_columns m"
    and "columns P c = final_feature_columns m" and "distinct (final_feature_columns m)"
proof -
  from build_ok(1) [OF m d u(1)] have ok: "matrices_ok P tr va te m" .
  from ablation_agrees [OF m u ex] abc
  have cols: "columns P a = final_feature_columns m" "columns P b = final_feature_columns m"
      "columns P c = final_feature_columns m"
    and k: "\<forall>k \<in> set (final_feature_columns m). column P a k = column P (train_x m) k \<and>
       column P b k = column P (val_x m) k \<and> column P c k = column P (test_x m) k" by auto
  note rows = ablation_rows [OF abc d]
  show "columns P a = final_feature_columns m" "columns P b = final_feature_columns m"
      "columns P c = final_feature_columns m" using cols by simp_all
  show "distinct (final_feature_columns m)" using ok by (simp add: matrices_ok_def)
  show "same_data P (train_x m) a" "same_data P (val_x m) b" "same_data P (test_x m) c"
    using ok cols k rows by (simp_all add: matrices_ok_def matrix_shape_def same_data_def)
qed

end

lemma same_data_trans: "same_data P f g \<Longrightarrow> same_data P g h \<Longrightarrow> same_data P f h"
  by (auto simp: same_data_def)

lemma reads_columnsD:
  assumes "reads_columns P L" and "same_data P f g"
  shows "fit L e f y = fit L e g y" and "predict L e f = predict L e g"
    and "predict_proba L e = Some pp \<Longrightarrow> pp f = pp g"
  using assms by (auto simp: reads_columns_def)

lemma array_column_Inr:
  "array_column a i = Inr xs \<longleftrightarrow> (\<exists>k rows. a = Mat k rows \<and> i < k \<and> xs = map (\<lambda>r. r ! i) rows)"
  by (cases a) (auto simp: array_column_def)

lemma ablation_scores_agree:
  assumes "reads_columns P L" and "same_data P f g" and "ablation_scores L e g = Inr s"
  shows "predict_scores L e f = Inr (Some s)"
proof -
  from assms(3) obtain pp k rows where pp: "predict_proba L e = Some pp" "pp g = Inr (Mat k rows)" "1 < k"
    and s: "s = map (\<lambda>r. r ! 1) rows"
    by (auto simp: ablation_scores_def bind_result_Inr array_column_Inr split: option.splits)
  have "pp f = pp g" using reads_columnsD(3) [OF assms(1,2) pp(1)] .
  then show ?thesis using pp s by (simp add: predict_scores_def)
qed

lemma ablation_metrics_agree:
  assumes "ablation_binary_metrics M y p s = Inr d" and "binary_metrics M y p (Some s) = Inr d'"
    and "1 < length (uniq y)"
  shows "dict_get d k = dict_get d' k"
  using assms
  by (auto simp: ablation_binary_metrics_def binary_metrics_def ranking_scores_def bind_result_Inr opt_float_def
      score_entries_def dict_get_def)

section \<open>Properties\<close>

text \<open>C26: a variant of the study cannot see the features it leaves out. The forests of a variant are
trained, applied and scored the same, with the same metrics, summaries and selected columns or the
same exception, when the three matrices are exchanged for others that differ only in the columns of
its group, listed here; and it keeps all other recorded columns, in their order. The variant with
all features keeps every column, and no other name is a variant. The counter of new connections,
which the design of the study counts to the data path group, is kept by every variant.\<close>

theorem ablation_variant_blind_to_group:
  fixes P :: "('f, 'c) pandas"
  assumes "data_frames P"
    and "(name, dropped) \<in> set [
      (''minus_datapath_stats'', [''delta_tcp_packets'', ''delta_nodeport_hit'', ''delta_backend_selected'',
         ''delta_rr_update'', ''delta_snat_install'', ''delta_request_rewrite'',
         ''delta_revnat_hit'', ''delta_ct_lookup_miss'', ''delta_response_rewrite'']),
      (''minus_ct_gc'', [''ct_active_count'', ''fwd_ct_active_count'', ''gc_runs_in_window'', ''gc_deleted_ct'',
         ''gc_deleted_fwd_ct'', ''ct_entry_timeout_seconds'', ''ct_gc_interval_seconds'']),
      (''minus_k8s_events'', [''service_event_seen'', ''slice_event_seen'', ''node_event_seen'',
         ''sync_reconcile_count'', ''sync_upserted_services'', ''sync_removed_services'']),
      (''minus_topology_backend'', [''has_remote_backend'', ''backend_total'', ''backend_local'', ''backend_remote'',
         ''backend_total_delta''])]"
    and "agree_outside P dropped trx trx'" and "agree_outside P dropped vax vax'" and "agree_outside P dropped tex tex'"
  shows "run_variant P LB LM MB MM s (trx, vax, tex) labels targets name =
      run_variant P LB LM MB MM s (trx', vax', tex') labels targets name \<and>
    build_variant_columns cs name = Inr (filter (\<lambda>c. c \<notin> set dropped) cs) \<and>
    build_variant_columns cs ''all_features'' = Inr cs \<and>
    (\<forall>v. v \<notin> {''all_features'', ''minus_datapath_stats'', ''minus_ct_gc'', ''minus_k8s_events'', ''minus_topology_backend''} \<longrightarrow>
       build_variant_columns cs v = Inl (KeyError v)) \<and>
    ''delta_new_conn'' \<notin> set dropped"
proof (intro conjI allI impI)
  have ds: "build_variant_columns xs name = Inr (filter (\<lambda>c. c \<notin> set dropped) xs)" for xs
    using assms(2) by (auto simp: variant_columns_cases dropped_by_def VARIANT_ORDER_def VARIANT_TO_GROUP_def
        FEATURE_GROUPS_def dict_get_or_def dict_get_def)
  then show "build_variant_columns cs name = Inr (filter (\<lambda>c. c \<notin> set dropped) cs)" .
  have kept: "set (filter (\<lambda>c. c \<notin> set dropped) (phase4_features s)) \<inter> set dropped = {}" by auto
  show "run_variant P LB LM MB MM s (trx, vax, tex) labels targets name =
      run_variant P LB LM MB MM s (trx', vax', tex') labels targets name"
    unfolding run_variant_def ds Let_def bind_result_simps
    by (simp only: data_frames.variant_blind [OF assms(1) kept assms(3-5)])
  show "build_variant_columns cs ''all_features'' = Inr cs" by (simp add: build_variant_columns_def)
  show "build_variant_columns cs v = Inl (KeyError v)"
    if "v \<notin> {''all_features'', ''minus_datapath_stats'', ''minus_ct_gc'', ''minus_k8s_events'', ''minus_topology_backend''}" for v
    using that by (simp add: variant_columns_cases VARIANT_ORDER_def)
  show "''delta_new_conn'' \<notin> set dropped" using assms(2) by auto
qed

text \<open>The settings survive the way through the manifest. Reading the manifest the training run
wrote gives back its final columns, excluded columns and labels; and the recorded configuration of
the best two-class model gives back the very grid point when that is a random forest, and a
\<open>KeyError\<close> when it is any other candidate.\<close>

theorem ablation_settings_roundtrip:
  assumes "fit_binary_candidates P L M tr va trx vax seed = Inr rs" and "r \<in> set rs"
    and "test_binary P L M te tex y_test r = Inr (t_binary_best t)"
    and "run_manifest P a tr va te t = Inr j"
  shows "\<exists>s. read_settings j = Inr s \<and> phase4_features s = final_feature_columns (t_matrices t) \<and>
    phase4_excluded s = sort EXCLUDED_COLUMNS \<and> phase4_labels s = t_labels t \<and>
    (if family r = ''RandomForestClassifier''
     then \<exists>g \<in> set forest_grid. model_name r = forest_name g \<and> forest_params (phase4_binary_config s) = Inr g
     else forest_params (phase4_binary_config s) = Inl (KeyError ''n_estimators''))"
proof -
  have c: "config (t_binary_best t) = config r" using test_binary_same [OF assms(3)] by simp
  have "if family r = ''RandomForestClassifier''
     then \<exists>g \<in> set forest_grid. model_name r = forest_name g \<and> forest_params (JObj (config r)) = Inr g
     else forest_params (JObj (config r)) = Inl (KeyError ''n_estimators'')"
    using binary_configs [OF assms(1,2)] forest_params_config forest_params_missing by (auto split: if_splits)
  then show ?thesis using read_settings_run_manifest [OF assms(4)] c by simp
qed

lemma forest_candidate:
  assumes "fit_binary_candidates P L M tr va trx vax seed = Inr rs" and "r \<in> set rs"
    and "forest_params (JObj (config r)) = Inr (n, d, l, w)"
  shows "\<exists>yt yv model pred sc. binary_target P tr = Inr yt \<and> binary_target P va = Inr yv \<and>
    fit L (random_forest L n d l w seed) trx yt = Inr model \<and> estimator r = Library model \<and>
    predict L model vax = Inr pred \<and> predict_scores L model vax = Inr sc \<and>
    binary_metrics M yv pred sc = Inr (val_metrics r)"
proof -
  from assms(1) obtain yt yv d0 ru ls fs where y: "binary_target P tr = Inr yt" "binary_target P va = Inr yv"
    and d0: "try_binary L M trx vax yt yv ''dummy_prior'' ''DummyClassifier'' [(''strategy'', JStr ''prior'')] (dummy_prior L) = Inr d0"
    and ru: "try_rules P M tr va yv = Inr ru"
    and ls: "map_result (\<lambda>(c, w). try_binary L M trx vax yt yv (logreg_name (c, w)) ''LogisticRegression''
         (logreg_config (c, w)) (scaled_logreg L (float_literal c) w seed)) logreg_grid = Inr ls"
    and fs: "map_result (\<lambda>(n, d, l, w). try_binary L M trx vax yt yv (forest_name (n, d, l, w)) ''RandomForestClassifier''
         (forest_config (n, d, l, w)) (random_forest L n d l w seed)) forest_grid = Inr fs"
    and rs: "rs = d0 # ru # ls @ fs"
    by (rule fit_binary_candidatesE)
  have fam: "family r = ''RandomForestClassifier''"
    using binary_configs [OF assms(1,2)] forest_params_missing assms(3) by (auto split: if_splits)
  have "family d0 \<noteq> ''RandomForestClassifier''" "family ru \<noteq> ''RandomForestClassifier''"
    using try_binary_config [OF d0] ru by (auto simp: try_rules_def bind_result_Inr untested_def)
  moreover have "family x \<noteq> ''RandomForestClassifier''" if "x \<in> set ls" for x
    using map_result_elem [OF ls that] by (auto dest!: try_binary_config)
  ultimately have "r \<in> set fs" using assms(2) fam unfolding rs by auto
  from map_result_elem [OF fs this] obtain n' d' l' w' where
    t: "try_binary L M trx vax yt yv (forest_name (n', d', l', w')) ''RandomForestClassifier''
         (forest_config (n', d', l', w')) (random_forest L n' d' l' w' seed) = Inr r" by auto
  have "(n', d', l', w') = (n, d, l, w)"
    using try_binary_config [OF t] assms(3) forest_params_config [of "(n', d', l', w')"] by simp
  then show ?thesis using t y by (auto simp: try_binary_def bind_result_Inr untested_def)
qed

lemma forest_listed:
  assumes "fit_binary_candidates P L M tr va trx vax seed = Inr rs" and "g \<in> set forest_grid"
  shows "\<exists>r \<in> set rs. config r = forest_config g"
proof -
  from assms(1) obtain yt yv d ru ls fs where
    fs: "map_result (\<lambda>(n, d, l, w). try_binary L M trx vax yt yv (forest_name (n, d, l, w)) ''RandomForestClassifier''
         (forest_config (n, d, l, w)) (random_forest L n d l w seed)) forest_grid = Inr fs"
    and rs: "rs = d # ru # ls @ fs"
    by (rule fit_binary_candidatesE)
  have "list_all2 (\<lambda>g r. config r = forest_config g) forest_grid fs"
    using fs unfolding map_result_Inr by (rule list_all2_mono) (auto dest!: try_binary_config)
  then have "\<exists>r \<in> set fs. config r = forest_config g"
    using assms(2) by (induction rule: list_all2_induct) auto
  then show ?thesis by (auto simp: rs)
qed

text \<open>C8: the study's starting point is the training run. When the best two-class model is a random
forest and the study uses the run's matrices, seed and recorded settings, the \<open>all_features\<close> variant
gets the very validation and test metrics the training run recorded for that model, entry by entry,
as long as the split has normal and anomalous windows. The estimators are assumed to depend on
the names, contents and number of the columns and rows only.\<close>

theorem ablation_reproduces_training_metrics:
  assumes "data_frames P" and "reads_columns P L"
    and m: "build_feature_matrices P tr va te = Inr m"
    and d: "distinct (columns P tr)" "distinct (columns P va)" "distinct (columns P te)"
    and u: "unambiguous P (raw_features P EXCLUDED_COLUMNS tr) tr"
      "unambiguous P (raw_features P EXCLUDED_COLUMNS tr) va"
      "unambiguous P (raw_features P EXCLUDED_COLUMNS tr) te"
    and rs: "fit_binary_candidates P L M tr va (train_x m) (val_x m) ABLATION_SEED = Inr rs" "r \<in> set rs"
    and b: "test_binary P L M te (test_x m) y_test r = Inr best"
    and y: "binary_target P tr = Inr y_train" "binary_target P va = Inr y_val"
    and xs: "build_ablation_matrices P tr va te (sort EXCLUDED_COLUMNS) (final_feature_columns m) = Inr xs"
    and cs: "build_variant_columns (final_feature_columns m) ''all_features'' = Inr cs"
    and v: "binary_variant P L M (JObj (config best)) cs xs y_train y_val y_test = Inr (vm, tm)"
    and both: "1 < length (uniq y_test)"
  shows "\<exists>dt. test_metrics best = Some dt \<and> (\<forall>k. dict_get tm k = dict_get dt k) \<and>
    (1 < length (uniq y_val) \<longrightarrow> (\<forall>k. dict_get vm k = dict_get (val_metrics best) k))"
proof -
  obtain a b c where abc: "xs = (a, b, c)" by (cases xs)
  have ex: "set (sort EXCLUDED_COLUMNS) = set EXCLUDED_COLUMNS" by simp
  note same = data_frames.ablation_same_data [OF assms(1) m d u ex xs [unfolded abc]]
  have cs': "cs = final_feature_columns m" using cs by (simp add: build_variant_columns_def)
  have "\<exists>g. select P cs x = Inr g \<and> same_data P x g" if "columns P x = cs" for x
    using data_frames.same_select [OF assms(1) that] same(7) by (simp add: cs')
  then obtain a' b' c' where sel: "select P cs a = Inr a'" "select P cs b = Inr b'" "select P cs c = Inr c'"
    and sd: "same_data P a a'" "same_data P b b'" "same_data P c c'"
    using same(4-6) cs' by meson
  note tr = same_data_trans [OF same(1) sd(1)] and va = same_data_trans [OF same(2) sd(2)]
    and te = same_data_trans [OF same(3) sd(3)]
  note same_test = test_binary_same [OF b]
  from v obtain n dp l w model vp tp vs ts where par: "forest_params (JObj (config best)) = Inr (n, dp, l, w)"
    and ft: "fit L (random_forest L n dp l w ABLATION_SEED) a' y_train = Inr model"
    and p: "predict L model b' = Inr vp" "predict L model c' = Inr tp"
    and sc: "ablation_scores L model b' = Inr vs" "ablation_scores L model c' = Inr ts"
    and met: "ablation_binary_metrics M y_val vp vs = Inr vm" "ablation_binary_metrics M y_test tp ts = Inr tm"
    by (auto simp: binary_variant_def abc sel bind_result_Inr)
  from forest_candidate [OF rs, of n dp l w] par same_test y obtain model' pred sc' where
    r: "fit L (random_forest L n dp l w ABLATION_SEED) (train_x m) y_train = Inr model'" "estimator r = Library model'"
      "predict L model' (val_x m) = Inr pred" "predict_scores L model' (val_x m) = Inr sc'"
      "binary_metrics M y_val pred sc' = Inr (val_metrics r)" by auto
  have model: "model' = model" using reads_columnsD(1) [OF assms(2) tr] ft r(1) by simp
  have vs: "sc' = Some vs" using ablation_scores_agree [OF assms(2) va sc(1)] r(4) by (simp add: model)
  have ts: "predict_scores L model (test_x m) = Inr (Some ts)" by (rule ablation_scores_agree [OF assms(2) te sc(2)])
  have vp: "pred = vp" using reads_columnsD(2) [OF assms(2) va, of model] p(1) r(3) by (simp add: model)
  have tp: "predict L model (test_x m) = Inr tp" using reads_columnsD(2) [OF assms(2) te, of model] p(2) by simp
  have "binary_metrics M y_val vp (Some vs) = Inr (val_metrics best)" using r(5) same_test by (simp add: vs vp)
  then have val: "dict_get vm k = dict_get (val_metrics best) k" if "1 < length (uniq y_val)" for k
    by (rule ablation_metrics_agree [OF met(1) _ that])
  from b obtain dt where dt: "binary_metrics M y_test tp (Some ts) = Inr dt" "test_metrics best = Some dt"
    by (auto simp: test_binary_def r(2) model tp ts bind_result_Inr tested_def)
  show ?thesis using ablation_metrics_agree [OF met(2) dt(1) both] dt(2) val by blast
qed

subsection \<open>Witnesses\<close>

definition gc_matrix :: "dbl \<Rightarrow> tframe" where
  "gc_matrix d = \<lparr>rows_of = 1, cells_of = [(''ct_active_count'', [Num d]), (''x'', [Num (Fin 1)])]\<rparr>"

definition gc_settings :: settings where
  "gc_settings = \<lparr>phase4_features = [''ct_active_count'', ''x''], phase4_excluded = [],
     phase4_binary_config = JObj (forest_config (100, None, 1, None)),
     phase4_multiclass_config = JObj (forest_config (100, None, 1, None)), phase4_labels = [''a'']\<rparr>"

definition gc_variant :: "dbl \<Rightarrow> variant_result result" where
  "gc_variant d = run_variant tables (demo_learner (0 :: int)) (demo_learner ''a'') demo_scorer demo_scorer gc_settings
     (gc_matrix d, gc_matrix d, gc_matrix d) ([''a''], [''a''], [''a'']) ([0], [0], [0]) ''minus_ct_gc''"

lemma ablation_variant_blind_to_group_witness:
  "gc_variant (Fin 0) = gc_variant (Fin 7) \<and> build_variant_columns [''ct_active_count'', ''x''] ''minus_ct_gc'' = Inr [''x'']"
proof -
  let ?gc = "[''ct_active_count'', ''fwd_ct_active_count'', ''gc_runs_in_window'', ''gc_deleted_ct'', ''gc_deleted_fwd_ct'',
    ''ct_entry_timeout_seconds'', ''ct_gc_interval_seconds'']"
  have agree: "agree_outside tables ?gc (gc_matrix a) (gc_matrix b)" for a b
    by (auto simp: agree_outside_def table_defs gc_matrix_def)
  note blind = ablation_variant_blind_to_group [OF tables.data_frames_axioms _ agree agree agree, of "''minus_ct_gc''"]
  have "gc_variant (Fin 0) = gc_variant (Fin 7)"
    unfolding gc_variant_def by (rule conjunct1 [OF blind]) simp
  moreover have "build_variant_columns cs ''minus_ct_gc'' = Inr (filter (\<lambda>c. c \<notin> set ?gc) cs)" for cs
    by (rule conjunct1 [OF conjunct2 [OF blind]]) simp
  ultimately show ?thesis by simp
qed

lemma ablation_settings_roundtrip_witness:
  "\<exists>rs r best j s. fit_binary_candidates tables (demo_learner 0) demo_scorer (one_window 0) (one_window 0) (one_window 0) (one_window 0) 42 = Inr rs \<and>
     r \<in> set rs \<and> test_binary tables (demo_learner 0) demo_scorer (one_window 0) (one_window 0) [0] r = Inr best \<and>
     run_manifest tables demo_args (one_window 0) (one_window 0) (one_window 0) (demo_trained\<lparr>t_binary_best := best\<rparr>) = Inr j \<and>
     read_settings j = Inr s \<and> phase4_labels s = [''a'', ''b'']"
proof -
  obtain rs where rs: "fit_binary_candidates tables (demo_learner 0) demo_scorer (one_window 0) (one_window 0) (one_window 0) (one_window 0) 42 = Inr rs"
    using demo_fit_binary [of "one_window 0"] one_window_rows [of 0] by (auto simp: tables_def)
  from chooses_best [OF rs] obtain r where r: "r \<in> set rs" by blast
  obtain best where best: "test_binary tables (demo_learner 0) demo_scorer (one_window 0) (one_window 0) [0] r = Inr best"
    using demo_test_binary by blast
  let ?t = "demo_trained\<lparr>t_binary_best := best\<rparr>"
  obtain j where j: "run_manifest tables demo_args (one_window 0) (one_window 0) (one_window 0) ?t = Inr j"
    by (simp add: run_manifest_def label_counts_def one_window_texts)
  have t: "test_binary tables (demo_learner 0) demo_scorer (one_window 0) (one_window 0) [0] r = Inr (t_binary_best ?t)"
    using best by simp
  have "t_labels ?t = [''a'', ''b'']" by (simp add: demo_trained_def)
  with ablation_settings_roundtrip [OF rs r t j] rs r best j show ?thesis by metis
qed

definition two_windows :: tframe where
  "two_windows = \<lparr>rows_of = 2, cells_of = (''label'', [Str ''normal'', Str ''a'']) # map (\<lambda>f. (f, [Num (count_dbl 0), Num (count_dbl 0)]))
     (''backend_total_delta'' # RULE_CONTROL_FIELDS @ RULE_ERROR_FIELDS @ RULE_PRESSURE_FIELDS)\<rparr>"

lemma demo_reads_columns: "reads_columns tables (demo_learner y)"
  by (simp add: reads_columns_def same_data_def demo_learner_def tables_def)

lemma two_windows_build:
  "\<exists>m. build_feature_matrices tables (one_window 0) (one_window 0) two_windows = Inr m \<and>
     final_feature_columns m = [] \<and> rows_of (val_x m) = 1 \<and> rows_of (test_x m) = 2"
proof -
  have "map_sum id (\<lambda>m. (final_feature_columns m, rows_of (val_x m), rows_of (test_x m)))
      (build_feature_matrices tables (one_window 0) (one_window 0) two_windows) = Inr ([], 1, 2)"
    by code_simp
  then show ?thesis by (cases "build_feature_matrices tables (one_window 0) (one_window 0) two_windows") auto
qed

lemma two_windows_distinct:
  "distinct (columns tables (one_window 0))" "distinct (columns tables two_windows)"
  by code_simp+

lemma two_windows_unambiguous:
  "unambiguous tables (raw_features tables EXCLUDED_COLUMNS (one_window 0)) (one_window 0)"
  "unambiguous tables (raw_features tables EXCLUDED_COLUMNS (one_window 0)) two_windows"
  by code_simp+

lemma demo_scores: "rows_of x = n \<Longrightarrow> 0 < n \<Longrightarrow> predict (demo_learner (0 :: int)) 2 x = Inr (replicate n 0) \<and>
    predict_scores (demo_learner (0 :: int)) 2 x = Inr (Some (replicate n (Fin 0))) \<and>
    ablation_scores (demo_learner (0 :: int)) 2 x = Inr (replicate n (Fin 0))"
  by (simp add: demo_learner_def predict_scores_def ablation_scores_def array_column_def)

lemma demo_two_metrics:
  assumes "y = [0] \<or> y = [0, 1]"
  shows "\<exists>d. binary_metrics demo_scorer y p (Some s) = Inr d" and "\<exists>d. ablation_binary_metrics demo_scorer y p s = Inr d"
proof -
  have "length (filter (\<lambda>(a, b). a = b) (zip y p)) \<le> length y"
    by (rule order_trans [OF length_filter_le]) simp
  then obtain q where "hit_share y p = Inr (Fin q)"
    using count_ratio_unit(1) [of "length (filter (\<lambda>(a, b). a = b) (zip y p))" "length y"] assms
    by (auto simp: hit_share_def)
  then show "\<exists>d. binary_metrics demo_scorer y p (Some s) = Inr d" "\<exists>d. ablation_binary_metrics demo_scorer y p s = Inr d"
    by (auto simp: binary_metrics_def ablation_binary_metrics_def score_entries_def ranking_scores_def demo_scorer_def
        item_at_def)
qed

lemma ablation_reproduces_training_metrics_witness:
  "\<exists>m rs r best xs vm tm dt. build_feature_matrices tables (one_window 0) (one_window 0) two_windows = Inr m \<and>
     fit_binary_candidates tables (demo_learner 0) demo_scorer (one_window 0) (one_window 0) (train_x m) (val_x m) ABLATION_SEED = Inr rs \<and>
     r \<in> set rs \<and> test_binary tables (demo_learner 0) demo_scorer two_windows (test_x m) [0, 1] r = Inr best \<and>
     binary_variant tables (demo_learner 0) demo_scorer (JObj (config best)) [] xs [0] [0] [0, 1] = Inr (vm, tm) \<and>
     test_metrics best = Some dt \<and> (\<forall>k. dict_get tm k = dict_get dt k)"
proof -
  let ?L = "demo_learner (0 :: int)" and ?w = "one_window 0" and ?M = "demo_scorer :: int scorer"
  let ?g = "(100 :: int, None :: int option, 1 :: int, None :: string option)"
  obtain m where m: "build_feature_matrices tables ?w ?w two_windows = Inr m"
    and final: "final_feature_columns m = []" and n: "rows_of (val_x m) = 1" "rows_of (test_x m) = 2"
    using two_windows_build by blast
  note d = two_windows_distinct and u = two_windows_unambiguous
  obtain rs where rs: "fit_binary_candidates tables ?L ?M ?w ?w (train_x m) (val_x m) ABLATION_SEED = Inr rs"
    using demo_fit_binary [OF n(1)] by (auto simp: ABLATION_SEED_def)
  have "?g \<in> set forest_grid" by code_simp
  from forest_listed [OF rs this] obtain r where r: "r \<in> set rs" "config r = forest_config ?g" by blast
  have "forest_params (JObj (config r)) = Inr ?g" using forest_params_config [of ?g] r(2) by simp
  from forest_candidate [OF rs r(1) this] have est: "estimator r = Library 2" by (auto simp: demo_learner_def)
  have y: "binary_target tables ?w = Inr [0]" by (simp add: binary_target_def one_window_texts NORMAL_LABEL_def)
  have two: "0 < (2 :: nat)" "0 < (1 :: nat)" by simp_all
  obtain dt0 where "binary_metrics ?M [0, 1] (replicate 2 0) (Some (replicate 2 (Fin 0))) = Inr dt0"
    using demo_two_metrics(1) [of "[0, 1]" "replicate 2 0" "replicate 2 (Fin 0)"] by blast
  then obtain best where best: "test_binary tables ?L ?M two_windows (test_x m) [0, 1] r = Inr best"
    using demo_scores [OF n(2) two(1)] by (simp add: test_binary_def est)
  have ex: "set (sort EXCLUDED_COLUMNS) = set EXCLUDED_COLUMNS" by simp
  obtain a b c where abc: "build_ablation_matrices tables ?w ?w two_windows (sort EXCLUDED_COLUMNS) (final_feature_columns m) = Inr (a, b, c)"
    using tables.ablation_agrees [OF m u(1,1,2) ex] by metis
  note same = tables.ablation_same_data [OF m d(1,1,2) u(1,1,2) ex abc]
  obtain a' b' c' where sel: "select tables [] a = Inr a'" "select tables [] b = Inr b'" "select tables [] c = Inr c'"
    and sd: "same_data tables a a'" "same_data tables b b'" "same_data tables c c'"
    using tables.same_select [of a "[]"] tables.same_select [of b "[]"] tables.same_select [of c "[]"] same final by auto
  have rows: "rows_of b' = 1" "rows_of c' = 2" using same(2,3) sd n by (simp_all add: same_data_def tables_def)
  obtain vm where vm: "ablation_binary_metrics ?M [0] (replicate 1 0) (replicate 1 (Fin 0)) = Inr vm"
    using demo_two_metrics(2) [of "[0]"] by blast
  obtain tm where tm: "ablation_binary_metrics ?M [0, 1] (replicate 2 0) (replicate 2 (Fin 0)) = Inr tm"
    using demo_two_metrics(2) [of "[0, 1]"] by blast
  have "config best = forest_config ?g" using test_binary_same [OF best] r(2) by simp
  then have "forest_params (JObj (config best)) = Inr ?g" by (simp add: forest_params_config)
  moreover have "random_forest ?L n d l w s = 2" "fit ?L e x yy = Inr e" for n d l w s e x yy by (simp_all add: demo_learner_def)
  ultimately have v: "binary_variant tables ?L ?M (JObj (config best)) [] (a, b, c) [0] [0] [0, 1] = Inr (vm, tm)"
    using demo_scores [OF rows(1) two(2)] demo_scores [OF rows(2) two(1)] vm tm by (simp add: binary_variant_def sel)
  have cs: "build_variant_columns (final_feature_columns m) ''all_features'' = Inr []"
    by (simp add: build_variant_columns_def final)
  have "1 < length (uniq [0, 1 :: int])" by code_simp
  from ablation_reproduces_training_metrics [OF tables.data_frames_axioms demo_reads_columns m d(1,1,2) u(1,1,2) rs r(1)
      best y y abc cs v this] m rs r(1) best v show ?thesis by blast
qed

end
