(* ===== verification/Latex_Tables.thy ===== *)
theory Latex_Tables
  imports Frames
begin

text \<open>
  The LaTeX writers of the three export scripts: escaping of texts, formatting of cells, and the
  \<open>table\<close> environment around the rows. The scripts of phases 4 and 6 escape five characters, the one
  of phase 5 two; they print floats with four, three and four decimals, and phase 6 prints a missing
  value as two dashes. A file is its text.
\<close>

section \<open>Escaping\<close>

abbreviation BS :: char where
  "BS \<equiv> CHR 0x5C"

definition NL :: string where
  "NL = [char_of (10 :: nat)]"

definition latex_escape :: "string \<Rightarrow> string" where
  "latex_escape s =
     replace_char (CHR ''#'') (BS # ''#'') (replace_char (CHR ''&'') (BS # ''&'')
       (replace_char (CHR ''%'') (BS # ''%'') (replace_char (CHR ''_'') (BS # ''_'')
         (replace_char BS (BS # ''textbackslash{}'') s))))"

definition latex_escape_phase5 :: "string \<Rightarrow> string" where
  "latex_escape_phase5 s = replace_char (CHR ''%'') (BS # ''%'') (replace_char (CHR ''_'') (BS # ''_'') s)"

section \<open>Cells and tables\<close>

text \<open>\<open>str(item)\<close> of what is not a float.\<close>

definition item_text :: "item \<Rightarrow> string" where
  "item_text i = (case i of Text s \<Rightarrow> s | Whole n \<Rightarrow> int_str n | Float _ \<Rightarrow> [] | Absent \<Rightarrow> ''None'')"

definition cell_phase4 :: "item \<Rightarrow> string" where
  "cell_phase4 i = (case i of Float d \<Rightarrow> fmt_fixed 4 d | _ \<Rightarrow> latex_escape (item_text i))"

definition cell_phase5 :: "item \<Rightarrow> string" where
  "cell_phase5 i = (case i of Float d \<Rightarrow> fmt_fixed 3 d | _ \<Rightarrow> latex_escape_phase5 (item_text i))"

definition cell_phase6 :: "item \<Rightarrow> string" where
  "cell_phase6 i = (case i of Float d \<Rightarrow> (if d = NaN then ''--'' else fmt_fixed 4 d)
     | _ \<Rightarrow> latex_escape (item_text i))"

definition table_line :: "string list \<Rightarrow> string" where
  "table_line cells = join '' & '' cells @ '' '' @ [BS, BS] @ NL"

definition col_spec :: "string list \<Rightarrow> string" where
  "col_spec header = ''l'' @ replicate (length header - 1) (CHR ''r'')"

definition col_spec_phase6 :: "string list \<Rightarrow> string" where
  "col_spec_phase6 header = replicate (min 1 (length header)) (CHR ''l'') @ replicate (length header - 1) (CHR ''r'')"

definition command :: "string \<Rightarrow> string" where
  "command s = BS # s @ NL"

definition latex_document ::
  "string \<Rightarrow> (string \<Rightarrow> string) \<Rightarrow> (item \<Rightarrow> string) \<Rightarrow> string \<Rightarrow> string \<Rightarrow> string list \<Rightarrow> item list list \<Rightarrow> string" where
  "latex_document spec esc cell caption label header rows =
     command ''begin{table}[t]'' @ command ''centering'' @
     command (''caption{'' @ caption @ ''}'') @ command (''label{'' @ label @ ''}'') @
     command (''begin{tabular}{'' @ spec @ ''}'') @ command ''hline'' @
     table_line (map esc header) @ command ''hline'' @
     concat (map (\<lambda>row. table_line (map cell row)) rows) @
     command ''hline'' @ command ''end{tabular}'' @ command ''end{table}''"

definition latex_table_phase4 :: "string \<Rightarrow> string \<Rightarrow> string list \<Rightarrow> item list list \<Rightarrow> string" where
  "latex_table_phase4 caption label header rows =
     latex_document (col_spec header) latex_escape cell_phase4 caption label header rows"

definition latex_table_phase5 :: "string \<Rightarrow> string \<Rightarrow> string list \<Rightarrow> item list list \<Rightarrow> string" where
  "latex_table_phase5 caption label header rows =
     latex_document (col_spec header) latex_escape_phase5 cell_phase5 caption label header rows"

definition latex_table_phase6 :: "string \<Rightarrow> string \<Rightarrow> string list \<Rightarrow> item list list \<Rightarrow> string" where
  "latex_table_phase6 caption label header rows =
     latex_document (col_spec_phase6 header) latex_escape cell_phase6 caption label header rows"

text \<open>What an export writes: a copied source, a CSV table, the text of a LaTeX table.\<close>

datatype asset = Copied string | Csv_Table table | Latex_Table string

definition table_pair ::
  "(string \<Rightarrow> string \<Rightarrow> string list \<Rightarrow> item list list \<Rightarrow> string) \<Rightarrow> string \<Rightarrow> string \<Rightarrow> string \<Rightarrow> string list \<Rightarrow>
     item list list result \<Rightarrow> (string \<times> asset result) list" where
  "table_pair latex name caption label header rows =
     [(name @ ''.csv'', bind_result rows (\<lambda>rs. Inr (Csv_Table (header, rs)))),
      (name @ ''.tex'', bind_result rows (\<lambda>rs. Inr (Latex_Table (latex caption label header rs))))]"

section \<open>Reading the text the way LaTeX does\<close>

definition escape_char :: "char \<Rightarrow> string" where
  "escape_char c = (if c = BS then BS # ''textbackslash{}''
     else if c \<in> {CHR ''_'', CHR ''%'', CHR ''&'', CHR ''#''} then [BS, c] else [c])"

text \<open>The character a command stands for.\<close>

function latex_read :: "string \<Rightarrow> string" where
  "latex_read [] = []"
| "latex_read (c # cs) =
     (if c \<noteq> BS then c # latex_read cs
      else if take 15 cs = ''textbackslash{}'' then BS # latex_read (drop 15 cs)
      else case cs of [] \<Rightarrow> [BS] | d # ds \<Rightarrow> d # latex_read ds)"
  by pat_completeness auto
termination
  by (relation "measure length") auto

text \<open>The alignment characters \<open>&\<close> that no backslash stands before.\<close>

fun breaks :: "bool \<Rightarrow> string \<Rightarrow> nat" where
  "breaks escaped [] = 0"
| "breaks True (c # cs) = breaks False cs"
| "breaks False (c # cs) = (if c = BS then breaks True cs else (if c = CHR ''&'' then 1 else 0) + breaks False cs)"

section \<open>Lemmas\<close>

lemma latex_escape_single_pass: "latex_escape s = concat (map escape_char s)"
  by (induction s) (simp_all add: latex_escape_def escape_char_def)

lemma latex_read_escape_char: "latex_read (escape_char c @ s) = c # latex_read s"
  by (simp add: escape_char_def)

lemma breaks_escape_char: "breaks False (escape_char c @ s) = breaks False s"
  by (simp add: escape_char_def)

lemma breaks_escape: "breaks False (latex_escape x @ s) = breaks False s"
  by (induction x) (simp_all add: latex_escape_single_pass breaks_escape_char)

text \<open>Characters LaTeX takes as they are.\<close>

definition plain :: "string \<Rightarrow> bool" where
  "plain s \<longleftrightarrow> BS \<notin> set s \<and> CHR ''&'' \<notin> set s"

lemma breaks_plain: "plain x \<Longrightarrow> breaks False (x @ s) = breaks False s"
  by (induction x) (auto simp: plain_def)

lemma digit_plain: "is_digit c \<Longrightarrow> c \<noteq> BS \<and> c \<noteq> CHR ''&''"
proof -
  have "\<not> is_digit BS" "\<not> is_digit (CHR ''&'')" by code_simp+
  then show "is_digit c \<Longrightarrow> c \<noteq> BS \<and> c \<noteq> CHR ''&''" by auto
qed

lemma plain_dec_str: "0 \<le> n \<Longrightarrow> plain (dec_str n)"
  using dec_str_is_digit digit_plain by (fastforce simp: plain_def)

lemma round_half_even_nonneg: "0 \<le> q \<Longrightarrow> 0 \<le> round_half_even q"
  using round_half_even_ge [of 0 q] by simp

lemma plain_fmt: "plain (fmt_fixed n d)"
proof -
  have "plain (fixed_digits n m)" if "0 \<le> m" for m
    using plain_dec_str [of "m div 10 ^ n"] plain_dec_str [of "m mod 10 ^ n"] that
      pos_imp_zdiv_nonneg_iff [of "10 ^ n" m]
    by (auto simp: fixed_digits_def pad_zeros_def plain_def)
  from this [OF round_half_even_nonneg [of "\<bar>dval d\<bar> * 10 ^ n"]]
  have "plain (fixed_digits n (round_half_even (\<bar>dval d\<bar> * 10 ^ n)))" by simp
  then show ?thesis by (cases d) (auto simp: fmt_fixed_def plain_def)
qed

text \<open>A cell that LaTeX does not break.\<close>

definition unbroken :: "string \<Rightarrow> bool" where
  "unbroken x \<longleftrightarrow> (\<forall>s. breaks False (x @ s) = breaks False s)"

lemma unbroken_cells: "unbroken (latex_escape x)" "unbroken (cell_phase4 i)" "unbroken (cell_phase6 i)"
  using breaks_escape breaks_plain [OF plain_fmt] breaks_plain [of "''--''"]
  by (auto simp: unbroken_def cell_phase4_def cell_phase6_def plain_def split: item.splits)

lemma breaks_escape_phase5: "plain x \<Longrightarrow> breaks False (latex_escape_phase5 x @ s) = breaks False s"
  by (induction x) (auto simp: latex_escape_phase5_def plain_def)

lemma unbroken_phase5:
  "plain x \<Longrightarrow> unbroken (latex_escape_phase5 x)"
  "(\<And>t. i = Text t \<Longrightarrow> plain t) \<Longrightarrow> unbroken (cell_phase5 i)"
proof -
  show "plain x \<Longrightarrow> unbroken (latex_escape_phase5 x)" for x by (simp add: unbroken_def breaks_escape_phase5)
  moreover have "plain (int_str n)" for n
  proof -
    have "plain (dec_str \<bar>n\<bar>)" by (rule plain_dec_str) simp
    then show ?thesis by (auto simp: int_str_def plain_def)
  qed
  moreover have "plain ''None''" by (simp add: plain_def)
  ultimately show "(\<And>t. i = Text t \<Longrightarrow> plain t) \<Longrightarrow> unbroken (cell_phase5 i)"
    using breaks_plain [OF plain_fmt] by (cases i) (auto simp: cell_phase5_def item_text_def unbroken_def)
qed

lemma breaks_join:
  "\<forall>x \<in> set cells. unbroken x \<Longrightarrow> breaks False (join '' & '' cells @ s) = length cells - 1 + breaks False s"
proof (induction "'' & ''" cells rule: join.induct)
  case (2 x)
  then show ?case by (simp add: unbroken_def)
next
  case (3 x y xs)
  have "breaks False (x @ '' & '' @ join '' & '' (y # xs) @ s) = 1 + breaks False (join '' & '' (y # xs) @ s)"
    using 3(2) by (simp add: unbroken_def)
  then show ?case using 3 by simp
qed simp

lemma breaks_table_line:
  "\<forall>x \<in> set cells. unbroken x \<Longrightarrow> breaks False (table_line cells) = length cells - 1"
proof -
  assume "\<forall>x \<in> set cells. unbroken x"
  moreover have "breaks False ('' '' @ [BS, BS] @ NL) = 0" by code_simp
  ultimately show ?thesis using breaks_join [of cells "'' '' @ [BS, BS] @ NL"] by (simp add: table_line_def)
qed

section \<open>Properties\<close>

text \<open>Escaping loses nothing. Read the way LaTeX reads commands, an escaped text is the text it
was written from, whatever backslashes, underscores, percent signs, ampersands and hashes it has.\<close>

theorem latex_escape_roundtrip: "latex_read (latex_escape s) = s"
  by (induction s) (simp_all add: latex_escape_single_pass latex_read_escape_char del: latex_read.simps,
      simp add: latex_escape_single_pass)

text \<open>C40: the rows fit the columns. Whenever the rows of a table are as long as its header, the text that
each of the three writers makes of it has this shape: the opening with caption and label, a column
specification of letters \<open>l\<close> and \<open>r\<close>, one per column, a header line, a line per row, and the closing; and
the header line and every row line end the row and have one alignment character less than there are
columns, so LaTeX sees as many cells as the specification has columns. In phases 4 and 6 this holds whatever
texts and numbers the cells hold; the phase 5 script escapes neither \<open>&\<close> nor backslashes, and there it holds
when no text of the table has one of them.\<close>

theorem latex_rows_fit_columns:
  assumes "header \<noteq> []" and "\<forall>row \<in> set rows. length row = length header"
    and "latex = latex_table_phase4 \<or> latex = latex_table_phase6 \<or>
      latex = latex_table_phase5 \<and> (\<forall>t \<in> set header \<union> {t. \<exists>row \<in> set rows. Text t \<in> set row}. BS \<notin> set t \<and> CHR ''&'' \<notin> set t)"
  shows "\<exists>spec head_line row_lines. latex caption label header rows =
      command ''begin{table}[t]'' @ command ''centering'' @
      command (''caption{'' @ caption @ ''}'') @ command (''label{'' @ label @ ''}'') @
      command (''begin{tabular}{'' @ spec @ ''}'') @ command ''hline'' @
      head_line @ command ''hline'' @ concat row_lines @
      command ''hline'' @ command ''end{tabular}'' @ command ''end{table}'' \<and>
    length spec = length header \<and> set spec \<subseteq> {CHR ''l'', CHR ''r''} \<and> length row_lines = length rows \<and>
    (\<forall>line \<in> set (head_line # row_lines). breaks False line = length spec - 1 \<and>
       (\<exists>cells. line = cells @ '' '' @ [BS, BS] @ NL))"
proof -
  have fits: ?thesis
    if w: "latex caption label header rows = latex_document spec esc cell caption label header rows"
      and spec: "length spec = length header" "set spec \<subseteq> {CHR ''l'', CHR ''r''}"
      and ok: "\<forall>h \<in> set header. unbroken (esc h)" "\<forall>row \<in> set rows. \<forall>i \<in> set row. unbroken (cell i)"
    for spec esc cell
  proof -
    let ?head = "table_line (map esc header)" and ?lines = "map (\<lambda>row. table_line (map cell row)) rows"
    have "breaks False line = length spec - 1 \<and> (\<exists>cells. line = cells @ '' '' @ [BS, BS] @ NL)"
      if line: "line \<in> set (?head # ?lines)" for line
    proof -
      obtain cells where "line = table_line cells" "length cells = length header" "\<forall>x \<in> set cells. unbroken x"
        using line ok assms(2) by auto
      then show ?thesis using breaks_table_line [of cells] spec(1) by (auto simp: table_line_def)
    qed
    then show ?thesis
      using w spec by (intro exI [of _ spec] exI [of _ ?head] exI [of _ ?lines]) (simp add: latex_document_def)
  qed
  have r: "set (replicate k (CHR ''r'')) \<subseteq> {CHR ''l'', CHR ''r''}" for k by (simp add: set_replicate_conv_if)
  have specs: "length (col_spec header) = length header" "set (col_spec header) \<subseteq> {CHR ''l'', CHR ''r''}"
    "col_spec_phase6 header = col_spec header"
    using assms(1) r by (cases header; simp add: col_spec_def col_spec_phase6_def)+
  from assms(3) show ?thesis
  proof (elim disjE conjE)
    assume "latex = latex_table_phase4"
    then show ?thesis using specs unbroken_cells by (intro fits [of "col_spec header" latex_escape cell_phase4]) (simp_all add: latex_table_phase4_def)
  next
    assume "latex = latex_table_phase6"
    then show ?thesis using specs unbroken_cells by (intro fits [of "col_spec header" latex_escape cell_phase6]) (simp_all add: latex_table_phase6_def)
  next
    assume l: "latex = latex_table_phase5" and
      clean: "\<forall>t \<in> set header \<union> {t. \<exists>row \<in> set rows. Text t \<in> set row}. BS \<notin> set t \<and> CHR ''&'' \<notin> set t"
    have "\<forall>h \<in> set header. unbroken (latex_escape_phase5 h)" using clean unbroken_phase5(1) by (auto simp: plain_def)
    moreover have "\<forall>row \<in> set rows. \<forall>i \<in> set row. unbroken (cell_phase5 i)"
      using clean by (intro ballI unbroken_phase5(2)) (auto simp: plain_def)
    ultimately show ?thesis
      using l specs by (intro fits [of "col_spec header" latex_escape_phase5 cell_phase5]) (simp_all add: latex_table_phase5_def)
  qed
qed

subsection \<open>Witnesses\<close>

lemma latex_rows_fit_columns_witness:
  "\<exists>spec head_line row_line. latex_table_phase4 ''c'' ''t'' [''x_y'', ''z''] [[Text ''a&b_c'', Float NaN]] =
      command ''begin{table}[t]'' @ command ''centering'' @
      command (''caption{'' @ ''c'' @ ''}'') @ command (''label{'' @ ''t'' @ ''}'') @
      command (''begin{tabular}{'' @ spec @ ''}'') @ command ''hline'' @
      head_line @ command ''hline'' @ row_line @
      command ''hline'' @ command ''end{tabular}'' @ command ''end{table}'' \<and>
    length spec = 2 \<and> breaks False head_line = 1 \<and> breaks False row_line = 1"
proof -
  have h: "[''x_y'', ''z''] \<noteq> []" "\<forall>row \<in> set [[Text ''a&b_c'', Float NaN]]. length row = length [''x_y'', ''z'']"
    by simp_all
  have two: "length [''x_y'', ''z''] = 2" by simp
  obtain spec head_line row_lines where t: "latex_table_phase4 ''c'' ''t'' [''x_y'', ''z''] [[Text ''a&b_c'', Float NaN]] =
      command ''begin{table}[t]'' @ command ''centering'' @
      command (''caption{'' @ ''c'' @ ''}'') @ command (''label{'' @ ''t'' @ ''}'') @
      command (''begin{tabular}{'' @ spec @ ''}'') @ command ''hline'' @
      head_line @ command ''hline'' @ concat row_lines @
      command ''hline'' @ command ''end{tabular}'' @ command ''end{table}''"
    "length spec = 2" "length row_lines = 1" "\<forall>line \<in> set (head_line # row_lines). breaks False line = 1"
    using latex_rows_fit_columns [OF h disjI1 [OF refl], of "''c''" "''t''"] unfolding two by (elim exE conjE) auto
  obtain row_line where "row_lines = [row_line]" using t(3) by (auto simp: length_Suc_conv)
  with t show ?thesis by (intro exI [of _ spec] exI [of _ head_line] exI [of _ row_line]) simp
qed

end
