(* ===== verification/Float_Repr.thy ===== *)
theory Float_Repr
  imports Py_Float
begin

text \<open>
  \<open>repr\<close> of a float, which is what the \<open>json\<close> and \<open>csv\<close> modules write: the shortest decimal that
  reads back as the same double, the nearest of them if there are several. Seventeen digits always
  suffice (\<open>shortest_reads_back\<close>), so reading the text gives the value that was written.
\<close>

section \<open>The interface of a text format\<close>

locale text_format =
  fixes enc :: "'a \<Rightarrow> string" and dec :: "string \<Rightarrow> 'b option" and ok :: "'a \<Rightarrow> bool" and view :: "'a \<Rightarrow> 'b"
  assumes reads_back: "ok x \<Longrightarrow> dec (enc x) = Some (view x)"
begin

text \<open>Values with the same text are the same to a reader.\<close>

lemma same_text: "ok x \<Longrightarrow> ok y \<Longrightarrow> enc x = enc y \<Longrightarrow> view x = view y"
  using reads_back [of x] reads_back [of y] by simp

lemma read_all: "list_all ok xs \<Longrightarrow> map (dec \<circ> enc) xs = map (Some \<circ> view) xs"
  by (induction xs) (simp_all add: reads_back)

end

interpretation int_text: text_format int_str py_int "\<lambda>_. True" "\<lambda>i. i"
  by unfold_locales simp

section \<open>Doubles\<close>

definition is_double :: "dbl \<Rightarrow> bool" where
  "is_double x \<longleftrightarrow> (case x of Fin q \<Rightarrow> fl q = q \<and> \<bar>q\<bar> < 2 ^ 1024 | _ \<Rightarrow> True)"

lemma is_double_simps [simp]: "is_double NaN" "is_double PInf" "is_double MInf" "is_double NegZero" "is_double (Fin 0)"
  by (simp_all add: is_double_def)

lemma round_half_even_near: "\<bar>y - of_int m\<bar> < 1 / 2 \<Longrightarrow> round_half_even y = m"
  using round_half_even_bounds [of y] by linarith

lemma fl_same_ulp:
  assumes "0 < x" and "q = of_int n * 2 powi ulp_exp x" and "\<bar>x - q\<bar> < 2 powi ulp_exp x / 2"
  shows "fl x = q"
proof -
  let ?u = "2 powi ulp_exp x :: rat"
  have u: "0 < ?u" by simp
  have "x / ?u - of_int n = (x - q) / ?u" using assms(2) by (simp add: field_simps)
  then have "\<bar>x / ?u - of_int n\<bar> = \<bar>x - q\<bar> / ?u" by simp
  also have "\<dots> < 1 / 2" using assms(3) u by (simp add: field_simps)
  finally have "round_half_even (x / ?u) = n" by (rule round_half_even_near)
  then show ?thesis using assms(1,2) by (simp add: fl_def round_pos_def)
qed

lemma powi_multiple: "k \<le> e \<Longrightarrow> (2 :: rat) powi e = of_int (2 ^ nat (e - k)) * 2 powi k"
  by (simp add: power_int_def [of _ "e - k", symmetric] power_int_diff flip: power_int_of_nat)

text \<open>A number that differs from a double by as little as its 17-digit decimal does rounds to it.\<close>

lemma fl_nearby:
  assumes q: "0 < q" "fl q = q" and near: "\<bar>x - q\<bar> \<le> q / (2 * 10 ^ 16)"
  shows "fl x = q"
proof -
  define k e where "k = ulp_exp q" and "e = binexp q"
  define m where "m = round_half_even (q / 2 powi k)"
  have qm: "q = of_int m * 2 powi k" using q by (simp add: fl_def round_pos_def k_def m_def)
  have b: "2 powi e \<le> q" "q < 2 powi (e + 1)" using binexp_bounds [OF q(1)] by (simp_all add: e_def)
  have "q / (2 * 10 ^ 16) < q" using q(1) by (simp add: field_simps)
  then have x0: "0 < x" using near by linarith
  have k: "k = max (- 1074) (e - 52)" by (simp add: k_def e_def ulp_exp_def)
  have m0: "0 < m"
  proof (rule ccontr)
    assume "\<not> 0 < m"
    then have "q \<le> 0" unfolding qm by (intro mult_nonpos_nonneg) simp_all
    then show False using q(1) by simp
  qed
  then have "1 * 2 powi k \<le> q" unfolding qm by (intro mult_right_mono) simp_all
  then have "2 powi k < (2 :: rat) powi (e + 1)" using b(2) by simp
  then have ke: "k \<le> e" using powi_less_iff by simp
  have upk: "(0 :: rat) < 2 powi k" by simp
  have "(2 :: rat) powi (e - 52) \<le> 2 powi k" by (rule power_int_increasing) (simp_all add: k)
  then have u: "2 powi e \<le> 2 ^ 52 * (2 :: rat) powi k" by (simp add: power_int_diff field_simps)
  have "q / (2 * 10 ^ 16) < 2 powi e / 10 ^ 16" using b(2) by (simp add: power_int_add field_simps)
  also have "\<dots> < 2 powi k / 2"
  proof -
    have "a / 10 ^ 16 < b / 2" if "a \<le> 2 ^ 52 * b" "0 < b" for a b :: rat using that by simp
    then show ?thesis using u upk .
  qed
  finally have err: "\<bar>x - q\<bar> < 2 powi k / 2" using near by linarith
  have grid: "of_int a * 2 powi k + 2 powi k \<le> of_int b * (2 :: rat) powi k" if "a < b" for a b :: int
  proof -
    have "of_int (a + 1) * 2 powi k \<le> of_int b * (2 :: rat) powi k"
      using that by (intro mult_right_mono) (simp_all only: of_int_le_iff, simp_all)
    then show ?thesis by (simp add: algebra_simps)
  qed
  have top: "x < 2 powi (e + 1)"
  proof -
    have p: "2 powi (e + 1) = of_int (2 ^ nat (e + 1 - k)) * (2 :: rat) powi k"
      using ke by (intro powi_multiple) simp
    then have "m < 2 ^ nat (e + 1 - k)" using b(2) upk unfolding qm p by (simp only: mult_less_cancel_right_pos of_int_less_iff)
    then have "q + 2 powi k \<le> 2 powi (e + 1)" using grid unfolding qm p by blast
    then show ?thesis using err upk by linarith
  qed
  show ?thesis
  proof (cases "2 powi e \<le> x")
    case True
    then have "binexp x = e" using binexp_ge [OF x0 True] binexp_less [OF x0 top] by simp
    then have "ulp_exp x = k" by (simp add: ulp_exp_def k)
    then show ?thesis using x0 qm err by (intro fl_same_ulp) simp_all
  next
    case False
    have p: "2 powi e = of_int (2 ^ nat (e - k)) * (2 :: rat) powi k" using ke by (rule powi_multiple)
    have "\<not> 2 ^ nat (e - k) < m"
    proof
      assume "2 ^ nat (e - k) < m"
      from grid [OF this] have "2 powi e + 2 powi k \<le> q" unfolding qm p by simp
      then show False using False err upk by linarith
    qed
    then have "q \<le> 2 powi e" unfolding qm p by (intro mult_right_mono) (simp_all only: of_int_le_iff, simp_all)
    then have qe: "q = 2 powi e" using b(1) by simp
    have err2: "\<bar>x - q\<bar> < 2 powi e / 2 ^ 54"
    proof -
      have "q / (2 * 10 ^ 16) < 2 powi e / 2 ^ 54" unfolding qe by (simp add: field_simps)
      then show ?thesis using near by linarith
    qed
    have half: "b / 2 \<le> a" if "\<bar>a - b\<bar> < b / 2 ^ 54" "0 < b" for a b :: rat
    proof -
      have "b / 2 ^ 54 \<le> b / 2" using that(2) by simp
      then show ?thesis using that(1) by linarith
    qed
    have "2 powi (e - 1) \<le> x" using half [OF err2 [unfolded qe]] by (simp add: power_int_diff)
    then have "binexp x = e - 1" using binexp_ge [OF x0, of "e - 1"] binexp_less [OF x0, of e] False by simp
    then have ux: "ulp_exp x = max (- 1074) (e - 53)" by (simp add: ulp_exp_def)
    then have le: "ulp_exp x \<le> k" by (simp add: k)
    have "(2 :: rat) powi (e - 53) \<le> 2 powi ulp_exp x" by (rule power_int_increasing) (simp_all add: ux)
    then have "2 powi e / 2 ^ 54 \<le> (2 :: rat) powi ulp_exp x / 2" by (simp add: power_int_diff field_simps)
    then have err3: "\<bar>x - q\<bar> < 2 powi ulp_exp x / 2" using err2 by linarith
    have "q = of_int (m * 2 ^ nat (k - ulp_exp x)) * 2 powi ulp_exp x"
      unfolding qm using powi_multiple [OF le] by simp
    then show ?thesis using err3 by (rule fl_same_ulp [OF x0])
  qed
qed

section \<open>The shortest digits\<close>

text \<open>The exponent of the first decimal digit of a positive number.\<close>

definition dec_exp :: "rat \<Rightarrow> int" where
  "dec_exp q = (if 1 \<le> q then int (length (dec_str \<lfloor>q\<rfloor>)) - 1 else - int (length (dec_str (\<lceil>1 / q\<rceil> - 1))))"

text \<open>The decimals of \<open>n\<close> digits on both sides of a number, the nearer one first.\<close>

definition candidates :: "nat \<Rightarrow> rat \<Rightarrow> (int \<times> int) list" where
  "candidates n q =
     (let e = dec_exp q - int n + 1; s = q / 10 powi e; m = round_half_even s
      in [(m, e), (if of_int m \<le> s then m + 1 else m - 1, e)])"

definition digit_counts :: "nat list" where
  "digit_counts = [1..<18]"

definition shortest :: "rat \<Rightarrow> int \<times> int" where
  "shortest q = (case find (\<lambda>(m, e). fl (of_int m * 10 powi e) = q) (concat (map (\<lambda>n. candidates n q) digit_counts)) of
      Some me \<Rightarrow> me | None \<Rightarrow> (0, 0))"

lemma dec_str_lower: "0 < n \<Longrightarrow> 10 ^ (length (dec_str n) - 1) \<le> n"
proof (induction n rule: dec_str.induct)
  case (1 n)
  show ?case
  proof (cases "n < 10")
    case True
    then show ?thesis using 1 by (simp add: dec_str.simps)
  next
    case False
    then have "10 ^ (length (dec_str (n div 10)) - 1) \<le> n div 10" using 1 by simp
    moreover have "10 * a \<le> n" if "a \<le> n div 10" for a using that by presburger
    ultimately have "10 ^ Suc (length (dec_str (n div 10)) - 1) \<le> n" by (simp only: power_Suc)
    moreover have "length (dec_str n) - 1 = length (dec_str (n div 10))"
      using False by (subst dec_str.simps) simp
    moreover have "Suc (length (dec_str (n div 10)) - 1) = length (dec_str (n div 10))" by (rule Suc_diff_1) simp
    ultimately show ?thesis by (simp only:)
  qed
qed

lemma dec_str_upper: "0 \<le> n \<Longrightarrow> n < 10 ^ length (dec_str n)"
proof (induction n rule: dec_str.induct)
  case (1 n)
  show ?case
  proof (cases "n < 10")
    case True
    then show ?thesis by (simp add: dec_str.simps)
  next
    case False
    then have "n div 10 < 10 ^ length (dec_str (n div 10))" using 1 by simp
    moreover have "length (dec_str n) = Suc (length (dec_str (n div 10)))"
      using False by (subst dec_str.simps) simp
    ultimately show ?thesis by simp
  qed
qed

lemma dec_str_powi:
  assumes "0 < n"
  shows "10 powi (int (length (dec_str n)) - 1) \<le> (of_int n :: rat)" and "(of_int n :: rat) + 1 \<le> 10 powi int (length (dec_str n))"
proof -
  have l: "0 < length (dec_str n)" by simp
  have "(10 :: int) ^ (length (dec_str n) - 1) \<le> n" "n + 1 \<le> 10 ^ length (dec_str n)"
    using dec_str_lower [OF assms] dec_str_upper [of n] assms by simp_all
  then have "(of_int (10 ^ (length (dec_str n) - 1)) :: rat) \<le> of_int n" "of_int (n + 1) \<le> (of_int (10 ^ length (dec_str n)) :: rat)"
    by (simp_all only: of_int_le_iff)
  moreover have "int (length (dec_str n)) - 1 = int (length (dec_str n) - 1)" using l by linarith
  ultimately show "10 powi (int (length (dec_str n)) - 1) \<le> (of_int n :: rat)"
    and "(of_int n :: rat) + 1 \<le> 10 powi int (length (dec_str n))"
    by (simp_all only: power_int_of_nat) simp_all
qed

lemma dec_exp_bounds:
  assumes "0 < q"
  shows "10 powi dec_exp q \<le> q" and "q < 10 powi (dec_exp q + 1)"
proof -
  have "10 powi dec_exp q \<le> q \<and> q < 10 powi (dec_exp q + 1)"
  proof (cases "1 \<le> q")
    case True
    then have "0 < \<lfloor>q\<rfloor>" by simp
    from dec_str_powi [OF this] of_int_floor_le [of q] floor_correct [of q]
    have "10 powi (int (length (dec_str \<lfloor>q\<rfloor>)) - 1) \<le> q" "q < 10 powi int (length (dec_str \<lfloor>q\<rfloor>))" by linarith+
    then show ?thesis using True by (simp add: dec_exp_def)
  next
    case False
    let ?m = "\<lceil>1 / q\<rceil> - 1" and ?L = "int (length (dec_str (\<lceil>1 / q\<rceil> - 1)))"
    have inv: "1 < 1 / q" using False assms by simp
    then have "1 < \<lceil>1 / q\<rceil>" by (simp only: less_ceiling_iff of_int_1)
    then have m0: "0 < ?m" by simp
    have "of_int ?m < 1 / q" "1 / q \<le> of_int ?m + 1" using ceiling_correct [of "1 / q"] by simp_all
    with dec_str_powi [OF m0] have "1 / q \<le> 10 powi ?L" and lo: "10 powi (?L - 1) < 1 / q" by linarith+
    then have a: "10 powi - ?L \<le> q"
      using assms by (simp add: power_int_minus field_simps)
    have "q < 1 / 10 powi (?L - 1)" using lo assms by (simp add: field_simps)
    then have "q < 10 powi - (?L - 1)" by (simp only: power_int_minus inverse_eq_divide)
    then have b: "q < 10 powi (- ?L + 1)" by (simp add: algebra_simps)
    show ?thesis using False a b by (simp add: dec_exp_def)
  qed
  then show "10 powi dec_exp q \<le> q" and "q < 10 powi (dec_exp q + 1)" by simp_all
qed

lemma dec_str_hd: "0 < n \<Longrightarrow> hd (dec_str n) \<noteq> CHR ''0''"
proof (induction n rule: dec_str.induct)
  case (1 n)
  show ?case
  proof (cases "n < 10")
    case True
    then have "digit_char n \<noteq> digit_char 0"
      using digit_val_digit [of n] digit_val_digit [of 0] 1 by (metis not_less option.inject order_less_imp_le rel_simps(75) zero_less_numeral)
    then show ?thesis using True by (simp add: dec_str.simps digit_chars)
  next
    case False
    then show ?thesis using 1 by (subst dec_str.simps) simp
  qed
qed

lemma seventeen_digits:
  assumes "0 < q" and "fl q = q"
  shows "fl (of_int (fst (hd (candidates 17 q))) * 10 powi snd (hd (candidates 17 q))) = q"
proof -
  define s where "s = (10 :: rat) powi (dec_exp q - 16)"
  have s0: "0 < s" by (simp add: s_def)
  have "\<bar>of_int (round_half_even (q / s)) - q / s\<bar> \<le> 1 / 2"
    using round_half_even_bounds [of "q / s"] by linarith
  then have "\<bar>of_int (round_half_even (q / s)) - q / s\<bar> * s \<le> 1 / 2 * s" using s0 by (intro mult_right_mono) simp_all
  moreover have "of_int (round_half_even (q / s)) * s - q = (of_int (round_half_even (q / s)) - q / s) * s"
    using s0 by (simp add: field_simps)
  then have "\<bar>of_int (round_half_even (q / s)) * s - q\<bar> = \<bar>of_int (round_half_even (q / s)) - q / s\<bar> * s"
    using s0 by (simp only: abs_mult abs_of_pos)
  moreover have "s \<le> q / 10 ^ 16"
    using dec_exp_bounds(1) [OF assms(1)] by (simp add: s_def power_int_diff divide_right_mono)
  ultimately have "\<bar>of_int (round_half_even (q / s)) * s - q\<bar> \<le> q / (2 * 10 ^ 16)" by simp
  from fl_nearby [OF assms this] show ?thesis by (simp add: candidates_def Let_def s_def)
qed

lemma find_hit: "x \<in> set xs \<Longrightarrow> P x \<Longrightarrow> \<exists>y. find P xs = Some y \<and> P y"
  by (induction xs) auto

lemma shortest_reads_back:
  assumes "0 < q" and "fl q = q" and "shortest q = (m, e)"
  shows "fl (of_int m * 10 powi e) = q" and "0 < m"
proof -
  let ?P = "\<lambda>(m, e). fl (of_int m * 10 powi e) = q" and ?xs = "concat (map (\<lambda>n. candidates n q) digit_counts)"
  have "hd (candidates 17 q) \<in> set (candidates 17 q)" by (simp add: candidates_def Let_def)
  moreover have "17 \<in> set digit_counts" by (simp add: digit_counts_def)
  ultimately have "hd (candidates 17 q) \<in> set ?xs" by auto
  moreover have "?P (hd (candidates 17 q))"
    using seventeen_digits [OF assms(1,2)] by (simp add: case_prod_beta)
  ultimately have "\<exists>me. find ?P ?xs = Some me \<and> ?P me" by (rule find_hit)
  then obtain me where me: "find ?P ?xs = Some me" "?P me" by (elim exE conjE)
  note me(2)
  moreover have "me = (m, e)" using assms(3) unfolding shortest_def me(1) by (simp only: option.case)
  ultimately show r: "fl (of_int m * 10 powi e) = q" by (simp only: case_prod_conv)
  show "0 < m"
  proof (rule ccontr)
    assume "\<not> 0 < m"
    then have "(of_int m * 10 powi e :: rat) \<le> 0" by (simp add: mult_le_0_iff)
    from fl_mono [OF this] r assms(1) show False by simp
  qed
qed

section \<open>The text\<close>

text \<open>A nonempty digit sequence \<open>ds\<close> and a position \<open>p\<close> of the point stand for \<open>0.ds * 10 ^ p\<close>.\<close>

definition trim_zeros :: "string \<Rightarrow> string" where
  "trim_zeros ds = rev (dropWhile (\<lambda>c. c = CHR ''0'') (rev ds))"

definition digits_value :: "string \<Rightarrow> int \<Rightarrow> rat" where
  "digits_value ds p = of_int (digits_int ds) * 10 powi (p - int (length ds))"

definition zeros :: "int \<Rightarrow> string" where
  "zeros n = replicate (nat n) (CHR ''0'')"

definition exponent_text :: "int \<Rightarrow> string" where
  "exponent_text x = ''e'' @ (if x < 0 then ''-'' else ''+'') @ pad_zeros 2 (dec_str \<bar>x\<bar>)"

definition place_point :: "string \<Rightarrow> int \<Rightarrow> string" where
  "place_point ds p =
     (if - 4 < p \<and> p \<le> 16 then
        (if p \<le> 0 then ''0.'' @ zeros (- p) @ ds
         else if int (length ds) \<le> p then ds @ zeros (p - int (length ds)) @ ''.0''
         else take (nat p) ds @ ''.'' @ drop (nat p) ds)
      else take 1 ds @ (if tl ds = [] then [] else ''.'' @ tl ds) @ exponent_text (p - 1))"

definition repr_pos :: "rat \<Rightarrow> string" where
  "repr_pos q = (let (m, e) = shortest q; ds = dec_str m in place_point (trim_zeros ds) (int (length ds) + e))"

definition float_repr :: "dbl \<Rightarrow> string" where
  "float_repr x = (case x of NaN \<Rightarrow> ''nan'' | PInf \<Rightarrow> ''inf'' | MInf \<Rightarrow> ''-inf'' | NegZero \<Rightarrow> ''-0.0''
     | Fin q \<Rightarrow> if q = 0 then ''0.0'' else (if q < 0 then ''-'' else []) @ repr_pos \<bar>q\<bar>)"

subsection \<open>The shape of the text\<close>

text \<open>Whole digits, optionally a point and digits, optionally an exponent.\<close>

definition decimal_text :: "string \<Rightarrow> string \<Rightarrow> string \<Rightarrow> string" where
  "decimal_text ws fs ex = ws @ (if fs = [] then [] else CHR ''.'' # fs) @ ex"

definition decimal_parts :: "string \<Rightarrow> string \<Rightarrow> string \<Rightarrow> int \<Rightarrow> bool" where
  "decimal_parts ws fs ex x \<longleftrightarrow> ws \<noteq> [] \<and> list_all is_digit ws \<and> list_all is_digit fs \<and>
     (ex = [] \<and> x = 0 \<and> fs \<noteq> [] \<or> ex = exponent_text x) \<and> (hd ws = CHR ''0'' \<longrightarrow> tl ws = [])"

lemma digits_int_trim: "digits_value (trim_zeros ds) p = digits_value ds p"
proof -
  let ?z = "takeWhile (\<lambda>c. c = CHR ''0'') (rev ds)"
  have z: "?z = replicate (length ?z) (CHR ''0'')" by (rule replicate_eqI) (auto dest: set_takeWhileD)
  have "rev ds = ?z @ dropWhile (\<lambda>c. c = CHR ''0'') (rev ds)" by simp
  then have "ds = trim_zeros ds @ rev ?z" unfolding trim_zeros_def by (metis rev_append rev_rev_ident)
  then have ds: "ds = trim_zeros ds @ replicate (length ?z) (CHR ''0'')" using z by (metis rev_replicate)
  have "digits_int ds = digits_int (trim_zeros ds) * 10 ^ length ?z"
    by (subst ds) (simp add: digits_int_append digits_int_zeros)
  moreover have "int (length ds) = int (length (trim_zeros ds)) + int (length ?z)" by (subst ds) simp
  ultimately show ?thesis by (simp add: digits_value_def power_int_diff power_int_add)
qed

lemma exponent_scan: "scan_exponent (exponent_text x) = Some x"
proof -
  define ds where "ds = pad_zeros 2 (dec_str \<bar>x\<bar>)"
  have d: "list_all is_digit ds" "ds \<noteq> []"
    using dec_str_is_digit [of "\<bar>x\<bar>"] is_digit_char [of 0] by (auto simp: ds_def list_all_iff pad_zeros_def digit_chars)
  have v: "digits_int ds = \<bar>x\<bar>"
    by (simp add: ds_def pad_zeros_def digits_int_append digits_int_zeros digits_int_dec_str)
  have t: "exponent_text x = CHR ''e'' # (if x < 0 then CHR ''-'' else CHR ''+'') # ds"
    by (simp add: exponent_text_def ds_def)
  have "lower (CHR ''e'') = CHR ''e''" by code_simp
  then show ?thesis unfolding t by (cases "x < 0") (simp_all add: scan_exponent_def with_sign_def d v)
qed

lemma decimal_text_scan:
  assumes "decimal_parts ws fs ex x"
  shows "scan_decimal neg (decimal_text ws fs ex) =
    (let q = of_int (digits_int (ws @ fs)) * 10 powi (x - int (length fs))
     in Some (if q = 0 then zero_of neg else rnd (if neg then - q else q)))"
proof -
  have "scan_exponent [] = Some 0" by (simp add: scan_exponent_def)
  then have sc: "scan_exponent ex = Some x" using assms exponent_scan by (auto simp: decimal_parts_def)
  have nd: "\<not> is_digit (CHR ''.'')" "\<not> is_digit (CHR ''e'')" by code_simp+
  have ex: "ex = [] \<or> \<not> is_digit (hd ex) \<and> hd ex \<noteq> CHR ''.''"
    using assms nd(2) by (auto simp: decimal_parts_def exponent_text_def)
  have stop: "takeWhile is_digit (ds @ r) = ds" "dropWhile is_digit (ds @ r) = r"
    if "list_all is_digit ds" "r = [] \<or> \<not> is_digit (hd r)" for ds r
    using that by (induction ds) (auto, (cases r; simp)+)
  have ws: "list_all is_digit ws" "ws \<noteq> []" and fs: "list_all is_digit fs" using assms by (simp_all add: decimal_parts_def)
  show ?thesis
  proof (cases "fs = []")
    case True
    have "take 1 ex \<noteq> ''.''" using ex by (cases ex) auto
    moreover have "takeWhile is_digit (ws @ ex) = ws" "dropWhile is_digit (ws @ ex) = ex"
      using stop [OF ws(1)] ex by auto
    ultimately show ?thesis using True ws(2) sc by (simp add: scan_decimal_def decimal_text_def Let_def)
  next
    case False
    have "takeWhile is_digit (ws @ CHR ''.'' # fs @ ex) = ws" "dropWhile is_digit (ws @ CHR ''.'' # fs @ ex) = CHR ''.'' # fs @ ex"
      using stop [OF ws(1)] nd(1) by simp_all
    moreover have "takeWhile is_digit (fs @ ex) = fs" "dropWhile is_digit (fs @ ex) = ex"
      using stop [OF fs] ex by auto
    ultimately show ?thesis using False ws(2) sc by (simp add: scan_decimal_def decimal_text_def Let_def)
  qed
qed

lemma zeros_digits: "list_all is_digit (zeros n)" "digits_int (zeros n) = 0" "length (zeros n) = nat n"
  using is_digit_char [of 0] by (auto simp: zeros_def list_all_iff digits_int_zeros digit_chars)

lemma digits_int_cons_zero: "digits_int (CHR ''0'' # ds) = digits_int ds"
  using digits_int_append [of "''0''" ds] digits_int_zeros [of 1] by simp

text \<open>Every placed text has this shape and the value it stands for.\<close>

lemma place_point_shape:
  assumes ds: "list_all is_digit ds" "ds \<noteq> []" "hd ds \<noteq> CHR ''0''"
  shows "\<exists>ws fs ex x. place_point ds p = decimal_text ws fs ex \<and> decimal_parts ws fs ex x \<and>
    of_int (digits_int (ws @ fs)) * 10 powi (x - int (length fs)) = digits_value ds p"
proof -
  have one: "list_all is_digit [CHR ''0'']" by code_simp
  consider "- 4 < p" "p \<le> 0" | "0 < p" "p \<le> 16" "int (length ds) \<le> p" | "0 < p" "p \<le> 16" "p < int (length ds)"
    | "\<not> (- 4 < p \<and> p \<le> 16)" by linarith
  then show ?thesis
  proof cases
    case 1
    let ?fs = "zeros (- p) @ ds"
    have "digits_int (''0'' @ ?fs) = digits_int ds" by (simp add: digits_int_cons_zero digits_int_append zeros_digits)
    then show ?thesis using 1 ds one
      by (intro exI [of _ "''0''"] exI [of _ ?fs] exI [of _ "[]"] exI [of _ 0])
        (simp add: place_point_def decimal_text_def decimal_parts_def zeros_digits digits_value_def)
  next
    case 2
    let ?ws = "ds @ zeros (p - int (length ds))"
    have "digits_int (?ws @ ''0'') = digits_int ds * 10 ^ Suc (nat (p - int (length ds)))"
      using digits_int_zeros [of 1] by (simp add: digits_int_append zeros_digits)
    then have "of_int (digits_int (?ws @ ''0'')) * 10 powi (0 - int (length ''0'')) = digits_value ds p"
      using 2 by (simp add: digits_value_def power_int_def [of _ "p - int (length ds)"] power_int_minus)
    then show ?thesis using 2 ds one
      by (intro exI [of _ ?ws] exI [of _ "''0''"] exI [of _ "[]"] exI [of _ 0])
        (simp add: place_point_def decimal_text_def decimal_parts_def zeros_digits)
  next
    case 3
    let ?ws = "take (nat p) ds" and ?fs = "drop (nat p) ds"
    have "list_all is_digit ?ws" "list_all is_digit ?fs"
      using ds(1) by (auto simp: list_all_iff dest: in_set_takeD in_set_dropD)
    moreover have "?ws \<noteq> []" "?fs \<noteq> []" "hd ?ws \<noteq> CHR ''0''" using 3 ds by auto
    ultimately show ?thesis using 3 ds
      by (intro exI [of _ ?ws] exI [of _ ?fs] exI [of _ "[]"] exI [of _ 0])
        (simp add: place_point_def decimal_text_def decimal_parts_def digits_value_def)
  next
    case 4
    obtain c cs where c: "ds = c # cs" using ds(2) by (cases ds) auto
    have "place_point ds p = decimal_text [c] cs (exponent_text (p - 1))"
      unfolding place_point_def if_not_P [OF 4] by (simp add: c decimal_text_def)
    moreover have "decimal_parts [c] cs (exponent_text (p - 1)) (p - 1)"
      using ds by (simp add: decimal_parts_def c)
    moreover have "of_int (digits_int ([c] @ cs)) * 10 powi (p - 1 - int (length cs)) = digits_value ds p"
      by (simp add: digits_value_def c algebra_simps)
    ultimately show ?thesis by (intro exI conjI)
  qed
qed

text \<open>The digits of a positive double.\<close>

lemma repr_pos_shape:
  assumes "0 < q" and "fl q = q"
  shows "\<exists>ws fs ex x. repr_pos q = decimal_text ws fs ex \<and> decimal_parts ws fs ex x \<and>
    0 < of_int (digits_int (ws @ fs)) * (10 :: rat) powi (x - int (length fs)) \<and>
    fl (of_int (digits_int (ws @ fs)) * 10 powi (x - int (length fs))) = q"
proof -
  obtain m e where me: "shortest q = (m, e)" by (cases "shortest q")
  note m = shortest_reads_back [OF assms me]
  let ?ds = "dec_str m" let ?t = "trim_zeros ?ds" and ?p = "int (length (dec_str m)) + e"
  have v: "digits_value ?t ?p = of_int m * 10 powi e"
    using m(2) by (simp only: digits_int_trim) (simp add: digits_value_def digits_int_dec_str)
  have sub: "set ?t \<subseteq> set ?ds" by (auto simp: trim_zeros_def dest: set_dropWhileD)
  then have d: "list_all is_digit ?t" using dec_str_is_digit [of m] m(2) by (auto simp: list_all_iff)
  have ne: "?t \<noteq> []"
  proof
    assume "?t = []"
    then have "digits_value ?t ?p = 0" by (simp add: digits_value_def digits_int_def)
    then show False using v m(2) by simp
  qed
  have "hd ?t = hd ?ds"
  proof -
    have "?ds = ?t @ rev (takeWhile (\<lambda>c. c = CHR ''0'') (rev ?ds))"
      unfolding trim_zeros_def by (metis rev_append rev_rev_ident takeWhile_dropWhile_id)
    then show ?thesis using ne by (metis hd_append2)
  qed
  then have "hd ?t \<noteq> CHR ''0''" using dec_str_hd [OF m(2)] by simp
  from place_point_shape [OF d ne this, of ?p] obtain ws fs ex x where
    s: "place_point ?t ?p = decimal_text ws fs ex" "decimal_parts ws fs ex x"
      "of_int (digits_int (ws @ fs)) * 10 powi (x - int (length fs)) = digits_value ?t ?p"
    by (elim exE conjE)
  show ?thesis
    by (intro exI [of _ ws] exI [of _ fs] exI [of _ ex] exI [of _ x] conjI s(2))
      (simp_all only: s(3) v m, simp_all add: repr_pos_def me Let_def s(1) m(2))
qed

section \<open>Reading the text\<close>

definition minus_text :: "bool \<Rightarrow> string" where
  "minus_text neg = (if neg then ''-'' else [])"

lemma decimal_chars:
  assumes "decimal_parts ws fs ex x"
  shows "decimal_text ws fs ex \<noteq> []" and "is_digit (hd (decimal_text ws fs ex))" and "is_digit (last (decimal_text ws fs ex))"
    and "c \<in> set (decimal_text ws fs ex) \<Longrightarrow> is_digit c \<or> c \<in> {CHR ''.'', CHR ''e'', CHR ''-'', CHR ''+''}"
proof -
  have ws: "ws \<noteq> []" "list_all is_digit ws" "list_all is_digit fs" using assms by (simp_all add: decimal_parts_def)
  have ex: "ex = [] \<and> fs \<noteq> [] \<or> ex = exponent_text x" using assms by (auto simp: decimal_parts_def)
  have pd: "list_all is_digit (pad_zeros 2 (dec_str \<bar>x\<bar>))" "pad_zeros 2 (dec_str \<bar>x\<bar>) \<noteq> []"
    using dec_str_is_digit [of "\<bar>x\<bar>"] is_digit_char [of 0] by (auto simp: list_all_iff pad_zeros_def digit_chars)
  show "decimal_text ws fs ex \<noteq> []" using ws(1) by (simp add: decimal_text_def)
  show "is_digit (hd (decimal_text ws fs ex))" using ws by (cases ws) (auto simp: decimal_text_def)
  have "last (exponent_text x) = last (pad_zeros 2 (dec_str \<bar>x\<bar>))" using pd(2) by (simp add: exponent_text_def)
  moreover have "exponent_text x \<noteq> []" by (simp add: exponent_text_def)
  moreover have "is_digit (last (pad_zeros 2 (dec_str \<bar>x\<bar>)))" using pd by (simp add: list_all_iff)
  ultimately show "is_digit (last (decimal_text ws fs ex))"
    using ex ws by (auto simp: decimal_text_def list_all_iff)
  show "is_digit c \<or> c \<in> {CHR ''.'', CHR ''e'', CHR ''-'', CHR ''+''}" if "c \<in> set (decimal_text ws fs ex)"
    using that ex ws pd by (auto simp: decimal_text_def exponent_text_def list_all_iff split: if_splits)
qed

lemma py_float_decimal:
  assumes "decimal_parts ws fs ex x"
  shows "py_float (minus_text neg @ decimal_text ws fs ex) = scan_decimal neg (decimal_text ws fs ex)"
proof -
  let ?t = "decimal_text ws fs ex"
  note ch = decimal_chars [OF assms]
  obtain c cs where t: "?t = c # cs" using ch(1) by (cases ?t) auto
  have c: "is_digit c" using ch(2) t by simp
  have "strip (minus_text neg @ ?t) = minus_text neg @ ?t"
  proof (rule strip_id)
    have "\<not> is_space (CHR ''-'')" by code_simp
    moreover have "\<not> is_space (hd ?t)" "\<not> is_space (last ?t)" using ch(2,3) digit_not_special by blast+
    ultimately show "minus_text neg @ ?t = [] \<or> \<not> is_space (hd (minus_text neg @ ?t)) \<and> \<not> is_space (last (minus_text neg @ ?t))"
      using ch(1) by (simp add: minus_text_def)
  qed
  moreover have "split_sign (minus_text neg @ ?t) = (neg, ?t)"
    using digit_not_special [OF c] by (simp add: minus_text_def t)
  moreover have "map lower ?t \<noteq> ''nan''" "map lower ?t \<noteq> ''inf''" "map lower ?t \<noteq> ''infinity''"
  proof -
    have "\<not> is_digit (CHR ''n'')" "\<not> is_digit (CHR ''i'')" by code_simp+
    then show "map lower ?t \<noteq> ''nan''" "map lower ?t \<noteq> ''inf''" "map lower ?t \<noteq> ''infinity''"
      using c lower_digit [OF c] t by auto
  qed
  moreover have "CHR ''_'' \<notin> set ?t" using ch(4) digit_not_special by force
  ultimately show ?thesis by (simp add: py_float_def drop_underscores_plain)
qed

lemma rnd_exact: "fl v = q \<Longrightarrow> q \<noteq> 0 \<Longrightarrow> \<bar>q\<bar> < 2 ^ 1024 \<Longrightarrow> rnd v = Fin q"
  by (simp add: rnd_def Let_def)

text \<open>The text of a double other than zero, an infinity or NaN, and what it is read as.\<close>

lemma float_repr_shape:
  assumes "is_double (Fin q)" and "q \<noteq> 0"
  shows "\<exists>ws fs ex x. float_repr (Fin q) = minus_text (q < 0) @ decimal_text ws fs ex \<and> decimal_parts ws fs ex x \<and>
    scan_decimal (q < 0) (decimal_text ws fs ex) = Some (Fin q)"
proof -
  have q: "0 < \<bar>q\<bar>" "fl \<bar>q\<bar> = \<bar>q\<bar>" "\<bar>q\<bar> < 2 ^ 1024" using assms by (auto simp: is_double_def abs_if)
  from repr_pos_shape [OF q(1,2)] obtain ws fs ex x where
    t: "repr_pos \<bar>q\<bar> = decimal_text ws fs ex" "decimal_parts ws fs ex x"
    and v: "0 < of_int (digits_int (ws @ fs)) * (10 :: rat) powi (x - int (length fs))"
      "fl (of_int (digits_int (ws @ fs)) * 10 powi (x - int (length fs))) = \<bar>q\<bar>"
    by (elim exE conjE)
  let ?v = "of_int (digits_int (ws @ fs)) * (10 :: rat) powi (x - int (length fs))"
  have "rnd (if q < 0 then - ?v else ?v) = Fin q"
    using v q assms(2) by (intro rnd_exact) (auto simp: abs_if split: if_splits)
  moreover have "?v \<noteq> 0" using v(1) by (rule less_imp_neq [symmetric])
  ultimately have "scan_decimal (q < 0) (decimal_text ws fs ex) = Some (Fin q)"
    unfolding decimal_text_scan [OF t(2)] Let_def by (simp only: if_False)
  moreover have "float_repr (Fin q) = minus_text (q < 0) @ decimal_text ws fs ex"
    using assms(2) t(1) by (simp add: float_repr_def minus_text_def)
  ultimately show ?thesis using t(2) by (intro exI conjI)
qed

text \<open>\<open>float(repr(x)) == x\<close>, for infinities and NaN as well.\<close>

theorem py_float_repr: "is_double x \<Longrightarrow> py_float (float_repr x) = Some x"
proof -
  assume d: "is_double x"
  show ?thesis
  proof (cases "x \<in> {NaN, PInf, MInf, NegZero, Fin 0}")
    case True
    have "py_float ''nan'' = Some NaN" "py_float ''inf'' = Some PInf" "py_float ''-inf'' = Some MInf"
      "py_float ''-0.0'' = Some NegZero" "py_float ''0.0'' = Some (Fin 0)"
      by code_simp+
    then show ?thesis using True by (auto simp: float_repr_def)
  next
    case False
    then obtain q where q: "x = Fin q" "q \<noteq> 0" by (cases x) auto
    from float_repr_shape [of q] d q obtain ws fs ex e where
      "float_repr x = minus_text (q < 0) @ decimal_text ws fs ex" "decimal_parts ws fs ex e"
      "scan_decimal (q < 0) (decimal_text ws fs ex) = Some x" by auto
    then show ?thesis using py_float_decimal by simp
  qed
qed

interpretation float_text: text_format float_repr py_float is_double "\<lambda>x. x"
  by unfold_locales (rule py_float_repr)

text \<open>What the arithmetic returns is a double.\<close>

lemma fl_idem: "fl (fl q) = fl q"
proof (cases "q = 0")
  case False
  let ?k = "ulp_exp \<bar>q\<bar>"
  have *: "fl \<bar>q\<bar> = of_int (round_half_even (\<bar>q\<bar> / 2 powi ?k)) * 2 powi ?k"
    using False by (simp add: fl_def round_pos_def)
  have k: "- 1074 \<le> ?k" by (simp add: ulp_exp_def)
  have "\<bar>q\<bar> < 2 powi (binexp \<bar>q\<bar> + 1)" using False by (intro binexp_bounds) simp
  also have "\<dots> \<le> 2 powi (?k + 53)" by (rule power_int_increasing) (simp_all add: ulp_exp_def)
  finally have "\<bar>q\<bar> / 2 powi ?k \<le> 2 ^ 53" by (simp add: power_int_add field_simps)
  then have "round_half_even (\<bar>q\<bar> / 2 powi ?k) \<le> 2 ^ 53" by (intro round_half_even_le) simp
  moreover have "0 \<le> round_half_even (\<bar>q\<bar> / 2 powi ?k)" by (intro round_half_even_ge) simp
  ultimately have "fl (fl \<bar>q\<bar>) = fl \<bar>q\<bar>" unfolding * using k by (intro fl_dyadic) simp_all
  then show ?thesis by (cases "q < 0") (simp_all add: abs_if split: if_splits)
qed simp

lemma is_double_rnd [simp]: "is_double (rnd q)"
  by (auto simp: rnd_def Let_def is_double_def fl_idem inf_of_def zero_of_def split: if_splits)

end
