(* ===== verification/Json_Text.thy ===== *)
theory Json_Text
  imports Py_Json Float_Repr Csv_Rows
begin

text \<open>
  The texts of JSON files: \<open>json.dump(payload, handle, ensure_ascii=True, indent=2, sort_keys=True)\<close>
  followed by a newline, and \<open>json.loads\<close>. Strings are sequences of code points below 256. The reader
  descends recursively; its fuel is twice the length of the text, which no descent exhausts because
  every step consumes a character (\<open>enough_fuel\<close>). Python's limits on the depth of recursion and on the digits
  of an integer are not modelled.
\<close>

section \<open>Writing\<close>

definition hex_digit :: "nat \<Rightarrow> char" where
  "hex_digit d = char_of (if d < 10 then 48 + d else 87 + d)"

definition short_escapes :: "(char \<times> char) list" where
  "short_escapes = [(CHR 0x22, CHR 0x22), (CHR 0x5C, CHR 0x5C), (CHR 0x0A, CHR ''n''), (CHR 0x0D, CHR ''r''),
     (CHR 0x09, CHR ''t''), (CHR 0x08, CHR ''b''), (CHR 0x0C, CHR ''f'')]"

definition json_char :: "char \<Rightarrow> string" where
  "json_char c = (case map_of short_escapes c of Some e \<Rightarrow> [CHR 0x5C, e]
     | None \<Rightarrow> (let n = of_char c :: nat in
         if 32 \<le> n \<and> n \<le> 126 then [c]
         else [CHR 0x5C, CHR ''u'', CHR ''0'', CHR ''0'', hex_digit (n div 16), hex_digit (n mod 16)]))"

definition json_string :: "string \<Rightarrow> string" where
  "json_string s = CHR 0x22 # concat (map json_char s) @ [CHR 0x22]"

definition json_dbl :: "dbl \<Rightarrow> string" where
  "json_dbl x = (case x of NaN \<Rightarrow> ''NaN'' | PInf \<Rightarrow> ''Infinity'' | MInf \<Rightarrow> ''-Infinity'' | _ \<Rightarrow> float_repr x)"

definition new_line :: "nat \<Rightarrow> string" where
  "new_line level = CHR 0x0A # replicate (2 * level) (CHR '' '')"

text \<open>The parts of an array or object, one on a line.\<close>

definition json_block :: "char \<Rightarrow> char \<Rightarrow> nat \<Rightarrow> string list \<Rightarrow> string" where
  "json_block left right level parts =
     (if parts = [] then [left, right]
      else left # new_line (Suc level) @ join (CHR '','' # new_line (Suc level)) parts @ new_line level @ [right])"

primrec json_dump :: "json \<Rightarrow> nat \<Rightarrow> string" where
  "json_dump JNull level = ''null''"
| "json_dump (JBool b) level = (if b then ''true'' else ''false'')"
| "json_dump (JInt n) level = int_str n"
| "json_dump (JFloat d) level = json_dbl d"
| "json_dump (JStr s) level = json_string s"
| "json_dump (JArr js) level = json_block (CHR ''['') (CHR '']'') level (map (\<lambda>d. d (Suc level)) (map json_dump js))"
| "json_dump (JObj ms) level = json_block (CHR ''{'') (CHR ''}'') level
     (map (\<lambda>(k, d). json_string k @ '': '' @ d (Suc level)) (map (map_prod id json_dump) ms))"

primrec sort_keys :: "json \<Rightarrow> json" where
  "sort_keys JNull = JNull"
| "sort_keys (JBool b) = JBool b"
| "sort_keys (JInt n) = JInt n"
| "sort_keys (JFloat d) = JFloat d"
| "sort_keys (JStr s) = JStr s"
| "sort_keys (JArr js) = JArr (map sort_keys js)"
| "sort_keys (JObj ms) = JObj (sort_key fst (map (map_prod id sort_keys) ms))"

definition write_json :: "json \<Rightarrow> string" where
  "write_json payload = json_dump (sort_keys payload) 0 @ [CHR 0x0A]"

section \<open>Reading\<close>

type_synonym 'a parsed = "('a \<times> string) option"

definition skip_space :: "string \<Rightarrow> string" where
  "skip_space = dropWhile (\<lambda>c. c \<in> {CHR '' '', CHR 0x09, CHR 0x0A, CHR 0x0D})"

definition hex4 :: "string \<Rightarrow> nat parsed" where
  "hex4 s = (let vs = map (digit_val 16) (take 4 s) in
     if length vs = 4 \<and> None \<notin> set vs then Some (nat (fold (\<lambda>v n. n * 16 + the v) vs 0), drop 4 s) else None)"

definition unescape :: "char \<Rightarrow> char option" where
  "unescape e = (if e = CHR ''/'' then Some e else map_of (map (\<lambda>(c, e). (e, c)) short_escapes) e)"

text \<open>The rest of a string after its opening quote.\<close>

function scan_string :: "string \<Rightarrow> string parsed" where
  "scan_string [] = None"
| "scan_string (c # cs) =
     (if c = CHR 0x22 then Some ([], cs)
      else if c = CHR 0x5C then
        (case cs of [] \<Rightarrow> None
         | e # es \<Rightarrow>
             if e = CHR ''u'' then
               (case hex4 es of None \<Rightarrow> None
                | Some (n, r) \<Rightarrow> if n < 256 then map_option (apfst (Cons (char_of n))) (scan_string (drop 4 es)) else None)
             else (case unescape e of None \<Rightarrow> None | Some d \<Rightarrow> map_option (apfst (Cons d)) (scan_string es)))
      else if (of_char c :: nat) < 32 then None
      else map_option (apfst (Cons c)) (scan_string cs))"
  by pat_completeness auto
termination
  by (relation "measure length") auto

text \<open>The parts of a number: a whole number without superfluous zeros, a fraction, an exponent.\<close>

definition whole_part :: "string \<Rightarrow> string \<times> string" where
  "whole_part s = (let ws = (if take 1 s = ''0'' then ''0'' else takeWhile is_digit s) in (ws, drop (length ws) s))"

definition fraction_part :: "string \<Rightarrow> string \<times> string" where
  "fraction_part s = (let fs = (if take 1 s = ''.'' then takeWhile is_digit (tl s) else [])
     in (fs, if fs = [] then s else drop (Suc (length fs)) s))"

definition exponent_part :: "string \<Rightarrow> string \<times> string" where
  "exponent_part s =
     (let sg = (if take 1 (tl s) \<in> {''+'', ''-''} then take 1 (tl s) else []);
          ds = takeWhile is_digit (drop (length sg) (tl s));
          ex = (if take 1 s \<in> {''e'', ''E''} \<and> ds \<noteq> [] then hd s # sg @ ds else [])
      in (ex, drop (length ex) s))"

definition scan_number :: "string \<Rightarrow> json parsed" where
  "scan_number s =
     (let (neg, r) = (if take 1 s = ''-'' then (True, tl s) else (False, s));
          (ws, r1) = whole_part r; (fs, r2) = fraction_part r1; (ex, r3) = exponent_part r2
      in if ws = [] then None
         else if fs = [] \<and> ex = [] then Some (JInt (with_sign neg (digits_int ws)), r3)
         else map_option (\<lambda>d. (JFloat d, r3)) (py_float (minus_text neg @ decimal_text ws fs ex)))"

definition json_literals :: "(string \<times> json) list" where
  "json_literals = [(''null'', JNull), (''true'', JBool True), (''false'', JBool False), (''NaN'', JFloat NaN),
     (''Infinity'', JFloat PInf), (''-Infinity'', JFloat MInf)]"

definition scan_atom :: "string \<Rightarrow> json parsed" where
  "scan_atom s = (case find (\<lambda>(t, j). take (length t) s = t) json_literals of
      Some (t, j) \<Rightarrow> Some (j, drop (length t) s) | None \<Rightarrow> scan_number s)"

definition json_dict_of :: "(string \<times> json) list \<Rightarrow> json" where
  "json_dict_of ms = JObj (fold (\<lambda>(k, v). dict_set k v) ms [])"

fun parse_value :: "nat \<Rightarrow> string \<Rightarrow> json parsed"
  and parse_elems :: "nat \<Rightarrow> string \<Rightarrow> json list parsed"
  and parse_members :: "nat \<Rightarrow> string \<Rightarrow> (string \<times> json) list parsed" where
  "parse_value 0 s = None"
| "parse_value (Suc n) s =
     (if take 1 s = [CHR 0x22] then map_option (apfst JStr) (scan_string (tl s))
      else if take 1 s = ''['' then
        (if take 1 (skip_space (tl s)) = '']'' then Some (JArr [], tl (skip_space (tl s)))
         else map_option (apfst JArr) (parse_elems n (skip_space (tl s))))
      else if take 1 s = ''{'' then
        (if take 1 (skip_space (tl s)) = ''}'' then Some (JObj [], tl (skip_space (tl s)))
         else map_option (apfst json_dict_of) (parse_members n (skip_space (tl s))))
      else scan_atom s)"
| "parse_elems 0 s = None"
| "parse_elems (Suc n) s = Option.bind (parse_value n s) (\<lambda>(j, r).
     if take 1 (skip_space r) = '','' then map_option (apfst (Cons j)) (parse_elems n (skip_space (tl (skip_space r))))
     else if take 1 (skip_space r) = '']'' then Some ([j], tl (skip_space r)) else None)"
| "parse_members 0 s = None"
| "parse_members (Suc n) s =
     (if take 1 s \<noteq> [CHR 0x22] then None
      else Option.bind (scan_string (tl s)) (\<lambda>(k, r).
        if take 1 (skip_space r) \<noteq> '':'' then None
        else Option.bind (parse_value n (skip_space (tl (skip_space r)))) (\<lambda>(v, r).
          if take 1 (skip_space r) = '','' then map_option (apfst (Cons (k, v))) (parse_members n (skip_space (tl (skip_space r))))
          else if take 1 (skip_space r) = ''}'' then Some ([(k, v)], tl (skip_space r)) else None)))"

definition json_loads :: "string \<Rightarrow> json option" where
  "json_loads s = Option.bind (parse_value (2 * length s + 2) (skip_space s)) (\<lambda>(j, r). if skip_space r = [] then Some j else None)"

definition load_json :: "string \<Rightarrow> json result" where
  "load_json text = (case json_loads text of Some j \<Rightarrow> Inr j | None \<Rightarrow> Inl JSONDecodeError)"

section \<open>Strings\<close>

lemma char_code_less: "(of_char c :: nat) < 256"
  using of_char_mod_256 [of c, where 'a = nat] by (metis mod_less_divisor zero_less_numeral)

lemma hex_digit_val: "d < 16 \<Longrightarrow> digit_val 16 (hex_digit d) = Some (int d)"
proof -
  assume d: "d < 16"
  have "\<forall>d \<in> set [0..<16]. digit_val 16 (hex_digit d) = Some (int d)" by code_simp
  then show ?thesis using d by simp
qed

lemma hex4_char:
  fixes c :: char
  defines "n \<equiv> of_char c :: nat"
  shows "hex4 (CHR ''0'' # CHR ''0'' # hex_digit (n div 16) # hex_digit (n mod 16) # t) = Some (n, t)"
proof -
  have "n < 256" using char_code_less [of c] by (simp add: n_def)
  then have d: "n div 16 < 16" "n mod 16 < 16" by simp_all
  have z: "digit_val 16 (CHR ''0'') = Some 0" by code_simp
  have "nat (int (n div 16) * 16 + int (n mod 16)) = n" using div_mult_mod_eq [of n 16] by linarith
  then show ?thesis by (simp add: hex4_def z hex_digit_val [OF d(1)] hex_digit_val [OF d(2)])
qed

lemma scan_string_char: "scan_string (json_char c @ t) = map_option (apfst (Cons c)) (scan_string t)"
proof (cases "map_of short_escapes c")
  case (Some e)
  then have "(c, e) \<in> set short_escapes" by (rule map_of_SomeD)
  then show ?thesis by (auto simp: short_escapes_def json_char_def unescape_def)
next
  case None
  define n where "n = (of_char c :: nat)"
  have c: "c \<noteq> CHR 0x22" "c \<noteq> CHR 0x5C" using None by (auto simp: short_escapes_def split: if_splits)
  show ?thesis
  proof (cases "32 \<le> n \<and> n \<le> 126")
    case True
    then show ?thesis using None c by (simp add: json_char_def n_def)
  next
    case False
    then have "json_char c @ t = CHR 0x5C # CHR ''u'' # CHR ''0'' # CHR ''0'' # hex_digit (n div 16) # hex_digit (n mod 16) # t"
      using None by (simp add: json_char_def n_def Let_def)
    moreover have "n < 256" "char_of n = c" using char_code_less [of c] by (simp_all add: n_def)
    ultimately show ?thesis using hex4_char [of c t] by (simp add: n_def)
  qed
qed

lemma scan_json_string: "scan_string (concat (map json_char s) @ CHR 0x22 # r) = Some (s, r)"
  by (induction s) (simp_all add: scan_string_char)

section \<open>Numbers\<close>

text \<open>A text after a number that does not continue it.\<close>

definition number_ends :: "string \<Rightarrow> bool" where
  "number_ends r \<longleftrightarrow> r = [] \<or> \<not> is_digit (hd r) \<and> hd r \<notin> {CHR ''.'', CHR ''e'', CHR ''E''}"

lemma scan_digits_stop:
  assumes "list_all is_digit ds" and "r = [] \<or> \<not> is_digit (hd r)"
  shows "takeWhile is_digit (ds @ r) = ds"
  using assms by (induction ds) (auto, (cases r; simp)+)

lemma not_digits: "\<not> is_digit (CHR ''.'')" "\<not> is_digit (CHR ''e'')" "\<not> is_digit (CHR ''-'')" "\<not> is_digit (CHR ''+'')"
  "is_digit (CHR ''0'')"
  by code_simp+

lemma whole_part:
  assumes "ws \<noteq> []" "list_all is_digit ws" "hd ws = CHR ''0'' \<longrightarrow> tl ws = []" "r = [] \<or> \<not> is_digit (hd r)"
  shows "whole_part (ws @ r) = (ws, r)"
proof -
  obtain c cs where ws: "ws = c # cs" using assms(1) by (cases ws) auto
  show ?thesis
  proof (cases "c = CHR ''0''")
    case True
    then show ?thesis using assms(3) ws by (simp add: whole_part_def)
  next
    case False
    then show ?thesis using scan_digits_stop [OF assms(2,4)] ws by (simp add: whole_part_def)
  qed
qed

lemma fraction_part:
  assumes "list_all is_digit fs" "r = [] \<or> \<not> is_digit (hd r)" "take 1 r \<noteq> ''.''"
  shows "fraction_part ((if fs = [] then [] else CHR ''.'' # fs) @ r) = (fs, r)"
  using assms(3) scan_digits_stop [OF assms(1,2)] by (simp add: fraction_part_def)

lemma exponent_text_parts:
  "\<exists>sg ds. exponent_text x = CHR ''e'' # sg # ds \<and> sg \<in> {CHR ''+'', CHR ''-''} \<and> ds \<noteq> [] \<and> list_all is_digit ds"
proof -
  have "list_all is_digit (pad_zeros 2 (dec_str \<bar>x\<bar>))" "pad_zeros 2 (dec_str \<bar>x\<bar>) \<noteq> []"
    using dec_str_is_digit [of "\<bar>x\<bar>"] is_digit_char [of 0] by (auto simp: list_all_iff pad_zeros_def digit_chars)
  then show ?thesis
    by (intro exI [where x = "if x < 0 then CHR ''-'' else CHR ''+''"] exI [where x = "pad_zeros 2 (dec_str \<bar>x\<bar>)"] conjI)
      (simp_all add: exponent_text_def)
qed

lemma exponent_part:
  assumes "number_ends r"
  shows "exponent_part (exponent_text x @ r) = (exponent_text x, r)" and "exponent_part r = ([], r)"
proof -
  obtain sg ds where e: "exponent_text x = CHR ''e'' # sg # ds" "sg \<in> {CHR ''+'', CHR ''-''}" "ds \<noteq> []" "list_all is_digit ds"
    using exponent_text_parts [of x] by blast
  have "takeWhile is_digit (ds @ r) = ds" using assms by (intro scan_digits_stop [OF e(4)]) (auto simp: number_ends_def)
  then show "exponent_part (exponent_text x @ r) = (exponent_text x, r)"
    unfolding e(1) using e(2,3) by (auto simp: exponent_part_def Let_def)
  show "exponent_part r = ([], r)"
    using assms by (cases r) (auto simp: exponent_part_def number_ends_def Let_def)
qed

lemma number_ends_plain: "number_ends r \<Longrightarrow> r = [] \<or> \<not> is_digit (hd r)" "number_ends r \<Longrightarrow> take 1 r \<noteq> ''.''"
  by (cases r; auto simp: number_ends_def)+

lemma sign_part:
  "ws \<noteq> [] \<Longrightarrow> list_all is_digit ws \<Longrightarrow>
     (if take 1 (minus_text neg @ ws @ r) = ''-'' then (True, tl (minus_text neg @ ws @ r)) else (False, minus_text neg @ ws @ r)) =
       (neg, ws @ r)"
  using not_digits(3) by (cases ws) (auto simp: minus_text_def)

lemma scan_number_int:
  assumes "number_ends r"
  shows "scan_number (int_str n @ r) = Some (JInt n, r)"
proof -
  let ?ds = "dec_str \<bar>n\<bar>"
  have t: "int_str n @ r = minus_text (n < 0) @ ?ds @ r" by (simp add: int_str_def minus_text_def)
  have d: "list_all is_digit ?ds" using dec_str_is_digit [of "\<bar>n\<bar>"] by (simp add: list_all_iff)
  have z: "hd ?ds = CHR ''0'' \<longrightarrow> tl ?ds = []"
  proof (cases "n = 0")
    case True
    then show ?thesis by (simp add: dec_str.simps)
  next
    case False
    then show ?thesis using dec_str_hd [of "\<bar>n\<bar>"] by simp
  qed
  have "fraction_part r = ([], r)"
    using fraction_part [of "[]" r] number_ends_plain [OF assms] by simp
  then show ?thesis
    unfolding t scan_number_def sign_part [OF dec_str_ne d]
    by (simp add: whole_part [OF dec_str_ne d z number_ends_plain(1) [OF assms]] exponent_part(2) [OF assms]
        digits_int_dec_str with_sign_def)
qed

lemma scan_number_decimal:
  assumes parts: "decimal_parts ws fs ex x" and r: "number_ends r"
  shows "scan_number (minus_text neg @ decimal_text ws fs ex @ r) =
    map_option (\<lambda>d. (JFloat d, r)) (py_float (minus_text neg @ decimal_text ws fs ex))"
proof -
  let ?mid = "if fs = [] then [] else CHR ''.'' # fs"
  have ws: "ws \<noteq> []" "list_all is_digit ws" "hd ws = CHR ''0'' \<longrightarrow> tl ws = []" and fs: "list_all is_digit fs"
    and ex: "ex = [] \<and> fs \<noteq> [] \<or> ex = exponent_text x"
    using parts by (auto simp: decimal_parts_def)
  have rest: "ex @ r = [] \<or> \<not> is_digit (hd (ex @ r))" "take 1 (ex @ r) \<noteq> ''.''"
    using ex number_ends_plain [OF r] exponent_text_parts [of x] not_digits by auto
  have after: "?mid @ ex @ r = [] \<or> \<not> is_digit (hd (?mid @ ex @ r))" using rest(1) not_digits by simp
  have e: "exponent_part (ex @ r) = (ex, r)" using ex exponent_part [OF r] by auto
  have ne: "\<not> (fs = [] \<and> ex = [])" using ex exponent_text_parts [of x] by auto
  have "minus_text neg @ decimal_text ws fs ex @ r = minus_text neg @ ws @ ?mid @ ex @ r"
    by (simp add: decimal_text_def)
  then show ?thesis
    unfolding scan_number_def
    by (simp only: sign_part [OF ws(1,2)] whole_part [OF ws after] fraction_part [OF fs rest] e ne ws(1) if_False
        case_prod_conv Let_def)
qed

section \<open>Single values\<close>

lemma scan_atom_number:
  assumes "s = minus_text neg @ c # cs" and "is_digit c"
  shows "scan_atom s = scan_number s"
proof -
  have "\<not> is_digit (CHR ''n'')" "\<not> is_digit (CHR ''t'')" "\<not> is_digit (CHR ''f'')" "\<not> is_digit (CHR ''N'')"
    "\<not> is_digit (CHR ''I'')"
    by code_simp+
  then have "find (\<lambda>(t, j). take (length t) s = t) json_literals = None"
    using assms not_digits(3) by (auto simp: json_literals_def minus_text_def find_None_iff)
  then show ?thesis by (simp add: scan_atom_def)
qed

lemma scan_int: "number_ends r \<Longrightarrow> scan_atom (int_str n @ r) = Some (JInt n, r)"
proof -
  assume r: "number_ends r"
  obtain c cs where c: "dec_str \<bar>n\<bar> = c # cs" by (cases "dec_str \<bar>n\<bar>") simp_all
  then have "int_str n @ r = minus_text (n < 0) @ c # cs @ r" by (auto simp: int_str_def minus_text_def)
  moreover have "is_digit c" using dec_str_is_digit [of "\<bar>n\<bar>"] c by simp
  ultimately show ?thesis using scan_number_int [OF r] scan_atom_number by metis
qed

lemma scan_float: "is_double d \<Longrightarrow> number_ends r \<Longrightarrow> scan_atom (json_dbl d @ r) = Some (JFloat d, r)"
proof -
  assume d: "is_double d" and r: "number_ends r"
  have dec: "scan_atom (minus_text neg @ decimal_text ws fs ex @ r) = Some (JFloat d, r)"
    if parts: "decimal_parts ws fs ex x" and p: "py_float (minus_text neg @ decimal_text ws fs ex) = Some d" for ws fs ex x neg
  proof -
    obtain c cs where c: "decimal_text ws fs ex = c # cs" "is_digit c"
      using decimal_chars(1,2) [OF parts] by (cases "decimal_text ws fs ex") auto
    then have "scan_atom (minus_text neg @ decimal_text ws fs ex @ r) = scan_number (minus_text neg @ decimal_text ws fs ex @ r)"
      by (intro scan_atom_number) simp_all
    then show ?thesis using scan_number_decimal [OF parts r] p by simp
  qed
  consider "d \<in> {NaN, PInf, MInf}" | "d = NegZero \<or> d = Fin 0" | q where "d = Fin q" "q \<noteq> 0" by (cases d) auto
  then show ?thesis
  proof cases
    case 1
    then show ?thesis by (auto simp: json_dbl_def scan_atom_def json_literals_def)
  next
    case 2
    have p: "decimal_parts ''0'' ''0'' [] 0" by code_simp
    have t: "float_repr d = minus_text (d = NegZero) @ decimal_text ''0'' ''0'' []" "json_dbl d = float_repr d"
      using 2 by (auto simp: minus_text_def decimal_text_def float_repr_def json_dbl_def)
    show ?thesis using dec [OF p, of "d = NegZero"] py_float_repr [OF d] unfolding t by simp
  next
    case (3 q)
    from float_repr_shape [of q] d 3 obtain ws fs ex x where
      t: "float_repr d = minus_text (q < 0) @ decimal_text ws fs ex" "decimal_parts ws fs ex x" by auto
    then show ?thesis using dec [OF t(2), of "q < 0"] py_float_repr [OF d] 3 by (simp add: json_dbl_def)
  qed
qed

section \<open>Whole texts\<close>

text \<open>The values Python can hold: every float is a double, the keys of a dictionary are distinct.\<close>

primrec json_ok :: "json \<Rightarrow> bool" where
  "json_ok JNull = True"
| "json_ok (JBool b) = True"
| "json_ok (JInt n) = True"
| "json_ok (JFloat d) = is_double d"
| "json_ok (JStr s) = True"
| "json_ok (JArr js) = list_all (\<lambda>b. b) (map json_ok js)"
| "json_ok (JObj ms) = (distinct (map fst ms) \<and> list_all snd (map (map_prod id json_ok) ms))"

text \<open>The depth of recursion a value needs at most.\<close>

primrec json_weight :: "json \<Rightarrow> nat" where
  "json_weight JNull = 0"
| "json_weight (JBool b) = 0"
| "json_weight (JInt n) = 0"
| "json_weight (JFloat d) = 0"
| "json_weight (JStr s) = 0"
| "json_weight (JArr js) = Suc (sum_list (map Suc (map json_weight js)))"
| "json_weight (JObj ms) = Suc (sum_list (map (\<lambda>(k, w). Suc w) (map (map_prod id json_weight) ms)))"

lemma dump_JArr: "json_dump (JArr js) l = json_block (CHR ''['') (CHR '']'') l (map (\<lambda>j. json_dump j (Suc l)) js)"
  by (simp add: comp_def)

definition member_text :: "nat \<Rightarrow> string \<times> json \<Rightarrow> string" where
  "member_text l = (\<lambda>(k, j). json_string k @ '': '' @ json_dump j l)"

lemma dump_JObj: "json_dump (JObj ms) l = json_block (CHR ''{'') (CHR ''}'') l (map (member_text (Suc l)) ms)"
proof -
  have "map (\<lambda>(k, d). json_string k @ '': '' @ d (Suc l)) (map (map_prod id json_dump) ms) = map (member_text (Suc l)) ms"
    by (auto simp: member_text_def)
  then show ?thesis by (simp only: json_dump.simps)
qed

declare json_dump.simps(6,7) [simp del]

lemma skip_line: "skip_space (new_line l @ t) = skip_space t"
proof -
  have "dropWhile P (replicate n c @ t) = dropWhile P t" if "P c" for P and c :: char and n
    using that by (induction n) auto
  then show ?thesis by (simp add: skip_space_def new_line_def)
qed

text \<open>What a printed value begins with.\<close>

definition plain_start :: "string \<Rightarrow> bool" where
  "plain_start s \<longleftrightarrow> s \<noteq> [] \<and> hd s \<notin> {CHR '' '', CHR 0x09, CHR 0x0A, CHR 0x0D, CHR '']'', CHR ''}'', CHR '','', CHR '':''}"

lemma digit_start: "is_digit c \<Longrightarrow> plain_start (c # cs)"
proof -
  assume "is_digit c"
  moreover have "\<not> is_digit d" if "d \<in> {CHR '' '', CHR 0x09, CHR 0x0A, CHR 0x0D, CHR '']'', CHR ''}'', CHR '','', CHR '':''}" for d
  proof -
    have "\<forall>d \<in> {CHR '' '', CHR 0x09, CHR 0x0A, CHR 0x0D, CHR '']'', CHR ''}'', CHR '','', CHR '':''}. \<not> is_digit d" by code_simp
    then show ?thesis using that by blast
  qed
  ultimately show ?thesis unfolding plain_start_def by auto
qed

lemma minus_start: "is_digit (hd t) \<Longrightarrow> t \<noteq> [] \<Longrightarrow> plain_start (minus_text neg @ t)"
  using digit_start [of "hd t" "tl t"] by (cases neg) (simp_all add: minus_text_def plain_start_def)

lemma float_start: "is_double d \<Longrightarrow> plain_start (json_dbl d)"
proof (cases "d \<in> {NaN, PInf, MInf, NegZero, Fin 0}")
  case True
  then show ?thesis by (auto simp: json_dbl_def float_repr_def plain_start_def)
next
  case False
  moreover assume "is_double d"
  ultimately obtain q where q: "d = Fin q" "q \<noteq> 0" "is_double (Fin q)" by (cases d) auto
  from float_repr_shape [OF q(3,2)] obtain ws fs ex x where
    t: "float_repr d = minus_text (q < 0) @ decimal_text ws fs ex" "decimal_parts ws fs ex x" using q(1) by blast
  then show ?thesis using minus_start decimal_chars(1,2) [OF t(2)] q(1) by (simp add: json_dbl_def)
qed

lemma dump_start: "json_ok j \<Longrightarrow> plain_start (json_dump j l)"
proof (cases j)
  case (JInt n)
  have "is_digit (hd (dec_str \<bar>n\<bar>))" using dec_str_is_digit [of "\<bar>n\<bar>"] by simp
  then show ?thesis using minus_start [of "dec_str \<bar>n\<bar>" "n < 0"] JInt by (simp add: int_str_def minus_text_def split: if_splits)
next
  case (JFloat d)
  moreover assume "json_ok j"
  ultimately show ?thesis using float_start by simp
next
  case (JArr js)
  then show ?thesis by (simp add: dump_JArr json_block_def plain_start_def)
next
  case (JObj ms)
  then show ?thesis by (simp add: dump_JObj json_block_def plain_start_def)
qed (simp_all add: plain_start_def json_string_def)

lemma skip_plain: "plain_start t \<Longrightarrow> skip_space (t @ r) = t @ r"
  by (cases t) (auto simp: plain_start_def skip_space_def)

lemma plain_no_end: "plain_start t \<Longrightarrow> take 1 (t @ r) \<noteq> '']'' \<and> take 1 (t @ r) \<noteq> ''}''"
  by (cases t) (auto simp: plain_start_def)

lemma join_length: "sum_list (map length parts) \<le> length (join sep parts)"
  by (induction parts rule: induct_list012) simp_all

lemma block_length:
  assumes "\<And>x. x \<in> set xs \<Longrightarrow> f x < length (g x)"
  shows "Suc (sum_list (map (\<lambda>x. Suc (f x)) xs)) < length (json_block a b l (map g xs))"
proof -
  have "sum_list (map (\<lambda>x. Suc (f x)) xs) \<le> sum_list (map length (map g xs))"
    unfolding map_map comp_def using assms by (intro sum_list_mono) (simp add: Suc_le_eq)
  also have "\<dots> \<le> length (join (CHR '','' # new_line (Suc l)) (map g xs))" by (rule join_length)
  finally show ?thesis by (simp add: json_block_def)
qed

lemma weight_parts:
  "json_weight (JArr js) = Suc (sum_list (map (\<lambda>j. Suc (json_weight j)) js))"
  "json_weight (JObj ms) = Suc (sum_list (map (\<lambda>m. Suc (json_weight (snd m))) ms))"
proof -
  have "map (\<lambda>(k, w). Suc w) (map (map_prod id json_weight) ms) = map (\<lambda>m. Suc (json_weight (snd m))) ms" by auto
  then show "json_weight (JObj ms) = Suc (sum_list (map (\<lambda>m. Suc (json_weight (snd m))) ms))" by (simp only: json_weight.simps)
qed (simp add: comp_def)

declare json_weight.simps(6,7) [simp del]

lemma json_ok_parts:
  "json_ok (JArr js) \<longleftrightarrow> (\<forall>j \<in> set js. json_ok j)"
  "json_ok (JObj ms) \<longleftrightarrow> distinct (map fst ms) \<and> (\<forall>m \<in> set ms. json_ok (snd m))"
  by (auto simp: list_all_iff)

declare json_ok.simps(6,7) [simp del]

lemma weight_length: "json_ok j \<Longrightarrow> json_weight j < length (json_dump j l)"
proof (induction j arbitrary: l)
  case (JArr js)
  then show ?case unfolding weight_parts dump_JArr by (intro block_length) (simp add: json_ok_parts)
next
  case (JObj ms)
  have "json_weight (snd m) < length (member_text (Suc l) m)" if "m \<in> set ms" for m
    using JObj.IH [of m "snd m" "Suc l"] JObj.prems that
    by (cases m) (auto simp: json_ok_parts member_text_def)
  then show ?case unfolding weight_parts dump_JObj by (rule block_length)
next
  case (JInt n)
  then show ?case using dump_start [of "JInt n" l] by (simp add: plain_start_def)
next
  case (JFloat d)
  then show ?case using dump_start [of "JFloat d" l] by (simp add: plain_start_def)
next
  case (JStr s)
  then show ?case using dump_start [of "JStr s" l] by (simp add: plain_start_def)
qed simp_all

lemma join_first: "\<exists>t. join sep (x # xs) = x @ t"
  by (cases xs) simp_all

lemma member_first: "\<exists>t. join sep (member_text l m # ps) @ r = CHR 0x22 # t"
  using join_first [of sep "member_text l m" ps] by (auto simp: member_text_def json_string_def case_prod_beta)

text \<open>Elements and members, given that each value is read back.\<close>

definition json_reads :: "nat \<Rightarrow> json \<Rightarrow> bool" where
  "json_reads l j \<longleftrightarrow> (\<forall>n r. json_weight j < n \<longrightarrow> number_ends r \<longrightarrow> parse_value n (json_dump j l @ r) = Some (j, r))"

lemma ends_marks: "number_ends (CHR '','' # r)" "number_ends (new_line l @ r)" "number_ends []"
proof -
  have "\<not> is_digit (CHR '','')" "\<not> is_digit (CHR 0x0A)" by code_simp+
  then show "number_ends (CHR '','' # r)" "number_ends (new_line l @ r)" "number_ends []"
    by (simp_all add: number_ends_def new_line_def)
qed

lemma skip_mark: "c \<in> {CHR '','', CHR '']'', CHR ''}'', CHR '':'', CHR 0x22} \<Longrightarrow> skip_space (c # r) = c # r"
  by (auto simp: skip_space_def)

lemma parse_elems_text:
  assumes "js \<noteq> []" and "\<forall>j \<in> set js. json_reads l j \<and> json_ok j" and "sum_list (map (\<lambda>j. Suc (json_weight j)) js) < n"
  shows "parse_elems n (join (CHR '','' # new_line l) (map (\<lambda>j. json_dump j l) js) @ new_line l' @ CHR '']'' # r) = Some (js, r)"
  using assms
proof (induction js arbitrary: n rule: induct_list012)
  case (2 j)
  then obtain m where n: "n = Suc m" by (cases n) auto
  have "parse_value m (json_dump j l @ new_line l' @ CHR '']'' # r) = Some (j, new_line l' @ CHR '']'' # r)"
    using 2 ends_marks(2) by (simp add: json_reads_def n)
  then show ?case by (simp add: n skip_line skip_mark)
next
  case (3 j j' js)
  then obtain m where n: "n = Suc m" by (cases n) auto
  let ?rest = "join (CHR '','' # new_line l) (map (\<lambda>j. json_dump j l) (j' # js)) @ new_line l' @ CHR '']'' # r"
  have v: "parse_value m (json_dump j l @ CHR '','' # new_line l @ ?rest) = Some (j, CHR '','' # new_line l @ ?rest)"
    using 3 ends_marks(1) by (simp add: json_reads_def n)
  have "\<exists>t. ?rest = json_dump j' l @ t" by (cases js) simp_all
  then have "skip_space ?rest = ?rest" using skip_plain [OF dump_start [of j' l]] 3(4) by auto
  moreover have "parse_elems m ?rest = Some (j' # js, r)" using 3 by (intro 3(2)) (simp_all add: n)
  ultimately show ?case using v by (simp add: n skip_line skip_mark)
qed simp

lemma parse_member_text:
  assumes "json_reads l (snd m)" and "json_ok (snd m)" and "json_weight (snd m) < n" and "number_ends t"
  shows "parse_members (Suc n) (member_text l m @ t) =
    (if take 1 (skip_space t) = '','' then map_option (apfst (Cons m)) (parse_members n (skip_space (tl (skip_space t))))
     else if take 1 (skip_space t) = ''}'' then Some ([m], tl (skip_space t)) else None)"
proof -
  obtain k j where m: "m = (k, j)" by (cases m)
  let ?v = "json_dump j l @ t"
  have whole: "member_text l m @ t = CHR 0x22 # (concat (map json_char k) @ CHR 0x22 # CHR '':'' # CHR '' '' # ?v)"
    by (simp add: member_text_def m json_string_def)
  have "skip_space (CHR '' '' # ?v) = ?v" using skip_plain [OF dump_start, of j l t] assms(2) by (simp add: skip_space_def m)
  moreover have "parse_value n ?v = Some (j, t)" using assms by (simp add: json_reads_def m)
  ultimately show ?thesis unfolding whole by (simp add: scan_json_string skip_mark m)
qed

lemma parse_members_text:
  assumes "ms \<noteq> []" and "\<forall>m \<in> set ms. json_reads l (snd m) \<and> json_ok (snd m)" and "sum_list (map (\<lambda>m. Suc (json_weight (snd m))) ms) < n"
  shows "parse_members n (join (CHR '','' # new_line l) (map (member_text l) ms) @ new_line l' @ CHR ''}'' # r) = Some (ms, r)"
  using assms
proof (induction ms arbitrary: n rule: induct_list012)
  case (2 m)
  then obtain n' where n: "n = Suc n'" by (cases n) auto
  then show ?case using 2 parse_member_text [of l m n' "new_line l' @ CHR ''}'' # r"] ends_marks(2) [of l']
    by (simp add: skip_line skip_mark)
next
  case (3 m m' ms)
  then obtain n' where n: "n = Suc n'" by (cases n) auto
  let ?rest = "join (CHR '','' # new_line l) (map (member_text l) (m' # ms)) @ new_line l' @ CHR ''}'' # r"
  have "\<exists>t. ?rest = CHR 0x22 # t" unfolding list.map by (rule member_first)
  then have "skip_space ?rest = ?rest" using skip_mark [of "CHR 0x22"] by (elim exE) simp
  moreover have "parse_members n' ?rest = Some (m' # ms, r)" using 3 by (intro 3(2)) (simp_all add: n)
  ultimately show ?case using 3 parse_member_text [of l m n' "CHR '','' # new_line l @ ?rest"] ends_marks(1)
    by (simp add: n skip_line skip_mark)
qed simp

definition json_opening :: "string set" where
  "json_opening = {[CHR 0x22], ''['', ''{''}"

lemma parse_atom: "take 1 s \<notin> json_opening \<Longrightarrow> parse_value (Suc n) s = scan_atom s"
  by (simp add: json_opening_def)

lemma reads_atom:
  assumes "\<And>r. take 1 (json_dump j l @ r) \<notin> json_opening" and "\<And>r. number_ends r \<Longrightarrow> scan_atom (json_dump j l @ r) = Some (j, r)"
  shows "json_reads l j"
  unfolding json_reads_def
proof (intro allI impI)
  fix n r
  assume "json_weight j < n" and r: "number_ends r"
  then obtain m where "n = Suc m" by (cases n) auto
  then show "parse_value n (json_dump j l @ r) = Some (j, r)"
    using assms(2) [OF r] parse_atom [OF assms(1)] by (simp only:)
qed

lemma number_opening: "is_digit (hd t) \<Longrightarrow> t \<noteq> [] \<Longrightarrow> take 1 (minus_text neg @ t @ r) \<notin> json_opening"
proof -
  assume "is_digit (hd t)" and "t \<noteq> []"
  moreover have "\<not> is_digit (CHR 0x22)" "\<not> is_digit (CHR ''['')" "\<not> is_digit (CHR ''{'')" by code_simp+
  ultimately show ?thesis by (cases t) (auto simp: json_opening_def minus_text_def)
qed

lemma int_opening: "take 1 (int_str n @ r) \<notin> json_opening"
proof -
  have "is_digit (hd (dec_str \<bar>n\<bar>))" using dec_str_is_digit [of "\<bar>n\<bar>"] by simp
  then show ?thesis using number_opening [of "dec_str \<bar>n\<bar>" "n < 0" r] by (simp add: int_str_def minus_text_def split: if_splits)
qed

lemma float_opening: "is_double d \<Longrightarrow> take 1 (json_dbl d @ r) \<notin> json_opening"
proof (cases "d \<in> {NaN, PInf, MInf, NegZero, Fin 0}")
  case True
  then show ?thesis by (auto simp: json_dbl_def float_repr_def json_opening_def)
next
  case False
  moreover assume "is_double d"
  ultimately obtain q where q: "d = Fin q" "q \<noteq> 0" "is_double (Fin q)" by (cases d) auto
  from float_repr_shape [OF q(3,2)] obtain ws fs ex x where
    t: "float_repr d = minus_text (q < 0) @ decimal_text ws fs ex" "decimal_parts ws fs ex x" using q(1) by blast
  then show ?thesis using number_opening decimal_chars(1,2) [OF t(2)] q(1) by (simp add: json_dbl_def)
qed

text \<open>Every value is read back from its text.\<close>

lemma reads_dump: "json_ok j \<Longrightarrow> json_reads l j"
proof (induction j arbitrary: l)
  case (JArr js)
  have IH: "\<forall>j \<in> set js. json_reads (Suc l) j \<and> json_ok j" using JArr by (auto simp: json_ok_parts)
  show ?case unfolding json_reads_def
  proof (intro allI impI)
    fix n r
    assume n: "json_weight (JArr js) < n" and "number_ends r"
    from n obtain m where m: "n = Suc m" by (cases n) auto
    show "parse_value n (json_dump (JArr js) l @ r) = Some (JArr js, r)"
    proof (cases "js = []")
      case True
      then show ?thesis by (simp add: m dump_JArr json_block_def skip_mark)
    next
      case False
      let ?t = "join (CHR '','' # new_line (Suc l)) (map (\<lambda>j. json_dump j (Suc l)) js) @ new_line l @ CHR '']'' # r"
      obtain j js' where js: "js = j # js'" using False by (cases js) auto
      then have "\<exists>t. ?t = json_dump j (Suc l) @ t" by (cases js') simp_all
      then obtain t where dt: "?t = json_dump j (Suc l) @ t" ..
      have "plain_start (json_dump j (Suc l))" using IH js by (intro dump_start) simp
      then have t: "skip_space ?t = ?t" "take 1 ?t \<noteq> '']''"
        unfolding dt using skip_plain plain_no_end by blast+
      moreover have "parse_elems m ?t = Some (js, r)"
        using False IH n by (intro parse_elems_text) (simp_all add: m weight_parts)
      ultimately show ?thesis using False by (simp add: m dump_JArr json_block_def skip_line)
    qed
  qed
next
  case (JObj ms)
  have IH: "\<forall>m \<in> set ms. json_reads (Suc l) (snd m) \<and> json_ok (snd m)"
    using JObj by (fastforce simp: json_ok_parts)
  have dist: "json_dict_of ms = JObj ms"
    using JObj.prems fold_dict_set_pairs [of ms "[]"] by (simp add: json_dict_of_def json_ok_parts)
  show ?case unfolding json_reads_def
  proof (intro allI impI)
    fix n r
    assume n: "json_weight (JObj ms) < n" and "number_ends r"
    from n obtain m where m: "n = Suc m" by (cases n) auto
    show "parse_value n (json_dump (JObj ms) l @ r) = Some (JObj ms, r)"
    proof (cases "ms = []")
      case True
      then show ?thesis by (simp add: m dump_JObj json_block_def skip_mark)
    next
      case False
      let ?t = "join (CHR '','' # new_line (Suc l)) (map (member_text (Suc l)) ms) @ new_line l @ CHR ''}'' # r"
      obtain p ps where ms: "map (member_text (Suc l)) ms = member_text (Suc l) p # ps" using False by (cases ms) auto
      obtain u where u: "?t = CHR 0x22 # u" unfolding ms by (rule exE [OF member_first])
      have t: "skip_space ?t = ?t" "take 1 ?t \<noteq> ''}''" unfolding u using skip_mark [of "CHR 0x22" u] by simp_all
      moreover have "parse_members m ?t = Some (ms, r)"
        using False IH n by (intro parse_members_text) (simp_all add: m weight_parts)
      ultimately show ?thesis using False dist by (simp add: m dump_JObj json_block_def skip_line)
    qed
  qed
next
  case JNull
  then show ?case by (auto simp: json_reads_def gr0_conv_Suc scan_atom_def json_literals_def)
next
  case (JBool b)
  then show ?case by (auto simp: json_reads_def gr0_conv_Suc scan_atom_def json_literals_def)
next
  case (JStr s)
  then show ?case by (auto simp: json_reads_def gr0_conv_Suc json_string_def scan_json_string)
next
  case (JInt n)
  show ?case using int_opening scan_int by (intro reads_atom) simp_all
next
  case (JFloat d)
  then have "is_double d" by simp
  then show ?case using float_opening scan_float by (intro reads_atom) simp_all
qed

section \<open>Files\<close>

lemma sort_keys_object: "sort_keys (JObj ms) = JObj (sort_key fst (map (map_prod id sort_keys) ms))"
  by simp

lemma distinct_map_sort_key: "distinct (map f (sort_key f xs)) = distinct (map f xs)"
  by (metis mset_eq_imp_distinct_iff mset_map mset_sort)

lemma map_fst_map_prod_id: "map fst (map (map_prod id f) xs) = map fst xs"
  by simp

lemma json_ok_sort_keys: "json_ok j \<Longrightarrow> json_ok (sort_keys j)"
proof (induction j)
  case (JObj ms)
  have "distinct (map fst (sort_key fst (map (map_prod id sort_keys) ms)))"
    using JObj.prems by (metis json_ok_parts(2) map_fst_map_prod_id distinct_map_sort_key)
  moreover have "json_ok (snd m)" if "m \<in> set (map (map_prod id sort_keys) ms)" for m
    using that JObj by (fastforce simp: json_ok_parts)
  ultimately show ?case unfolding sort_keys_object json_ok_parts by simp
qed (auto simp: json_ok_parts)

lemma load_written: "json_ok payload \<Longrightarrow> load_json (write_json payload) = Inr (sort_keys payload)"
proof -
  assume ok: "json_ok payload"
  let ?j = "sort_keys payload" and ?t = "write_json payload"
  note oj = json_ok_sort_keys [OF ok]
  have t: "?t = json_dump ?j 0 @ [CHR 0x0A]" by (simp add: write_json_def)
  have "number_ends [CHR 0x0A]" using ends_marks(2) [of 0 "[]"] by (simp add: new_line_def)
  moreover have "json_weight ?j < 2 * length ?t + 2" using weight_length [OF oj, of 0] unfolding t by simp
  ultimately have "parse_value (2 * length ?t + 2) (json_dump ?j 0 @ [CHR 0x0A]) = Some (?j, [CHR 0x0A])"
    using reads_dump [OF oj, of 0] unfolding json_reads_def by blast
  moreover have "skip_space ?t = json_dump ?j 0 @ [CHR 0x0A]" unfolding t by (rule skip_plain [OF dump_start [OF oj]])
  moreover have "skip_space [CHR 0x0A] = []" by (simp add: skip_space_def)
  ultimately show ?thesis 
    unfolding load_json_def json_loads_def by (simp only: Option.bind.simps case_prod_conv simp_thms if_True option.case)
qed

lemma sort_keys_idem: "sort_keys (sort_keys j) = sort_keys j"
proof (induction j)
  case (JObj ms)
  have "sort_key fst (map (map_prod id sort_keys) (sort_key fst (map (map_prod id sort_keys) ms))) =
      map (map_prod id sort_keys) (sort_key fst (map (map_prod id sort_keys) ms))"
    unfolding sort_key_map by (simp add: sort_key_id_if_sorted)
  also have "\<dots> = sort_key fst (map (map_prod id sort_keys) ms)"
    using JObj by (intro map_idI) fastforce
  finally show ?case unfolding sort_keys_object by simp
qed (simp_all add: comp_def)

interpretation json_text: text_format write_json json_loads json_ok sort_keys
  using load_written
  by unfold_locales (fastforce simp: load_json_def split: option.splits)

section \<open>The fuel is enough\<close>

lemma skip_length: "length (skip_space s) \<le> length s"
  by (simp add: skip_space_def length_dropWhile_le)

lemma scan_string_length: "scan_string s = Some (t, r) \<Longrightarrow> length r < length s"
proof (induction "length s" arbitrary: s t rule: less_induct)
  case less
  show ?case
  proof (cases s)
    case (Cons c cs)
    have IH: "length r < length s'" if "scan_string s' = Some (t', r)" "length s' \<le> length cs" for s' t'
      using less.hyps [of s' t'] that Cons by simp
    have part: "length r < length s" if "map_option (apfst g) (scan_string s') = Some (t, r)" "length s' \<le> length cs" for g s'
      using that IH Cons by fastforce
    show ?thesis
      using less.prems Cons part
      by (auto split: if_splits list.splits option.splits prod.splits)
  qed (use less.prems in simp)
qed

lemma number_parts_length:
  "whole_part s = (ws, r) \<Longrightarrow> ws \<noteq> [] \<Longrightarrow> length r < length s"
  "fraction_part s = (fs, r) \<Longrightarrow> length r \<le> length s"
  "exponent_part s = (ex, r) \<Longrightarrow> length r \<le> length s"
proof -
  show "length r < length s" if "whole_part s = (ws, r)" "ws \<noteq> []"
  proof -
    have "r = drop (length ws) s" "s \<noteq> []"
      using that by (cases s; auto simp: whole_part_def Let_def split: if_splits)+
    then show ?thesis using that(2) by (simp add: diff_less)
  qed
qed (auto simp: fraction_part_def exponent_part_def Let_def split: if_splits)

lemma scan_atom_length:
  assumes "scan_atom s = Some (j, r)"
  shows "length r < length s"
proof (cases "find (\<lambda>(t, j). take (length t) s = t) json_literals")
  case None
  then have "scan_number s = Some (j, r)" using assms by (simp add: scan_atom_def)
  moreover obtain neg b where b: "(if take 1 s = ''-'' then (True, tl s) else (False, s)) = (neg, b)" by fastforce
  moreover obtain ws r1 where w: "whole_part b = (ws, r1)" by fastforce
  moreover obtain fs r2 where f: "fraction_part r1 = (fs, r2)" by fastforce
  moreover obtain ex r3 where e: "exponent_part r2 = (ex, r3)" by fastforce
  ultimately have "ws \<noteq> []" "r = r3" by (auto simp: scan_number_def Let_def split: if_splits)
  moreover have "length b \<le> length s" using b by (auto split: if_splits)
  ultimately show ?thesis using number_parts_length(1) [OF w] number_parts_length(2) [OF f] number_parts_length(3) [OF e] by simp
next
  case (Some tj)
  obtain t v where tj: "tj = (t, v)" by (cases tj)
  have hit: "take (length t) s = t" "(t, v) \<in> set json_literals"
    using Some by (auto simp: find_Some_iff tj dest: nth_mem)
  have "t \<noteq> []" using hit(2) by (auto simp: json_literals_def)
  moreover have "s \<noteq> []" using hit(1) \<open>t \<noteq> []\<close> by auto
  moreover have "r = drop (length t) s" using assms Some by (simp add: scan_atom_def tj)
  ultimately show ?thesis by (simp add: diff_less)
qed

lemma tl_skip_length: "take 1 (skip_space s) = [c] \<Longrightarrow> length (skip_space (tl (skip_space s))) < length s"
  using skip_length [of s] skip_length [of "tl (skip_space s)"] by (cases "skip_space s") auto

lemma tl_length: "take 1 (skip_space s) = [c] \<Longrightarrow> length (tl (skip_space s)) < length s"
  using skip_length [of s] by (cases "skip_space s") auto

lemma parse_length:
  "parse_value n s = Some (j, r) \<Longrightarrow> length r < length s"
  "parse_elems n s = Some (js, r) \<Longrightarrow> length r < length s"
  "parse_members n s = Some (ms, r) \<Longrightarrow> length r < length s"
proof (induction n s and n s and n s arbitrary: j r and js r and ms r rule: parse_value_parse_elems_parse_members.induct)
  case (2 n s)
  have step: "length r < length s" if "length r < length s'" "length s' \<le> length (tl s)" for s'
    using that by simp
  have empty: "length (tl (skip_space (tl s))) < length s" if "take 1 (skip_space (tl s)) = [c]" for c
    using tl_length [OF that] by simp
  show ?case
    using "2.prems" "2.IH"(1) [of _ r] "2.IH"(2) [of _ r] scan_string_length [of "tl s" _ r] scan_atom_length [of s j r]
      step [of "skip_space (tl s)"] step [of "tl s"] skip_length [of "tl s"] empty
    by (auto split: if_splits)
next
  case (4 n s)
  from "4.prems" obtain j r1 where v: "parse_value n s = Some (j, r1)" by (auto simp: bind_eq_Some_conv)
  have "length r1 < length s" by (rule "4.IH"(1) [OF v])
  then show ?case
    using "4.prems" v "4.IH"(2) [OF v refl] tl_length [of r1] tl_skip_length [of r1]
    by (fastforce split: if_splits)
next
  case (6 n s)
  from "6.prems" obtain k r1 j r2 where k: "take 1 s = [CHR 0x22]" "scan_string (tl s) = Some (k, r1)"
    "take 1 (skip_space r1) = '':''" "parse_value n (skip_space (tl (skip_space r1))) = Some (j, r2)"
    by (auto simp: bind_eq_Some_conv split: if_splits)
  have "length r1 < length s" using scan_string_length [OF k(2)] by simp
  moreover have "length r2 < length r1" using "6.IH"(1) k tl_skip_length [OF k(3)] by fastforce
  ultimately show ?case
    using "6.prems" k "6.IH"(2) tl_length [of r2] tl_skip_length [of r2]
    by (fastforce split: if_splits)
qed simp_all

lemma enough_fuel:
  "2 * length s < n \<Longrightarrow> 2 * length s < m \<Longrightarrow> parse_value n s = parse_value m s"
  "2 * length s + 1 < n \<Longrightarrow> 2 * length s + 1 < m \<Longrightarrow> parse_elems n s = parse_elems m s"
  "2 * length s + 1 < n \<Longrightarrow> 2 * length s + 1 < m \<Longrightarrow> parse_members n s = parse_members m s"
proof (induction n arbitrary: m s)
  case (Suc n)
  {
    case 1
    then obtain m' where m: "m = Suc m'" by (cases m) auto
    have "2 * length (skip_space (tl s)) + 1 < n \<and> 2 * length (skip_space (tl s)) + 1 < m'" if "take 1 s = [c]" for c
      using that 1 skip_length [of "tl s"] by (cases s) (auto simp: m)
    then have "take 1 s = [c] \<Longrightarrow> parse_elems n (skip_space (tl s)) = parse_elems m' (skip_space (tl s))"
      "take 1 s = [c] \<Longrightarrow> parse_members n (skip_space (tl s)) = parse_members m' (skip_space (tl s))" for c
      using Suc.IH(2,3) by blast+
    note same = this [of "CHR ''[''"] this [of "CHR ''{''"]
    show ?case unfolding m parse_value.simps
      by (intro if_cong refl arg_cong [where f = "map_option (apfst JArr)"] arg_cong [where f = "map_option (apfst json_dict_of)"] same)
  next
    case 2
    then obtain m' where m: "m = Suc m'" by (cases m) auto
    have v: "parse_value n s = parse_value m' s" using 2 by (intro Suc.IH(1)) (simp_all add: m)
    have "parse_elems n (skip_space (tl (skip_space r))) = parse_elems m' (skip_space (tl (skip_space r)))"
      if "parse_value m' s = Some (j, r)" "take 1 (skip_space r) = [c]" for j r c
      using parse_length(1) [OF that(1)] tl_skip_length [OF that(2)] 2 by (intro Suc.IH(2)) (simp_all add: m)
    then show ?case unfolding m parse_elems.simps v by (cases "parse_value m' s") auto
  next
    case 3
    then obtain m' where m: "m = Suc m'" by (cases m) auto
    have v: "parse_value n (skip_space (tl (skip_space r))) = parse_value m' (skip_space (tl (skip_space r)))"
      if "scan_string (tl s) = Some (k, r)" "take 1 (skip_space r) = [c]" for k r c
      using scan_string_length [OF that(1)] tl_skip_length [OF that(2)] 3 by (intro Suc.IH(1)) (simp_all add: m)
    have "parse_members n (skip_space (tl (skip_space r'))) = parse_members m' (skip_space (tl (skip_space r')))"
      if "scan_string (tl s) = Some (k, r)" "take 1 (skip_space r) = [c]" "parse_value m' (skip_space (tl (skip_space r))) = Some (j, r')"
        "take 1 (skip_space r') = [c']" for k r c j r' c'
      using scan_string_length [OF that(1)] tl_skip_length [OF that(2)] parse_length(1) [OF that(3)] tl_skip_length [OF that(4)] 3
      by (intro Suc.IH(3)) (simp_all add: m)
    then have member: "Option.bind (parse_value n (skip_space (tl (skip_space r)))) (\<lambda>(v, r). if take 1 (skip_space r) = '','' then
          map_option (apfst (Cons (k, v))) (parse_members n (skip_space (tl (skip_space r))))
        else if take 1 (skip_space r) = ''}'' then Some ([(k, v)], tl (skip_space r)) else None) =
      Option.bind (parse_value m' (skip_space (tl (skip_space r)))) (\<lambda>(v, r). if take 1 (skip_space r) = '','' then
          map_option (apfst (Cons (k, v))) (parse_members m' (skip_space (tl (skip_space r))))
        else if take 1 (skip_space r) = ''}'' then Some ([(k, v)], tl (skip_space r)) else None)"
      if "scan_string (tl s) = Some (k, r)" "take 1 (skip_space r) = '':''" for k r
      using that v [OF that] by (cases "parse_value m' (skip_space (tl (skip_space r)))") auto
    show ?case unfolding m parse_members.simps
    proof (intro if_cong refl)
      show "Option.bind (scan_string (tl s)) (\<lambda>(k, r). if take 1 (skip_space r) \<noteq> '':'' then None
          else Option.bind (parse_value n (skip_space (tl (skip_space r)))) (\<lambda>(v, r). if take 1 (skip_space r) = '','' then
            map_option (apfst (Cons (k, v))) (parse_members n (skip_space (tl (skip_space r))))
          else if take 1 (skip_space r) = ''}'' then Some ([(k, v)], tl (skip_space r)) else None)) =
        Option.bind (scan_string (tl s)) (\<lambda>(k, r). if take 1 (skip_space r) \<noteq> '':'' then None
          else Option.bind (parse_value m' (skip_space (tl (skip_space r)))) (\<lambda>(v, r). if take 1 (skip_space r) = '','' then
            map_option (apfst (Cons (k, v))) (parse_members m' (skip_space (tl (skip_space r))))
          else if take 1 (skip_space r) = ''}'' then Some ([(k, v)], tl (skip_space r)) else None))"
        using member by (cases "scan_string (tl s)") auto
    qed
  }
qed simp_all

section \<open>Properties\<close>

text \<open>C7: a JSON file holds what was written. For a payload whose floats are doubles and whose
dictionaries have distinct keys, parsing the text that a script wrote gives the payload with the
keys of every dictionary sorted, each number, string and list unchanged; writing the parsed value
again reproduces the file.\<close>

theorem json_file_roundtrip:
  assumes "json_ok payload"
  shows "load_json (write_json payload) = Inr (sort_keys payload) \<and> write_json (sort_keys payload) = write_json payload"
  using load_written [OF assms] by (simp_all add: write_json_def sort_keys_idem)

lemma json_file_roundtrip_witness:
  "load_json (write_json (JObj [(''b'', JArr [JInt (- 5), JFloat (Fin (1 / 2)), JNull]), (''a'', JStr [CHR 0x22, CHR 0xE9])])) =
     Inr (JObj [(''a'', JStr [CHR 0x22, CHR 0xE9]), (''b'', JArr [JInt (- 5), JFloat (Fin (1 / 2)), JNull])])"
proof -
  have "json_ok (JObj [(''b'', JArr [JInt (- 5), JFloat (Fin (1 / 2)), JNull]), (''a'', JStr [CHR 0x22, CHR 0xE9])])"
    using fl_dyadic [of 1 "- 1"] by (simp add: json_ok_parts is_double_def power_int_minus)
  from json_file_roundtrip [OF this] show ?thesis by simp
qed

end
