(* ===== verification/Paper_Phase4.thy ===== *)
theory Paper_Phase4
  imports Latex_Tables Ablation Json_Text
begin

text \<open>
  \<open>phase4_export_paper_assets.py\<close>: the tables of the paper from the metric files of the training run.
  The files were written with sorted keys, so the candidates come in the order of their names.
\<close>

section \<open>The metric file\<close>

definition json_dict :: "json \<Rightarrow> metrics result" where
  "json_dict j = (case j of JObj d \<Rightarrow> Inr d | _ \<Rightarrow> Inl TypeError)"

section \<open>The best candidate of each family\<close>

definition family_rank :: "string \<Rightarrow> nat" where
  "family_rank fam = dict_get_or 99 [(''DummyClassifier'', 0), (''RuleBasedBinaryDetector'', 1),
     (''LogisticRegression'', 2), (''RandomForestClassifier'', 3)] fam"

definition candidate_entry :: "string \<times> json \<Rightarrow> (string \<times> string \<times> metrics) result" where
  "candidate_entry = (\<lambda>(name, info). bind_result (json_dict info) (\<lambda>d.
     bind_result (bind_result (metric d ''family'') text_of) (\<lambda>fam. Inr (fam, name, d))))"

definition by_family :: "metrics \<Rightarrow> (string, (string \<times> metrics) list) pydict result" where
  "by_family payload =
     bind_result (metric payload ''candidates'') (\<lambda>j. case j of
        JObj cs \<Rightarrow> bind_result (map_result candidate_entry cs) (\<lambda>entries. Inr (group_by fst snd entries))
      | _ \<Rightarrow> Inl AttributeError)"

definition entry_key :: "(metrics \<Rightarrow> (dbl \<times> dbl) result) \<Rightarrow> string \<times> metrics \<Rightarrow> (dbl \<times> dbl) result" where
  "entry_key key = (\<lambda>(name, d). bind_result (bind_result (metric d ''val_metrics'') json_dict) key)"

definition item_family :: "metrics \<Rightarrow> string" where
  "item_family item = (case dict_get item ''family'' of Some (JStr f) \<Rightarrow> f | _ \<Rightarrow> [])"

definition pick_family_best :: "(metrics \<Rightarrow> (dbl \<times> dbl) result) \<Rightarrow> metrics \<Rightarrow> metrics list result" where
  "pick_family_best key payload =
     bind_result (by_family payload) (\<lambda>groups.
     bind_result (map_result (\<lambda>(fam, entries). bind_result (max_by (entry_key key) entries) (\<lambda>(name, d).
         Inr (dict_update [(''name'', JStr name)] d))) groups) (\<lambda>selected.
       Inr (sort_key (\<lambda>item. family_rank (item_family item)) selected)))"

definition pick_family_best_binary :: "metrics \<Rightarrow> metrics list result" where
  "pick_family_best_binary payload = pick_family_best binary_key payload"

definition pick_family_best_multiclass :: "metrics \<Rightarrow> metrics list result" where
  "pick_family_best_multiclass payload = pick_family_best multiclass_key payload"

definition optional_dict :: "json option \<Rightarrow> metrics option result" where
  "optional_dict v = (case v of None \<Rightarrow> Inr None | Some JNull \<Rightarrow> Inr None
     | Some j \<Rightarrow> bind_result (json_dict j) (\<lambda>d. Inr (Some d)))"

definition resolve_test_metrics :: "metrics \<Rightarrow> metrics \<Rightarrow> metrics option result" where
  "resolve_test_metrics payload item =
     (case dict_get item ''test_metrics'' of
        Some j \<Rightarrow> if j \<noteq> JNull then optional_dict (Some j)
          else if dict_get item ''name'' = dict_get payload ''best_model''
          then optional_dict (dict_get payload ''test_best'') else Inr None
      | None \<Rightarrow> if dict_get item ''name'' = dict_get payload ''best_model''
          then optional_dict (dict_get payload ''test_best'') else Inr None)"

section \<open>The tables\<close>

definition number_item :: "metrics \<Rightarrow> string \<Rightarrow> item result" where
  "number_item d k = bind_result (metric_float d k) (\<lambda>x. Inr (Float x))"

definition number_or_nan :: "metrics \<Rightarrow> string \<Rightarrow> item result" where
  "number_or_nan d k = bind_result (metric d k) (\<lambda>j. if j = JNull then Inr (Float NaN) else number_item d k)"

definition tested_item :: "(metrics \<Rightarrow> string \<Rightarrow> item result) \<Rightarrow> metrics option \<Rightarrow> string \<Rightarrow> item result" where
  "tested_item f t k = (case t of None \<Rightarrow> Inr (Float NaN) | Some d \<Rightarrow> f d k)"

definition text_item :: "metrics \<Rightarrow> string \<Rightarrow> item result" where
  "text_item d k = bind_result (metric d k) (\<lambda>j. Inr (json_item j))"

definition phase4_binary_row :: "metrics \<Rightarrow> metrics \<Rightarrow> item list result" where
  "phase4_binary_row payload item =
     bind_result (bind_result (metric item ''val_metrics'') json_dict) (\<lambda>v.
     bind_result (resolve_test_metrics payload item) (\<lambda>t.
       map_result (\<lambda>r. r)
         [text_item item ''family'', text_item item ''name'', number_item v ''anomaly_f1'',
          number_or_nan v ''pr_auc'', number_or_nan v ''roc_auc'',
          tested_item number_item t ''anomaly_f1'', tested_item number_or_nan t ''pr_auc'',
          tested_item number_or_nan t ''roc_auc'', tested_item number_item t ''balanced_accuracy'']))"

definition phase4_multiclass_row :: "metrics \<Rightarrow> metrics \<Rightarrow> item list result" where
  "phase4_multiclass_row payload item =
     bind_result (bind_result (metric item ''val_metrics'') json_dict) (\<lambda>v.
     bind_result (resolve_test_metrics payload item) (\<lambda>t.
       map_result (\<lambda>r. r)
         [text_item item ''family'', text_item item ''name'', number_item v ''macro_f1'',
          number_item v ''balanced_accuracy'', tested_item number_item t ''macro_f1'',
          tested_item number_item t ''balanced_accuracy'', tested_item number_item t ''accuracy'']))"

definition phase4_binary_rows :: "metrics \<Rightarrow> item list list result" where
  "phase4_binary_rows payload =
     bind_result (pick_family_best_binary payload) (map_result (phase4_binary_row payload))"

definition phase4_multiclass_rows :: "metrics \<Rightarrow> item list list result" where
  "phase4_multiclass_rows payload =
     bind_result (pick_family_best_multiclass payload) (map_result (phase4_multiclass_row payload))"

definition per_class_row :: "string \<times> json \<Rightarrow> item list result" where
  "per_class_row = (\<lambda>(label, j). bind_result (json_dict j) (\<lambda>d.
     map_result (\<lambda>r. r)
       [Inr (Text label), number_item d ''precision'', number_item d ''recall'', number_item d ''f1'',
        bind_result (metric d ''support'') (\<lambda>s. case s of JInt n \<Rightarrow> Inr (Whole n)
          | JFloat x \<Rightarrow> bind_result (dtrunc x) (\<lambda>n. Inr (Whole n)) | _ \<Rightarrow> Inl TypeError)]))"

definition per_class_rows :: "metrics \<Rightarrow> item list list result" where
  "per_class_rows payload =
     bind_result (bind_result (metric payload ''test_best'') json_dict) (\<lambda>tb.
     bind_result (metric tb ''per_class'') (\<lambda>j. case j of
        JObj cs \<Rightarrow> map_result per_class_row (sort_key fst cs) | _ \<Rightarrow> Inl AttributeError))"

definition PHASE4_BINARY_HEADER :: "string list" where
  "PHASE4_BINARY_HEADER = [''family'', ''model_name'', ''val_anomaly_f1'', ''val_pr_auc'', ''val_roc_auc'',
     ''test_anomaly_f1'', ''test_pr_auc'', ''test_roc_auc'', ''test_balanced_accuracy'']"

definition PHASE4_MULTICLASS_HEADER :: "string list" where
  "PHASE4_MULTICLASS_HEADER = [''family'', ''model_name'', ''val_macro_f1'', ''val_balanced_accuracy'',
     ''test_macro_f1'', ''test_balanced_accuracy'', ''test_accuracy'']"

definition PER_CLASS_HEADER :: "string list" where
  "PER_CLASS_HEADER = [''label'', ''precision'', ''recall'', ''f1'', ''support'']"

definition PHASE4_SOURCES :: "string list" where
  "PHASE4_SOURCES = [''binary_metrics.json'', ''multiclass_metrics.json'', ''binary_confusion_matrix.csv'',
     ''multiclass_confusion_matrix.csv'', ''binary_predictions_val.csv'', ''binary_predictions_test.csv'',
     ''multiclass_predictions_val.csv'', ''multiclass_predictions_test.csv'', ''feature_columns.json'',
     ''run_manifest.json'', ''baseline_summary.md'']"

definition phase4_assets :: "(string \<Rightarrow> string result) \<Rightarrow> metrics \<Rightarrow> metrics \<Rightarrow> (string \<times> asset result) list" where
  "phase4_assets read_file binary multiclass =
     map (\<lambda>n. (n, bind_result (read_file n) (\<lambda>c. Inr (Copied c)))) PHASE4_SOURCES @
     table_pair latex_table_phase4 ''table_phase4_binary_main'' ''Phase 4 binary anomaly detection baseline results.''
       ''tab:phase4_binary_main'' PHASE4_BINARY_HEADER (phase4_binary_rows binary) @
     table_pair latex_table_phase4 ''table_phase4_multiclass_main''
       ''Phase 4 multiclass anomaly classification baseline results.''
       ''tab:phase4_multiclass_main'' PHASE4_MULTICLASS_HEADER (phase4_multiclass_rows multiclass) @
     table_pair latex_table_phase4 ''table_phase4_multiclass_per_class''
       ''Per-class multiclass anomaly detection results on the test split.''
       ''tab:phase4_multiclass_per_class'' PER_CLASS_HEADER (per_class_rows multiclass)"

text \<open>The metric files are parsed from the texts that are copied as well.\<close>

definition load_dict :: "(string \<Rightarrow> string result) \<Rightarrow> string \<Rightarrow> metrics result" where
  "load_dict read_file name = bind_result (bind_result (read_file name) load_json) json_dict"

definition phase4_export_main :: "(string \<Rightarrow> string result) \<Rightarrow> (string \<times> asset) list \<times> unit result" where
  "phase4_export_main read_file =
     (case bind_result (load_dict read_file ''binary_metrics.json'') (\<lambda>binary.
           bind_result (load_dict read_file ''multiclass_metrics.json'') (\<lambda>multiclass.
           bind_result (bind_result (read_file ''run_manifest.json'') load_json) (\<lambda>_.
             Inr (phase4_assets read_file binary multiclass)))) of
        Inl e \<Rightarrow> ([], Inl e)
      | Inr files \<Rightarrow> write_all files)"

section \<open>Lemmas\<close>

lemma map_of_filter: "map_of xs k = (case filter (\<lambda>p. fst p = k) xs of [] \<Rightarrow> None | p # _ \<Rightarrow> Some (snd p))"
  by (induction xs) auto

lemma dict_get_sort: "dict_get (sort_key fst ms) k = dict_get ms k"
  unfolding dict_get_def map_of_filter [of "sort_key fst ms"] map_of_filter [of ms]
  by (simp add: sort_key_stable)

lemma dict_get_map_prod: "dict_get (map (map_prod id f) ms) k = map_option f (dict_get ms k)"
  by (induction ms) (auto simp: dict_get_def)

definition sorted_dict :: "metrics \<Rightarrow> metrics" where
  "sorted_dict ms = sort_key fst (map (map_prod id sort_keys) ms)"

lemma sort_keys_JObj: "sort_keys (JObj ms) = JObj (sorted_dict ms)"
  by (simp add: sorted_dict_def)

lemma get_sorted_dict: "dict_get (sorted_dict ms) k = map_option sort_keys (dict_get ms k)"
  by (simp add: sorted_dict_def dict_get_sort dict_get_map_prod)

lemma metric_sorted: "metric (sorted_dict ms) k = map_sum id sort_keys (metric ms k)"
  by (simp add: metric_def dict_index_def get_sorted_dict split: option.split)

lemma sort_keys_scalar [simp]: "json_float (sort_keys j) = json_float j" "sort_keys j = JNull \<longleftrightarrow> j = JNull"
  by (cases j; simp add: json_float_def)+

lemma binary_key_sorted: "binary_key (sorted_dict ms) = binary_key ms"
  by (simp add: binary_key_def metric_sorted bind_result_def split: sum.splits)

lemma keys_sorted_dict: "mset (dict_keys (sorted_dict ms)) = mset (dict_keys ms)"
proof -
  have "mset (map fst (sort_key fst xs)) = mset (map fst xs)" for xs :: "(string \<times> json) list"
    by (metis mset_map mset_sort)
  moreover have "map fst (map (map_prod id sort_keys) ms) = map fst ms" by simp
  ultimately show ?thesis by (simp only: sorted_dict_def dict_keys_def)
qed

lemma dict_wf_sorted: "dict_wf (sorted_dict ms) = dict_wf ms"
  using mset_eq_imp_distinct_iff [OF keys_sorted_dict [of ms]] by (simp add: dict_wf_def dict_keys_def)

lemma set_keys_sorted: "set (dict_keys (sorted_dict ms)) = set (dict_keys ms)"
  using arg_cong [OF keys_sorted_dict [of ms], of set_mset] by simp

text \<open>A candidate as the export reads it back.\<close>

definition candidate_dict :: "('y, 's, 'e) model_result \<Rightarrow> metrics" where
  "candidate_dict r = sorted_dict [(''family'', JStr (family r)), (''config'', JObj (config r)),
     (''val_metrics'', JObj (val_metrics r)), (''test_metrics'', opt_metrics (test_metrics r))]"

lemma sort_keys_candidate: "sort_keys (candidate_json r) = JObj (candidate_dict r)"
  by (simp add: candidate_json_def candidate_dict_def sort_keys_JObj del: sort_keys.simps)

lemma candidate_dict_gets:
  "dict_get (candidate_dict r) ''family'' = Some (JStr (family r))"
  "dict_get (candidate_dict r) ''val_metrics'' = Some (JObj (sorted_dict (val_metrics r)))"
  "test_metrics r = None \<Longrightarrow> dict_get (candidate_dict r) ''test_metrics'' = Some JNull"
  by (simp_all add: candidate_dict_def get_sorted_dict dict_get_def [of "_ # _"] opt_metrics_def
      sort_keys_JObj del: sort_keys.simps(7))

lemma candidate_dict_keys: "dict_wf (candidate_dict r)" "''name'' \<notin> set (dict_keys (candidate_dict r))"
  by (simp_all add: candidate_dict_def dict_wf_sorted set_keys_sorted, simp_all add: dict_wf_def dict_keys_def)

lemma candidate_entry_dict:
  "candidate_entry (n, sort_keys (candidate_json r)) = Inr (family r, n, candidate_dict r)"
  by (simp add: sort_keys_candidate candidate_entry_def json_dict_def metric_def dict_index_def candidate_dict_gets
      text_of_def)

lemma entry_key_dict: "entry_key binary_key (n, candidate_dict r) = binary_key (val_metrics r)"
  by (simp add: entry_key_def metric_def dict_index_def candidate_dict_gets json_dict_def binary_key_sorted)

lemma named_item:
  "dict_get (dict_update [(''name'', JStr n)] (candidate_dict r)) ''name'' = Some (JStr n)"
  "dict_get (candidate_dict r) k = Some v \<Longrightarrow> dict_get (dict_update [(''name'', JStr n)] (candidate_dict r)) k = Some v"
proof -
  show "dict_get (dict_update [(''name'', JStr n)] (candidate_dict r)) ''name'' = Some (JStr n)"
    unfolding dict_get_update_notin [OF candidate_dict_keys(2)] by (simp add: dict_get_def)
qed (rule dict_get_update_in [OF candidate_dict_keys(1)])

text \<open>The payload of a training run after the way through the file.\<close>

lemma loaded_payload:
  assumes "distinct (map model_name rs)"
    and "sort_keys (with_test_best tm (results_to_payload rs best)) = JObj p"
  shows "dict_get p ''best_model'' = Some (JStr best)"
    and "by_family p = Inr (map (\<lambda>k. (k, map (\<lambda>r. (model_name r, candidate_dict r))
        (filter (\<lambda>r. family r = k) (sort_key model_name rs)))) (uniq (map family (sort_key model_name rs))))"
proof -
  have p: "p = sorted_dict [(''best_model'', JStr best), (''candidates'', JObj (candidates_json rs)),
      (''test_best'', opt_metrics tm)]"
    using assms(2) by (simp add: with_test_best_def results_to_payload_def dict_set_def sort_keys_JObj del: sort_keys.simps)
  show "dict_get p ''best_model'' = Some (JStr best)"
    by (simp add: p get_sorted_dict dict_get_def [of "_ # _"])
  let ?es = "map (\<lambda>r. (model_name r, sort_keys (candidate_json r))) (sort_key model_name rs)"
  have "metric p ''candidates'' = Inr (JObj (sorted_dict (candidates_json rs)))"
    by (simp add: p metric_def dict_index_def get_sorted_dict dict_get_def [of "_ # _"] sort_keys_JObj del: sort_keys.simps)
  moreover have "sorted_dict (candidates_json rs) = ?es"
    unfolding candidates_json_eq [OF assms(1)] sorted_dict_def by (simp add: comp_def sort_key_map)
  moreover have "map_result candidate_entry (map (\<lambda>r. (model_name r, sort_keys (candidate_json r))) xs) =
      Inr (map (\<lambda>r. (family r, model_name r, candidate_dict r)) xs)" for xs :: "('a, 'b, 'c) model_result list"
    by (induction xs) (simp_all add: candidate_entry_dict)
  ultimately show "by_family p = Inr (map (\<lambda>k. (k, map (\<lambda>r. (model_name r, candidate_dict r))
        (filter (\<lambda>r. family r = k) (sort_key model_name rs)))) (uniq (map family (sort_key model_name rs))))"
    by (simp add: by_family_def group_by_eq filter_map comp_def)
qed

lemma max_by_in: "max_by key xs = Inr m \<Longrightarrow> m \<in> set xs"
proof -
  assume "max_by key xs = Inr m"
  then obtain kxs kx where k: "map_result (\<lambda>x. bind_result (key x) (\<lambda>k. Inr (k, x))) xs = Inr kxs"
    "py_max dlt_pair fst kxs = Inr kx" "m = snd kx"
    by (auto simp: max_by_def bind_result_Inr)
  from map_result_elem [OF k(1) pair_order.max_in [OF k(2)]] k(3) show "m \<in> set xs"
    by (auto simp: bind_result_Inr)
qed

text \<open>The entry of one family that the table shows.\<close>

lemma family_item:
  assumes "distinct (map model_name rs)"
    and "sort_keys (with_test_best tm (results_to_payload rs best)) = JObj p"
    and "pick_family_best_binary p = Inr items" and "item \<in> set items"
  shows "\<exists>k m. m \<in> set rs \<and> family m = k \<and> item = dict_update [(''name'', JStr (model_name m))] (candidate_dict m) \<and>
    max_by (entry_key binary_key) (map (\<lambda>r. (model_name r, candidate_dict r))
      (filter (\<lambda>r. family r = k) (sort_key model_name rs))) = Inr (model_name m, candidate_dict m)"
proof -
  let ?es = "\<lambda>k. map (\<lambda>r. (model_name r, candidate_dict r)) (filter (\<lambda>r. family r = k) (sort_key model_name rs))"
  from assms(3) obtain selected where items: "items = sort_key (\<lambda>i. family_rank (item_family i)) selected"
    and sel: "map_result (\<lambda>(fam, entries). bind_result (max_by (entry_key binary_key) entries) (\<lambda>(name, d).
         Inr (dict_update [(''name'', JStr name)] d))) (map (\<lambda>k. (k, ?es k)) (uniq (map family (sort_key model_name rs)))) = Inr selected"
    by (auto simp: pick_family_best_binary_def pick_family_best_def loaded_payload(2) [OF assms(1,2)] bind_result_Inr)
  have "item \<in> set selected" using assms(4) by (simp add: items)
  from map_result_elem [OF sel this] obtain k n d where
    m: "max_by (entry_key binary_key) (?es k) = Inr (n, d)" "item = dict_update [(''name'', JStr n)] d"
    by (auto simp: bind_result_Inr)
  from max_by_in [OF m(1)] obtain r where r: "r \<in> set rs" "family r = k" "(n, d) = (model_name r, candidate_dict r)"
    by auto
  then show ?thesis using m by blast
qed

lemma tie_earlier_wins:
  assumes d: "distinct (map model_name rs)" and b: "b \<in> set rs" and r: "r \<in> set rs" "family r = family b"
    "model_name r < model_name b" "binary_key (val_metrics r) = binary_key (val_metrics b)"
    and keys: "\<forall>x \<in> set rs. \<exists>k. binary_key (val_metrics x) = Inr k \<and> no_nan_pair k"
    and m: "m \<in> set rs" "max_by (entry_key binary_key) (map (\<lambda>r. (model_name r, candidate_dict r))
      (filter (\<lambda>r. family r = family m) (sort_key model_name rs))) = Inr (model_name m, candidate_dict m)"
  shows "model_name m \<noteq> model_name b"
proof
  assume "model_name m = model_name b"
  then have mb: "m = b" using d b m(1) by (metis distinct_map inj_onD)
  let ?L = "filter (\<lambda>r. family r = family m) (sort_key model_name rs)"
  let ?es = "map (\<lambda>r. (model_name r, candidate_dict r)) ?L"
  have ok: "\<exists>k. entry_key binary_key x = Inr k \<and> no_nan_pair k" if "x \<in> set ?es" for x
    using that keys by (auto simp: entry_key_dict)
  from max_by_first [OF ok m(2)] obtain us vs where es: "?es = us @ (model_name m, candidate_dict m) # vs"
    and us: "\<forall>u \<in> set us. dlt_pair (projr (entry_key binary_key u))
        (projr (entry_key binary_key (model_name m, candidate_dict m)))" by blast
  have "map fst ?es = map model_name ?L" by simp
  moreover have "sorted (map model_name ?L)" by (rule sorted_filter) simp
  ultimately have "sorted (map fst (us @ (model_name m, candidate_dict m) # vs))" unfolding es [symmetric] by (simp only:)
  then have "\<forall>v \<in> set vs. model_name m \<le> fst v" by (simp add: sorted_append)
  then have "(model_name r, candidate_dict r) \<notin> set vs" using r(3) mb by auto
  moreover have "(model_name r, candidate_dict r) \<in> set ?es" using r(1,2) mb by auto
  ultimately have "(model_name r, candidate_dict r) \<in> set us" using r(3) mb unfolding es by auto
  from bspec [OF us this] have "dlt_pair (projr (binary_key (val_metrics r))) (projr (binary_key (val_metrics m)))"
    by (simp only: entry_key_dict)
  moreover obtain k where "binary_key (val_metrics r) = Inr k" "no_nan_pair k" using keys r(1) by blast
  ultimately show False using r(4) mb pair_order.irrefl [of k] by simp
qed

lemma untested_row:
  assumes "resolve_test_metrics p item = Inr None" and "phase4_binary_row p item = Inr row"
  shows "length row = 9" and "drop 5 row = replicate 4 (Float NaN)"
  using assms by (auto simp: phase4_binary_row_def bind_result_Inr tested_item_def numeral_eq_Suc)

text \<open>In a tie, no item of the table resolves to test metrics.\<close>

lemma tied_item:
  assumes rs: "fit_binary_candidates P L M tr va trx vax seed = Inr rs"
    and best: "choose_best_binary rs = Inr b0" "test_binary P L M te tex y_test b0 = Inr b"
    and r: "r \<in> set rs" "family r = family b0" "model_name r < model_name b0"
      "binary_key (val_metrics r) = binary_key (val_metrics b0)"
    and nan: "\<forall>x \<in> set rs. \<forall>k. binary_key (val_metrics x) = Inr k \<longrightarrow> no_nan_pair k"
    and p: "sort_keys (with_test_best (test_metrics b) (results_to_payload (replace_result b rs) (model_name b))) = JObj p"
    and items: "pick_family_best_binary p = Inr items" "item \<in> set items"
  shows "\<exists>m \<in> set (replace_result b rs). item = dict_update [(''name'', JStr (model_name m))] (candidate_dict m) \<and>
    model_name m \<noteq> model_name b \<and> resolve_test_metrics p item = Inr None \<and>
    (\<exists>y ps s. binary_metrics M y ps s = Inr (val_metrics m))"
proof -
  let ?rs = "replace_result b rs"
  note same = test_binary_same [OF best(2)]
  have b0: "b0 \<in> set rs" using max_by_in best(1) by (simp add: choose_best_binary_def)
  have names: "map model_name ?rs = binary_names" using binary_candidates(1) [OF rs] by simp
  then have dist: "distinct (map model_name ?rs)" using names_distinct(1) by simp
  have br: "b \<in> set ?rs" using b0 same by (auto simp: replace_result_def intro!: image_eqI [of _ _ b0])
  have rr: "r \<in> set ?rs" using r(1,3) same by (auto simp: replace_result_def intro!: image_eqI [of _ _ r])
  have mets: "\<forall>x \<in> set ?rs. \<exists>y ps s. binary_metrics M y ps s = Inr (val_metrics x)"
    using binary_candidates(2) [OF rs] b0 same by (auto simp: replace_result_def)
  have keys: "\<forall>x \<in> set ?rs. \<exists>k. binary_key (val_metrics x) = Inr k \<and> no_nan_pair k"
    using binary_candidates(2) [OF rs] nan b0 same binary_key_metrics
    by (auto simp: replace_result_def) metis+
  from family_item [OF dist p items] obtain m where m: "m \<in> set ?rs"
    "item = dict_update [(''name'', JStr (model_name m))] (candidate_dict m)"
    "max_by (entry_key binary_key) (map (\<lambda>r. (model_name r, candidate_dict r))
      (filter (\<lambda>r. family r = family m) (sort_key model_name ?rs))) = Inr (model_name m, candidate_dict m)" by blast
  have ne: "model_name m \<noteq> model_name b"
    using tie_earlier_wins [OF dist br rr _ _ _ keys m(1,3)] r(2-4) same by simp
  then have "test_metrics m = None"
    using m(1) untested_candidates [OF rs] by (auto simp: replace_result_def)
  then have "dict_get item ''test_metrics'' = Some JNull"
    unfolding m(2) by (intro named_item(2) candidate_dict_gets(3))
  moreover have "dict_get item ''name'' = Some (JStr (model_name m))"
    unfolding m(2) by (rule named_item(1))
  ultimately have "resolve_test_metrics p item = Inr None"
    using ne by (simp add: resolve_test_metrics_def loaded_payload(1) [OF dist p])
  then show ?thesis using m(1,2) ne mets by blast
qed

section \<open>Without an earlier tie\<close>

lemma map_result_member: "map_result f xs = Inr ys \<Longrightarrow> x \<in> set xs \<Longrightarrow> \<exists>y \<in> set ys. f x = Inr y"
  by (induction xs arbitrary: ys) (auto simp: bind_result_Inr)

lemma family_item_of:
  assumes "distinct (map model_name rs)"
    and "sort_keys (with_test_best tm (results_to_payload rs best)) = JObj p"
    and "pick_family_best_binary p = Inr items" and "r \<in> set rs"
  shows "\<exists>m \<in> set rs. family m = family r \<and> dict_update [(''name'', JStr (model_name m))] (candidate_dict m) \<in> set items \<and>
    max_by (entry_key binary_key) (map (\<lambda>x. (model_name x, candidate_dict x))
      (filter (\<lambda>x. family x = family m) (sort_key model_name rs))) = Inr (model_name m, candidate_dict m)"
proof -
  let ?es = "\<lambda>k. map (\<lambda>r. (model_name r, candidate_dict r)) (filter (\<lambda>r. family r = k) (sort_key model_name rs))"
  from assms(3) obtain selected where items: "items = sort_key (\<lambda>i. family_rank (item_family i)) selected"
    and sel: "map_result (\<lambda>(fam, entries). bind_result (max_by (entry_key binary_key) entries) (\<lambda>(name, d).
         Inr (dict_update [(''name'', JStr name)] d))) (map (\<lambda>k. (k, ?es k)) (uniq (map family (sort_key model_name rs)))) = Inr selected"
    by (auto simp: pick_family_best_binary_def pick_family_best_def loaded_payload(2) [OF assms(1,2)] bind_result_Inr)
  have "(family r, ?es (family r)) \<in> set (map (\<lambda>k. (k, ?es k)) (uniq (map family (sort_key model_name rs))))"
    using assms(4) by auto
  from map_result_member [OF sel this] obtain n d where
    m: "max_by (entry_key binary_key) (?es (family r)) = Inr (n, d)" "dict_update [(''name'', JStr n)] d \<in> set items"
    by (auto simp: bind_result_Inr items)
  from max_by_in [OF m(1)] obtain x where "x \<in> set rs" "family x = family r" "(n, d) = (model_name x, candidate_dict x)"
    by auto
  then show ?thesis using m by auto
qed

lemma best_wins:
  assumes d: "distinct (map model_name rs)" and b: "b \<in> set rs"
    and keys: "\<forall>x \<in> set rs. \<exists>k. binary_key (val_metrics x) = Inr k \<and> no_nan_pair k"
    and top: "\<forall>x \<in> set rs. \<not> dlt_pair (projr (binary_key (val_metrics b))) (projr (binary_key (val_metrics x)))"
    and untied: "\<forall>x \<in> set rs. family x = family b \<and>
      \<not> dlt_pair (projr (binary_key (val_metrics x))) (projr (binary_key (val_metrics b))) \<longrightarrow> model_name b \<le> model_name x"
    and m: "m \<in> set rs" "family m = family b" "max_by (entry_key binary_key) (map (\<lambda>r. (model_name r, candidate_dict r))
      (filter (\<lambda>r. family r = family m) (sort_key model_name rs))) = Inr (model_name m, candidate_dict m)"
  shows "m = b"
proof -
  let ?L = "filter (\<lambda>r. family r = family m) (sort_key model_name rs)"
  let ?es = "map (\<lambda>r. (model_name r, candidate_dict r)) ?L"
  have ok: "\<exists>k. entry_key binary_key x = Inr k \<and> no_nan_pair k" if "x \<in> set ?es" for x
    using that keys by (auto simp: entry_key_dict)
  have "\<exists>us vs. ?es = us @ (model_name m, candidate_dict m) # vs \<and>
      (\<forall>u \<in> set us. dlt_pair (projr (entry_key binary_key u)) (projr (entry_key binary_key (model_name m, candidate_dict m)))) \<and>
      (\<forall>x \<in> set ?es. \<not> dlt_pair (projr (entry_key binary_key (model_name m, candidate_dict m))) (projr (entry_key binary_key x)))"
    by (rule max_by_first [OF _ m(3)]) (rule ok)
  then obtain us vs where es: "?es = us @ (model_name m, candidate_dict m) # vs"
    and us: "\<forall>u \<in> set us. dlt_pair (projr (entry_key binary_key u)) (projr (entry_key binary_key (model_name m, candidate_dict m)))"
    and ge: "\<forall>x \<in> set ?es. \<not> dlt_pair (projr (entry_key binary_key (model_name m, candidate_dict m))) (projr (entry_key binary_key x))"
    by (elim exE conjE)
  have be: "(model_name b, candidate_dict b) \<in> set ?es" using b m(2) by auto
  have le: "model_name b \<le> model_name m"
    using untied m(1,2) bspec [OF ge be] by (simp add: entry_key_dict)
  have "map fst ?es = map model_name ?L" by simp
  moreover have "sorted (map model_name ?L)" by (rule sorted_filter) simp
  ultimately have "sorted (map fst (us @ (model_name m, candidate_dict m) # vs))" unfolding es [symmetric] by (simp only:)
  then have after: "\<forall>v \<in> set vs. model_name m \<le> fst v" by (simp add: sorted_append)
  have "(model_name b, candidate_dict b) \<notin> set us"
    using us top m(1) by (auto simp: entry_key_dict)
  then have "(model_name b, candidate_dict b) \<in> insert (model_name m, candidate_dict m) (set vs)"
    using be unfolding es by auto
  then have "model_name m \<le> model_name b" using after by auto
  then have "model_name m = model_name b" using le by simp
  then show ?thesis using d b m(1) by (metis distinct_map inj_onD)
qed

text \<open>A row with test metrics.\<close>

definition opt_item :: "dbl option \<Rightarrow> item" where
  "opt_item x = (case x of None \<Rightarrow> Float NaN | Some d \<Rightarrow> Float d)"

lemma number_items:
  "dict_get d k = Some (JFloat x) \<Longrightarrow> number_item (sorted_dict d) k = Inr (Float x)"
  "dict_get d k = Some (opt_float y) \<Longrightarrow> number_or_nan (sorted_dict d) k = Inr (opt_item y)"
  by (cases y; simp add: number_or_nan_def number_item_def metric_float_def metric_def dict_index_def get_sorted_dict
      json_float_def opt_float_def opt_item_def)+

definition shows_metrics :: "metrics \<Rightarrow> item list \<Rightarrow> bool" where
  "shows_metrics d cells \<longleftrightarrow> (\<exists>f pr roc bal. dict_get d ''anomaly_f1'' = Some (JFloat f) \<and>
     dict_get d ''pr_auc'' = Some (opt_float pr) \<and> dict_get d ''roc_auc'' = Some (opt_float roc) \<and>
     dict_get d ''balanced_accuracy'' = Some (JFloat bal) \<and> cells = [Float f, opt_item pr, opt_item roc, Float bal])"

lemma all_metric_fields:
  "binary_metrics M y ps s = Inr d \<Longrightarrow> \<exists>f pr roc bal. dict_get d ''anomaly_f1'' = Some (JFloat f) \<and>
     dict_get d ''pr_auc'' = Some (opt_float pr) \<and> dict_get d ''roc_auc'' = Some (opt_float roc) \<and>
     dict_get d ''balanced_accuracy'' = Some (JFloat bal)"
  by (auto simp: binary_metrics_def score_entries_def bind_result_Inr dict_get_def)

lemma tested_row:
  assumes "binary_metrics M y ps s = Inr (val_metrics m)" and "binary_metrics M y' ps' s' = Inr tm"
    and "item = dict_update [(''name'', JStr (model_name m))] (candidate_dict m)"
    and "resolve_test_metrics p item = Inr (Some (sorted_dict tm))"
  shows "\<exists>val test. phase4_binary_row p item = Inr ([Text (family m), Text (model_name m)] @ val @ test) \<and>
    length val = 3 \<and> shows_metrics tm test"
proof -
  have get: "dict_get item k = Some v" if "dict_get (candidate_dict m) k = Some v" for k v
    unfolding assms(3) using that by (rule named_item(2))
  have n: "dict_get item ''name'' = Some (JStr (model_name m))"
    unfolding assms(3) by (rule named_item(1))
  obtain f pr roc where "number_item (sorted_dict (val_metrics m)) ''anomaly_f1'' = Inr (Float f)"
    "number_or_nan (sorted_dict (val_metrics m)) ''pr_auc'' = Inr (opt_item pr)"
    "number_or_nan (sorted_dict (val_metrics m)) ''roc_auc'' = Inr (opt_item roc)"
    using all_metric_fields [OF assms(1)] number_items by (elim exE conjE) blast
  moreover obtain f' pr' roc' bal' where t: "dict_get tm ''anomaly_f1'' = Some (JFloat f')"
    "dict_get tm ''pr_auc'' = Some (opt_float pr')" "dict_get tm ''roc_auc'' = Some (opt_float roc')"
    "dict_get tm ''balanced_accuracy'' = Some (JFloat bal')"
    using all_metric_fields [OF assms(2)] by (elim exE conjE)
  moreover have "shows_metrics tm [Float f', opt_item pr', opt_item roc', Float bal']"
    unfolding shows_metrics_def using t by (intro exI conjI) simp_all
  ultimately show ?thesis
    using get [OF candidate_dict_gets(1)] get [OF candidate_dict_gets(2)] n assms(4)
    by (intro exI [of _ "[Float f, opt_item pr, opt_item roc]"] exI [of _ "[Float f', opt_item pr', opt_item roc', Float bal']"])
      (simp add: phase4_binary_row_def text_item_def metric_def dict_index_def json_dict_def tested_item_def json_item_def
        number_items)
qed

section \<open>Properties\<close>

text \<open>C28: a tie hides the chosen model from the paper. When another candidate of the best two-class
model's family has the same validation key and a name that sorts earlier, the exported table shows
that candidate (or another one) in the family's row: no row carries the name of the model the
training run chose, and every row has NaN in all four test columns, although the test metrics are in
the file.\<close>

theorem tied_best_model_not_exported:
  assumes rs: "fit_binary_candidates P L M tr va trx vax seed = Inr rs"
    and best: "choose_best_binary rs = Inr b0" "test_binary P L M te tex y_test b0 = Inr b"
    and r: "r \<in> set rs" "family r = family b0" "model_name r < model_name b0"
      "binary_key (val_metrics r) = binary_key (val_metrics b0)"
    and nan: "\<forall>x \<in> set rs. \<forall>k. binary_key (val_metrics x) = Inr k \<longrightarrow> no_nan_pair k"
    and p: "sort_keys (with_test_best (test_metrics b) (results_to_payload (replace_result b rs) (model_name b))) = JObj p"
    and rows: "phase4_binary_rows p = Inr rows"
  shows "\<forall>row \<in> set rows. \<exists>fam name val. row = [Text fam, Text name] @ val @ replicate 4 (Float NaN) \<and>
    name \<noteq> model_name b"
proof
  fix row assume row: "row \<in> set rows"
  from rows obtain items where items: "pick_family_best_binary p = Inr items"
    "map_result (phase4_binary_row p) items = Inr rows"
    by (auto simp: phase4_binary_rows_def bind_result_Inr)
  from map_result_elem [OF items(2) row] obtain item where item: "item \<in> set items" "phase4_binary_row p item = Inr row"
    by blast
  from tied_item [OF rs best r nan p items(1) item(1)] obtain m where
    m0: "m \<in> set (replace_result b rs)" and m: "item = dict_update [(''name'', JStr (model_name m))] (candidate_dict m)" "model_name m \<noteq> model_name b"
      "resolve_test_metrics p item = Inr None" by blast
  note u = untested_row [OF m(3) item(2)]
  have "dict_get item ''family'' = Some (JStr (family m))"
    unfolding m(1) by (intro named_item(2) candidate_dict_gets(1))
  moreover have "dict_get item ''name'' = Some (JStr (model_name m))"
    unfolding m(1) by (rule named_item(1))
  ultimately have "take 2 row = [Text (family m), Text (model_name m)]"
    using item(2)
    by (auto simp: phase4_binary_row_def bind_result_Inr text_item_def metric_def dict_index_def json_item_def)
  moreover have "row = take 2 row @ take 3 (drop 2 row) @ drop 5 row"
    using append_take_drop_id [of 3 "drop 2 row"] by simp
  ultimately show "\<exists>fam name val. row = [Text fam, Text name] @ val @ replicate 4 (Float NaN) \<and> name \<noteq> model_name b"
    using u(2) m(2) by metis
qed

subsection \<open>Witnesses\<close>

text \<open>A learner whose forests answer with a class of their own, and a scorer that prefers it: all forests
tie.\<close>

definition forest_learner :: "(tframe, int, nat) learner" where
  "forest_learner = (demo_learner 0)\<lparr>predict := \<lambda>e x. Inr (replicate (rows_of x) (if e = 2 then 2 else 0))\<rparr>"

definition forest_scorer :: "int scorer" where
  "forest_scorer = demo_scorer\<lparr>fscore_each := \<lambda>labels y_true y_pred.
     let s = map (\<lambda>_. Fin (if y_pred = [2] then 1 else 0)) labels in
     Inr (s, s, s, map (\<lambda>l. int (count_list y_true l)) labels)\<rparr>"

lemma first_of_ties:
  assumes "\<And>x. x \<in> set A \<Longrightarrow> \<exists>k. key x = Inr k \<and> dlt_pair k K" and "\<And>x. x \<in> set (f # B) \<Longrightarrow> key x = Inr K"
    and "\<not> dlt_pair K K"
  shows "max_by key (A @ f # B) = Inr f"
proof -
  let ?g = "\<lambda>x. (projr (key x), x)"
  have after: "py_max_from dlt_pair fst (K, f) (map ?g B) = (K, f)"
    using assms(2,3) by (induction B) auto
  have before: "py_max_from dlt_pair fst y (map ?g A @ (K, f) # map ?g B) = (K, f)" if "dlt_pair (fst y) K" for y
    using that assms(1)
  proof (induction A arbitrary: y)
    case (Cons a A)
    then have "dlt_pair (fst (?g a)) K" by force
    then show ?case using Cons by simp
  qed (simp add: after)
  have max: "py_max dlt_pair fst (map ?g (A @ f # B)) = Inr (K, f)"
  proof (cases A)
    case Nil
    then show ?thesis using after assms(2) by simp
  next
    case (Cons a A')
    then have "dlt_pair (fst (?g a)) K" using assms(1) by force
    moreover have "\<forall>x \<in> set A'. \<exists>k. key x = Inr k \<and> dlt_pair k K" using assms(1) Cons by simp
    ultimately show ?thesis using before [of "?g a"] assms(2) Cons by simp
  qed
  have "\<exists>k. key x = Inr k" if "x \<in> set (A @ f # B)" for x
    using that assms(1,2) by (metis Un_iff set_append)
  then have "max_by key (A @ f # B) = bind_result (py_max dlt_pair fst (map ?g (A @ f # B))) (\<lambda>kx. Inr (snd kx))"
    by (rule max_by_keys)
  then show ?thesis by (simp only: max bind_result_simps snd_conv)
qed

lemma forest_metrics: "\<exists>d. binary_metrics forest_scorer [0] p s = Inr d \<and>
    binary_key d = Inr (Fin (if p = [2] then 1 else 0), Fin (- 1))"
proof -
  obtain q where "hit_share [0] p = Inr (Fin q)" using hit_share_one [of 0 p] by auto
  then show ?thesis
    by (cases s) (simp_all add: binary_metrics_def score_entries_def forest_scorer_def demo_scorer_def item_at_def
        ranking_scores_def binary_key_def metric_def dict_index_def dict_get_def json_float_def opt_float_def Let_def uniq_def)
qed

lemma rules_key: "\<exists>r. try_rules tables forest_scorer (one_window 0) (one_window 0) [0] = Inr r \<and>
    binary_key (val_metrics r) = Inr (Fin 0, Fin (- 1))"
proof -
  obtain det where det: "rule_fit tables new_detector (one_window 0) = Inr det" using one_window_fit by blast
  obtain tss where t: "rule_triggers tables det (one_window 0) = Inr tss" using one_window_triggers by blast
  obtain pred where pred: "rule_predict tables det (one_window 0) = Inr pred"
    by (simp add: rule_predict_def score_samples_def t)
  then have ne: "pred \<noteq> [2]"
    by (auto simp: rule_predict_def score_samples_def t map_eq_Cons_conv Cons_eq_map_conv split: if_splits)
  obtain proba where proba: "rule_predict_proba tables det (one_window 0) = Inr proba"
    by (simp add: rule_predict_proba_def score_samples_def t)
  from forest_metrics [of pred "Some (map snd proba)"] ne show ?thesis
    by (auto simp: try_rules_def det pred proba untested_def)
qed

lemma learner_key: "\<exists>r. try_binary forest_learner forest_scorer x (one_window 0) y [0] name fam conf e = Inr r \<and>
    binary_key (val_metrics r) = Inr (Fin (if e = 2 then 1 else 0), Fin (- 1))"
proof -
  have "\<exists>s. predict_scores forest_learner e (one_window 0) = Inr s"
    by (simp add: predict_scores_def decision_scores_def demo_learner_def forest_learner_def)
  then obtain s where s: "predict_scores forest_learner e (one_window 0) = Inr s" ..
  have p: "fit forest_learner e x y = Inr e" "predict forest_learner e (one_window 0) = Inr [if e = 2 then 2 else 0]"
    by (simp_all add: demo_learner_def forest_learner_def one_window_def)
  from forest_metrics [of "[if e = 2 then 2 else 0]" s] show ?thesis
    by (auto simp: try_binary_def p s untested_def split: if_splits)
qed

abbreviation forest_fit :: "(int, dbl list, nat detector) model_result list result" where
  "forest_fit \<equiv> fit_binary_candidates tables forest_learner forest_scorer (one_window 0) (one_window 0) (one_window 0) (one_window 0) 42"

lemma forest_run:
  "\<exists>rs b0 r. forest_fit = Inr rs \<and> choose_best_binary rs = Inr b0 \<and> r \<in> set rs \<and> family r = family b0 \<and>
     model_name r < model_name b0 \<and> binary_key (val_metrics r) = binary_key (val_metrics b0) \<and>
     estimator b0 = Library 2 \<and> (\<forall>x \<in> set rs. \<exists>k. binary_key (val_metrics x) = Inr k \<and> no_nan_pair k)"
proof -
  let ?t = "try_binary forest_learner forest_scorer (one_window 0) (one_window 0) [0] [0]"
  let ?l = "\<lambda>(c, w). ?t (logreg_name (c, w)) ''LogisticRegression'' (logreg_config (c, w)) (scaled_logreg forest_learner (float_literal c) w 42)"
  let ?f = "\<lambda>(n, d, l, w). ?t (forest_name (n, d, l, w)) ''RandomForestClassifier'' (forest_config (n, d, l, w)) (random_forest forest_learner n d l w 42)"
  let ?low = "\<lambda>x. binary_key (val_metrics x) = Inr (Fin 0, Fin (- 1))"
  let ?high = "\<lambda>x. binary_key (val_metrics x) = Inr (Fin 1, Fin (- 1)) \<and> family x = ''RandomForestClassifier'' \<and> estimator x = Library (2 :: nat)"
  have est: "dummy_prior forest_learner = 0" "scaled_logreg forest_learner c w s = 1" "random_forest forest_learner n d l w s = 2" for c w s n d l
    by (simp_all add: forest_learner_def demo_learner_def)
  have y: "binary_target tables (one_window 0) = Inr [0]"
    by (simp add: binary_target_def one_window_texts NORMAL_LABEL_def)
  obtain du where du: "?t ''dummy_prior'' ''DummyClassifier'' [(''strategy'', JStr ''prior'')] 0 = Inr du" "?low du"
    using learner_key [of "one_window 0" "[0]" "''dummy_prior''" "''DummyClassifier''" "[(''strategy'', JStr ''prior'')]" 0] by auto
  obtain ru where ru: "try_rules tables forest_scorer (one_window 0) (one_window 0) [0] = Inr (ru :: (int, dbl list, nat detector) model_result)" "?low ru"
    using rules_key by blast
  have l: "\<exists>x. ?l g = Inr x \<and> ?low x" for g
    using learner_key [of "one_window 0" "[0]" "logreg_name g" "''LogisticRegression''" "logreg_config g" 1]
    by (cases g) (simp add: est)
  have f: "\<exists>x. ?f g = Inr x \<and> ?high x \<and> model_name x = forest_name g" for g
  proof -
    obtain n d lf w where g: "g = (n, d, lf, w)" by (cases g)
    from learner_key [of "one_window 0" "[0]" "forest_name g" "''RandomForestClassifier''" "forest_config g" 2]
    obtain x where x: "?t (forest_name g) ''RandomForestClassifier'' (forest_config g) 2 = Inr x"
      "binary_key (val_metrics x) = Inr (Fin 1, Fin (- 1))" by auto
    have "estimator x = Library 2"
      using x(1) by (auto simp: try_binary_def bind_result_Inr untested_def forest_learner_def demo_learner_def)
    then show ?thesis using x try_binary_config [OF x(1)] by (simp add: g est)
  qed
  define lf ff where "lf = ?l" and "ff = ?f"
  have l': "\<exists>x. lf g = Inr x \<and> ?low x" and f': "\<exists>x. ff h = Inr x \<and> ?high x \<and> model_name x = forest_name h" for g h
    unfolding lf_def ff_def by (rule l, rule f)
  obtain ls where ls: "map_result lf logreg_grid = Inr ls" using map_result_exists [of logreg_grid lf] l' by meson
  obtain fs where fs: "map_result ff forest_grid = Inr fs" using map_result_exists [of forest_grid ff] f' by meson
  have "?low x" if "x \<in> set ls" for x
  proof -
    from map_result_elem [OF ls that] obtain g where "lf g = Inr x" by blast
    then show ?thesis using l' [of g] by auto
  qed
  then have lows: "?low x" if "x \<in> set (du # ru # ls)" for x
    using that du(2) ru(2) by auto
  have highs: "?high x" if "x \<in> set fs" for x
  proof -
    from map_result_elem [OF fs that] obtain g where "ff g = Inr x" by blast
    then show ?thesis using f' [of g] by auto
  qed
  have "model_name x = forest_name g \<and> True" if "ff g = Inr x" for g x
    using f' [of g] that by auto
  then have names: "map model_name fs = map forest_name forest_grid"
    by (rule map_result_names(1) [OF fs])
  then obtain b0 fs' where fs': "fs = b0 # fs'" by (cases fs) (simp_all add: forest_grid_def CLASS_WEIGHTS_def)
  have rs: "forest_fit = Inr ((du # ru # ls) @ b0 # fs')"
    using du(1) ru(1) ls fs unfolding lf_def ff_def by (simp add: fit_binary_candidates_def Let_def y est fs')
  have best: "choose_best_binary ((du # ru # ls) @ b0 # fs') = Inr b0"
    unfolding choose_best_binary_def
    using lows highs fs' by (intro first_of_ties [where K = "(Fin 1, Fin (- 1))"]) (auto simp: deq_def)
  let ?first = "''rf_n100_dnone_leaf1_cwnone''" and ?other = "''rf_n100_d16_leaf1_cwnone''"
  have grid: "hd (map forest_name forest_grid) = ?first" "?other \<in> set (map forest_name forest_grid)" "?other < ?first"
    by code_simp+
  have "hd (map model_name fs) = ?first" "?other \<in> set (map model_name fs)"
    unfolding names by (rule grid)+
  then have "model_name b0 = ?first" "\<exists>r \<in> set fs. model_name r = ?other"
    using fs' by auto
  then obtain r where r: "r \<in> set fs" "model_name r < model_name b0" using grid(3) by auto
  let ?rs = "(du # ru # ls) @ b0 # fs'"
  have keys: "\<exists>k. binary_key (val_metrics x) = Inr k \<and> no_nan_pair k" if "x \<in> set ?rs" for x
  proof (cases "x \<in> set fs")
    case True
    from highs [OF this] show ?thesis by (simp add: no_nan_pair_def)
  next
    case False
    then have "x \<in> set (du # ru # ls)" using that fs' by auto
    from lows [OF this] show ?thesis by (simp add: no_nan_pair_def)
  qed
  have b: "?high b0" by (rule highs) (simp add: fs')
  note hr = highs [OF r(1)]
  have "r \<in> set ?rs" using r(1) fs' by auto
  then have "forest_fit = Inr ?rs \<and> choose_best_binary ?rs = Inr b0 \<and> r \<in> set ?rs \<and> family r = family b0 \<and>
     model_name r < model_name b0 \<and> binary_key (val_metrics r) = binary_key (val_metrics b0) \<and>
     estimator b0 = Library 2 \<and> (\<forall>x \<in> set ?rs. \<exists>k. binary_key (val_metrics x) = Inr k \<and> no_nan_pair k)"
    using rs best r(2) hr b keys by (intro conjI ballI) simp_all
  then show ?thesis by (intro exI)
qed

lemma forest_test: "estimator b0 = Library 2 \<Longrightarrow>
    \<exists>b. test_binary tables forest_learner forest_scorer (one_window 0) (one_window 0) [0] b0 = Inr b"
proof -
  assume e: "estimator b0 = Library 2"
  have "\<exists>s. predict_scores forest_learner 2 (one_window 0) = Inr s"
    by (simp add: predict_scores_def demo_learner_def forest_learner_def)
  then obtain s where s: "predict_scores forest_learner 2 (one_window 0) = Inr s" ..
  have "predict forest_learner 2 (one_window 0) = Inr [2]"
    by (simp add: demo_learner_def forest_learner_def one_window_def)
  then show ?thesis using forest_metrics [of "[2]" s] by (auto simp: test_binary_def e s)
qed

lemma binary_metrics_fields:
  "binary_metrics M y ps s = Inr d \<Longrightarrow> \<exists>f pr roc. dict_get d ''anomaly_f1'' = Some (JFloat f) \<and>
     dict_get d ''pr_auc'' = Some (opt_float pr) \<and> dict_get d ''roc_auc'' = Some (opt_float roc)"
  by (auto simp: binary_metrics_def score_entries_def bind_result_Inr dict_get_def)

lemma untested_row_exists:
  assumes "binary_metrics M y ps s = Inr (val_metrics m)"
    and "item = dict_update [(''name'', JStr (model_name m))] (candidate_dict m)"
    and "resolve_test_metrics p item = Inr None"
  shows "\<exists>row. phase4_binary_row p item = Inr row"
proof -
  have get: "dict_get item k = Some v" if "dict_get (candidate_dict m) k = Some v" for k v
    unfolding assms(2) using that by (rule named_item(2))
  have n: "dict_get item ''name'' = Some (JStr (model_name m))"
    unfolding assms(2) by (rule named_item(1))
  obtain f pr roc where v: "dict_get (val_metrics m) ''anomaly_f1'' = Some (JFloat f)"
    "dict_get (val_metrics m) ''pr_auc'' = Some (opt_float pr)" "dict_get (val_metrics m) ''roc_auc'' = Some (opt_float roc)"
    using binary_metrics_fields [OF assms(1)] by blast
  have "number_item (sorted_dict (val_metrics m)) ''anomaly_f1'' = Inr (Float f)"
    by (simp add: number_item_def metric_float_def metric_def dict_index_def get_sorted_dict v json_float_def)
  moreover have "\<exists>i. number_or_nan (sorted_dict (val_metrics m)) ''pr_auc'' = Inr i"
    by (cases pr) (simp_all add: number_or_nan_def number_item_def metric_float_def metric_def dict_index_def
        get_sorted_dict v json_float_def opt_float_def)
  moreover have "\<exists>i. number_or_nan (sorted_dict (val_metrics m)) ''roc_auc'' = Inr i"
    by (cases roc) (simp_all add: number_or_nan_def number_item_def metric_float_def metric_def dict_index_def
        get_sorted_dict v json_float_def opt_float_def)
  ultimately show ?thesis
    using get [OF candidate_dict_gets(1)] get [OF candidate_dict_gets(2)] n assms(3)
    by (auto simp: phase4_binary_row_def text_item_def metric_def dict_index_def json_dict_def tested_item_def)
qed

lemma family_items_exist:
  assumes "distinct (map model_name rs)" and "sort_keys (with_test_best tm (results_to_payload rs best)) = JObj p"
    and "\<forall>x \<in> set rs. \<exists>k. binary_key (val_metrics x) = Inr k"
  shows "\<exists>items. pick_family_best_binary p = Inr items"
proof -
  let ?es = "\<lambda>k. map (\<lambda>r. (model_name r, candidate_dict r)) (filter (\<lambda>r. family r = k) (sort_key model_name rs))"
  have "\<exists>m. max_by (entry_key binary_key) (?es k) = Inr m" if k: "k \<in> family ` set rs" for k
  proof -
    have "\<exists>e. entry_key binary_key x = Inr e" if "x \<in> set (?es k)" for x
      using that assms(3) by (auto simp: entry_key_dict)
    moreover have "?es k \<noteq> []" using k by (auto simp: filter_empty_conv)
    ultimately show ?thesis using max_by_total by meson
  qed
  then have "\<exists>ys. map_result (\<lambda>(fam, entries). bind_result (max_by (entry_key binary_key) entries) (\<lambda>(name, d).
         Inr (dict_update [(''name'', JStr name)] d))) (map (\<lambda>k. (k, ?es k)) (uniq (map family (sort_key model_name rs)))) = Inr ys"
    by (intro map_result_exists) fastforce
  then show ?thesis
    by (auto simp: pick_family_best_binary_def pick_family_best_def loaded_payload(2) [OF assms(1,2)])
qed

lemma tied_best_model_not_exported_witness:
  "\<exists>rs b0 b p rows. forest_fit = Inr rs \<and> choose_best_binary rs = Inr b0 \<and>
     test_binary tables forest_learner forest_scorer (one_window 0) (one_window 0) [0] b0 = Inr b \<and>
     sort_keys (with_test_best (test_metrics b) (results_to_payload (replace_result b rs) (model_name b))) = JObj p \<and>
     phase4_binary_rows p = Inr rows \<and> (\<forall>row \<in> set rows. drop (length row - 4) row = replicate 4 (Float NaN))"
proof -
  from forest_run obtain rs b0 r where rs: "forest_fit = Inr rs" and b0: "choose_best_binary rs = Inr b0"
    and r: "r \<in> set rs" "family r = family b0" "model_name r < model_name b0"
      "binary_key (val_metrics r) = binary_key (val_metrics b0)"
    and est: "estimator b0 = Library 2" and keys: "\<forall>x \<in> set rs. \<exists>k. binary_key (val_metrics x) = Inr k \<and> no_nan_pair k"
    by blast
  from forest_test [OF est] obtain b where b: "test_binary tables forest_learner forest_scorer (one_window 0) (one_window 0) [0] b0 = Inr b" ..
  obtain p where p: "sort_keys (with_test_best (test_metrics b) (results_to_payload (replace_result b rs) (model_name b))) = JObj p"
    by (simp add: with_test_best_def)
  have nan: "\<forall>x \<in> set rs. \<forall>k. binary_key (val_metrics x) = Inr k \<longrightarrow> no_nan_pair k" using keys by auto
  have dist: "distinct (map model_name (replace_result b rs))"
    using binary_candidates(1) [OF rs] names_distinct(1) by simp
  have "b0 \<in> set rs" using max_by_in b0 by (simp add: choose_best_binary_def)
  then have "\<forall>x \<in> set (replace_result b rs). \<exists>k. binary_key (val_metrics x) = Inr k"
    using keys test_binary_same [OF b] by (auto simp: replace_result_def)
  from family_items_exist [OF dist p this] obtain items where items: "pick_family_best_binary p = Inr items" ..
  have "\<exists>row. phase4_binary_row p item = Inr row" if "item \<in> set items" for item
    using tied_item [OF rs b0 b r nan p items that] untested_row_exists by blast
  then obtain rows where "phase4_binary_rows p = Inr rows"
    using map_result_exists [of items "phase4_binary_row p"] by (auto simp: phase4_binary_rows_def items)
  from tied_best_model_not_exported [OF rs b0 b r nan p this] have
    "\<forall>row \<in> set rows. drop (length row - 4) row = replicate 4 (Float NaN)" by fastforce
  then show ?thesis using rs b0 b p \<open>phase4_binary_rows p = Inr rows\<close> by blast
qed

section \<open>The chosen model in the table\<close>

lemma test_binary_metrics:
  "test_binary P L M te tex y b0 = Inr b \<Longrightarrow> \<exists>ps s tm. binary_metrics M y ps s = Inr tm \<and> test_metrics b = Some tm"
  by (auto simp: test_binary_def bind_result_Inr tested_def split: detector.splits) blast+

lemma tested_item:
  assumes "test_metrics m = Some tm"
  shows "resolve_test_metrics p (dict_update [(''name'', JStr (model_name m))] (candidate_dict m)) = Inr (Some (sorted_dict tm))"
proof -
  have "dict_get (candidate_dict m) ''test_metrics'' = Some (JObj (sorted_dict tm))"
    using assms by (simp add: candidate_dict_def get_sorted_dict dict_get_def [of "_ # _"] opt_metrics_def sort_keys_JObj
        del: sort_keys.simps(7))
  then show ?thesis
    by (simp add: resolve_test_metrics_def named_item(2) optional_dict_def json_dict_def)
qed

lemma untested_item:
  assumes "test_metrics m = None" and "dict_get p ''best_model'' = Some (JStr best)" and "model_name m \<noteq> best"
  shows "resolve_test_metrics p (dict_update [(''name'', JStr (model_name m))] (candidate_dict m)) = Inr None"
  using assms by (simp add: resolve_test_metrics_def named_item candidate_dict_gets(3))

text \<open>What holds of the candidates after the test run of the best one.\<close>

lemma after_test:
  assumes rs: "fit_binary_candidates P L M tr va trx vax seed = Inr rs"
    and best: "choose_best_binary rs = Inr b0" "test_binary P L M te tex y_test b0 = Inr b"
    and nan: "\<forall>x \<in> set rs. \<forall>k. binary_key (val_metrics x) = Inr k \<longrightarrow> no_nan_pair k"
  shows "distinct (map model_name (replace_result b rs))" and "b \<in> set (replace_result b rs)"
    and "\<forall>x \<in> set (replace_result b rs). \<exists>y ps s. binary_metrics M y ps s = Inr (val_metrics x)"
    and "\<forall>x \<in> set (replace_result b rs). \<exists>k. binary_key (val_metrics x) = Inr k \<and> no_nan_pair k"
    and "\<forall>x \<in> set (replace_result b rs). \<not> dlt_pair (projr (binary_key (val_metrics b))) (projr (binary_key (val_metrics x)))"
    and "\<forall>x \<in> set (replace_result b rs). x = b \<or> x \<in> set rs \<and> test_metrics x = None"
proof -
  note same = test_binary_same [OF best(2)]
  have b0: "b0 \<in> set rs" using max_by_in best(1) by (simp add: choose_best_binary_def)
  show "distinct (map model_name (replace_result b rs))"
    using binary_candidates(1) [OF rs] names_distinct(1) by simp
  show "b \<in> set (replace_result b rs)" using b0 same by (auto simp: replace_result_def intro!: image_eqI [of _ _ b0])
  show "\<forall>x \<in> set (replace_result b rs). \<exists>y ps s. binary_metrics M y ps s = Inr (val_metrics x)"
    using binary_candidates(2) [OF rs] b0 same by (auto simp: replace_result_def)
  have keys: "\<exists>k. binary_key (val_metrics x) = Inr k \<and> no_nan_pair k" if "x \<in> set rs" for x
    using that binary_candidates(2) [OF rs] nan binary_key_metrics by metis
  then show "\<forall>x \<in> set (replace_result b rs). \<exists>k. binary_key (val_metrics x) = Inr k \<and> no_nan_pair k"
    using b0 same by (auto simp: replace_result_def)
  from max_by_first [OF keys best(1) [unfolded choose_best_binary_def]]
  have top: "\<forall>x \<in> set rs. \<not> dlt_pair (projr (binary_key (val_metrics b0))) (projr (binary_key (val_metrics x)))"
    by blast
  then show "\<forall>x \<in> set (replace_result b rs). \<not> dlt_pair (projr (binary_key (val_metrics b))) (projr (binary_key (val_metrics x)))"
    using b0 same by (auto simp: replace_result_def)
  show "\<forall>x \<in> set (replace_result b rs). x = b \<or> x \<in> set rs \<and> test_metrics x = None"
    using untested_candidates [OF rs] by (auto simp: replace_result_def)
qed

text \<open>C27: without such a tie the table shows the chosen model. When no candidate of the best two-class
model's family with an earlier name has a validation key as good, the table can be made, exactly the
rows of the family's entry name the chosen model and show the metrics of the test run, and every
other row has another name and NaN in the four test columns.\<close>

theorem best_model_exported:
  assumes rs: "fit_binary_candidates P L M tr va trx vax seed = Inr rs"
    and best: "choose_best_binary rs = Inr b0" "test_binary P L M te tex y_test b0 = Inr b"
    and untied: "\<forall>r \<in> set rs. family r = family b0 \<and>
      \<not> dlt_pair (projr (binary_key (val_metrics r))) (projr (binary_key (val_metrics b0))) \<longrightarrow> model_name b0 \<le> model_name r"
    and nan: "\<forall>x \<in> set rs. \<forall>k. binary_key (val_metrics x) = Inr k \<longrightarrow> no_nan_pair k"
    and p: "sort_keys (with_test_best (test_metrics b) (results_to_payload (replace_result b rs) (model_name b))) = JObj p"
  shows "\<exists>rows tm. phase4_binary_rows p = Inr rows \<and> test_metrics b = Some tm \<and>
    (\<exists>val test. [Text (family b), Text (model_name b)] @ val @ test \<in> set rows \<and> length val = 3 \<and> shows_metrics tm test) \<and>
    (\<forall>row \<in> set rows.
      (\<exists>val test. row = [Text (family b), Text (model_name b)] @ val @ test \<and> length val = 3 \<and> shows_metrics tm test) \<or>
      row ! 1 \<noteq> Text (model_name b) \<and> drop 5 row = replicate 4 (Float NaN))"
proof -
  let ?rs = "replace_result b rs"
  note same = test_binary_same [OF best(2)] and after = after_test [OF rs best nan]
  obtain ps sc tm where tm: "binary_metrics M y_test ps sc = Inr tm" "test_metrics b = Some tm"
    using test_binary_metrics [OF best(2)] by (elim exE conjE)
  note payload = after(1) p
  from family_items_exist [OF payload] after(4) obtain items where items: "pick_family_best_binary p = Inr items" by meson
  let ?shown = "\<lambda>row. \<exists>val test. row = [Text (family b), Text (model_name b)] @ val @ test \<and> length val = 3 \<and> shows_metrics tm test"
  let ?other = "\<lambda>row. row ! 1 \<noteq> Text (model_name b) \<and> drop 5 row = replicate 4 (Float NaN)"
  have chosen: "\<exists>row. phase4_binary_row p (dict_update [(''name'', JStr (model_name b))] (candidate_dict b)) = Inr row \<and> ?shown row"
  proof -
    obtain y ps' s' where "binary_metrics M y ps' s' = Inr (val_metrics b)" using after(2,3) by meson
    from tested_row [OF this tm(1) refl tested_item [OF tm(2)]] show ?thesis by blast
  qed
  have each: "\<exists>row. phase4_binary_row p item = Inr row \<and> (?shown row \<or> ?other row)" if "item \<in> set items" for item
  proof -
    from family_item [OF payload items that] obtain m where m: "m \<in> set ?rs"
      "item = dict_update [(''name'', JStr (model_name m))] (candidate_dict m)" by blast
    show ?thesis
    proof (cases "m = b")
      case True
      then show ?thesis using chosen m(2) by blast
    next
      case False
      then have ne: "model_name m \<noteq> model_name b" using after(1,2) m(1) by (metis distinct_map inj_onD)
      have "test_metrics m = None" using after(6) m(1) False by blast
      then have res: "resolve_test_metrics p item = Inr None"
        unfolding m(2) by (rule untested_item [OF _ loaded_payload(1) [OF payload] ne])
      obtain y ps' s' where "binary_metrics M y ps' s' = Inr (val_metrics m)" using after(3) m(1) by meson
      from untested_row_exists [OF this m(2) res] obtain row where row: "phase4_binary_row p item = Inr row" ..
      have "row ! 1 = Text (model_name m)"
        using row by (auto simp: phase4_binary_row_def bind_result_Inr text_item_def metric_def dict_index_def json_item_def
            m(2) named_item(1))
      then show ?thesis using row ne untested_row(2) [OF res row] by auto
    qed
  qed
  then obtain rows where rows: "map_result (phase4_binary_row p) items = Inr rows"
    using map_result_exists [of items "phase4_binary_row p"] by blast
  have "?shown row \<or> ?other row" if "row \<in> set rows" for row
    using map_result_elem [OF rows that] each by fastforce
  moreover have "\<exists>val test. [Text (family b), Text (model_name b)] @ val @ test \<in> set rows \<and> length val = 3 \<and> shows_metrics tm test"
  proof -
    have tie: "\<forall>x \<in> set ?rs. family x = family b \<and>
        \<not> dlt_pair (projr (binary_key (val_metrics x))) (projr (binary_key (val_metrics b))) \<longrightarrow> model_name b \<le> model_name x"
      using after(6) untied same by auto
    from family_item_of [OF payload items after(2)] obtain m where m: "m \<in> set ?rs" "family m = family b"
      "dict_update [(''name'', JStr (model_name m))] (candidate_dict m) \<in> set items"
      "max_by (entry_key binary_key) (map (\<lambda>x. (model_name x, candidate_dict x))
        (filter (\<lambda>x. family x = family m) (sort_key model_name ?rs))) = Inr (model_name m, candidate_dict m)" by blast
    have "m = b" by (rule best_wins [OF after(1,2,4,5) tie m(1,2,4)])
    from map_result_member [OF rows m(3)] obtain row where row: "row \<in> set rows"
      "phase4_binary_row p (dict_update [(''name'', JStr (model_name m))] (candidate_dict m)) = Inr row" ..
    from chosen obtain row' where r': "phase4_binary_row p (dict_update [(''name'', JStr (model_name b))] (candidate_dict b)) = Inr row' \<and> ?shown row'" ..
    have "row = row'" using row(2) conjunct1 [OF r'] \<open>m = b\<close> by (simp only: sum.inject)
    then have "?shown row" using conjunct2 [OF r'] by (simp only:)
    then show ?thesis using row(1) by blast
  qed
  moreover have "phase4_binary_rows p = Inr rows" by (simp add: phase4_binary_rows_def items rows)
  ultimately show ?thesis using tm(2) by blast
qed

subsection \<open>Witness\<close>

text \<open>When all candidates score the same, the first one is chosen, and its family has no other.\<close>

lemma demo_equal_keys: "binary_metrics demo_scorer [0] p s = Inr d \<Longrightarrow> binary_key d = Inr (Fin 1, Fin (- 1))"
proof -
  assume d: "binary_metrics demo_scorer [0] p s = Inr d"
  obtain q where "hit_share [0] p = Inr (Fin q)" using hit_share_one [of 0 p] by auto
  then have "\<exists>e. binary_metrics demo_scorer [0] p s = Inr e \<and> binary_key e = Inr (Fin 1, Fin (- 1))"
    by (cases s) (simp_all add: binary_metrics_def score_entries_def demo_scorer_def item_at_def
        ranking_scores_def binary_key_def metric_def dict_index_def dict_get_def json_float_def opt_float_def Let_def uniq_def)
  then show ?thesis using d by auto
qed

lemma demo_first_chosen:
  "\<exists>rs b0. fit_binary_candidates tables (demo_learner (0 :: int)) demo_scorer (one_window 0) (one_window 0) (one_window 0) (one_window 0) 42 = Inr rs \<and>
     choose_best_binary rs = Inr b0 \<and> (\<forall>r \<in> set rs. binary_key (val_metrics r) = Inr (Fin 1, Fin (- 1))) \<and>
     (\<forall>r \<in> set rs. family r = family b0 \<longrightarrow> r = b0)"
  (is "\<exists>rs b0. ?fit = Inr rs \<and> _ rs b0")
proof -
  let ?L = "demo_learner (0 :: int)" and ?w = "one_window 0" and ?key = "\<lambda>r. binary_key (val_metrics r) = Inr (Fin 1, Fin (- 1))"
  have y: "binary_target tables ?w = Inr [0]"
    by (simp add: binary_target_def one_window_texts NORMAL_LABEL_def)
  obtain rs where rs: "?fit = Inr rs"
    using demo_fit_binary [of "one_window 0"] one_window_rows [of 0] by (auto simp: tables_def)
  from rs obtain yt yv d ru ls fs where yv: "binary_target tables ?w = Inr yv"
    and d: "try_binary ?L demo_scorer ?w ?w yt yv ''dummy_prior'' ''DummyClassifier'' [(''strategy'', JStr ''prior'')] (dummy_prior ?L) = Inr d"
    and r: "try_rules tables demo_scorer ?w ?w yv = Inr ru"
    and ls: "map_result (\<lambda>(c, w). try_binary ?L demo_scorer ?w ?w yt yv (logreg_name (c, w)) ''LogisticRegression''
         (logreg_config (c, w)) (scaled_logreg ?L (float_literal c) w 42)) logreg_grid = Inr ls"
    and fs: "map_result (\<lambda>(n, d, l, w). try_binary ?L demo_scorer ?w ?w yt yv (forest_name (n, d, l, w)) ''RandomForestClassifier''
         (forest_config (n, d, l, w)) (random_forest ?L n d l w 42)) forest_grid = Inr fs"
    and all: "rs = d # ru # ls @ fs"
    by (rule fit_binary_candidatesE)
  have y0: "yv = [0]" using yv y by simp
  have tried: "?key m \<and> family m = fam" if "try_binary ?L demo_scorer ?w ?w yt yv name fam conf e = Inr m" for m name fam conf e
    using that demo_equal_keys by (auto simp: try_binary_def bind_result_Inr untested_def y0)
  have rules: "?key ru \<and> family ru \<noteq> ''DummyClassifier''"
    using r demo_equal_keys by (auto simp: try_rules_def bind_result_Inr untested_def y0)
  have l: "?key m \<and> family m \<noteq> ''DummyClassifier''" if "m \<in> set ls" for m
    using map_result_elem [OF ls that] tried by fastforce
  have f: "?key m \<and> family m \<noteq> ''DummyClassifier''" if "m \<in> set fs" for m
    using map_result_elem [OF fs that] tried by fastforce
  have keys: "\<forall>m \<in> set rs. ?key m" using tried [OF d] rules l f unfolding all by auto
  have "choose_best_binary ([] @ rs) = Inr d"
    unfolding choose_best_binary_def all
    using keys by (intro first_of_ties [where K = "(Fin 1, Fin (- 1))"]) (auto simp: all)
  moreover have "\<forall>m \<in> set rs. family m = family d \<longrightarrow> m = d" using tried [OF d] rules l f unfolding all by auto
  ultimately show ?thesis using rs keys by (intro exI [of _ rs] exI [of _ d]) simp
qed

lemma best_model_exported_witness:
  "\<exists>rs b0 b p rows tm. fit_binary_candidates tables (demo_learner (0 :: int)) demo_scorer (one_window 0) (one_window 0) (one_window 0) (one_window 0) 42 = Inr rs \<and>
     choose_best_binary rs = Inr b0 \<and>
     test_binary tables (demo_learner 0) demo_scorer (one_window 0) (one_window 0) [0] b0 = Inr b \<and>
     sort_keys (with_test_best (test_metrics b) (results_to_payload (replace_result b rs) (model_name b))) = JObj p \<and>
     phase4_binary_rows p = Inr rows \<and> test_metrics b = Some tm \<and>
     (\<exists>val test. [Text (family b), Text (model_name b)] @ val @ test \<in> set rows \<and> length val = 3 \<and> shows_metrics tm test)"
proof -
  from demo_first_chosen obtain rs b0 where
    rs: "fit_binary_candidates tables (demo_learner (0 :: int)) demo_scorer (one_window 0) (one_window 0) (one_window 0) (one_window 0) 42 = Inr rs"
    and b0: "choose_best_binary rs = Inr b0" and keys: "\<forall>r \<in> set rs. binary_key (val_metrics r) = Inr (Fin 1, Fin (- 1))"
    and alone: "\<forall>r \<in> set rs. family r = family b0 \<longrightarrow> r = b0"
    by (elim exE conjE)
  obtain b where b: "test_binary tables (demo_learner 0) demo_scorer (one_window 0) (one_window 0) [0] b0 = Inr b"
    using demo_test_binary by blast
  obtain p where p: "sort_keys (with_test_best (test_metrics b) (results_to_payload (replace_result b rs) (model_name b))) = JObj p"
    by (simp add: with_test_best_def)
  have nan: "\<forall>x \<in> set rs. \<forall>k. binary_key (val_metrics x) = Inr k \<longrightarrow> no_nan_pair k"
    using keys by (auto simp: no_nan_pair_def)
  have untied: "\<forall>r \<in> set rs. family r = family b0 \<and>
      \<not> dlt_pair (projr (binary_key (val_metrics r))) (projr (binary_key (val_metrics b0))) \<longrightarrow> model_name b0 \<le> model_name r"
    using alone by auto
  from best_model_exported [OF rs b0 b untied nan p] show ?thesis using rs b0 b p by blast
qed

end
