(* ===== verification/Paper_Phase5.thy ===== *)
theory Paper_Phase5
  imports Paper_Phase4 Http_Bench
begin

text \<open>
  \<open>phase5_export_paper_assets.py\<close>: the overhead matrix (telemetry off and on, local and remote
  backends) and the differences between off and on, from the summaries the HTTP benchmark and the
  CPU sampling left per scenario. The figures, drawn after the tables, are in \<open>Paper_Figures\<close>; the
  outcome here is the one before they are drawn.
\<close>

section \<open>Scenarios\<close>

definition SCENARIO_ORDER :: "string list" where
  "SCENARIO_ORDER = [''phase5-off-local'', ''phase5-on-local'', ''phase5-off-remote'', ''phase5-on-remote'']"

fun contains :: "string \<Rightarrow> string \<Rightarrow> bool" where
  "contains p [] \<longleftrightarrow> p = []"
| "contains p (c # cs) \<longleftrightarrow> take (length p) (c # cs) = p \<or> contains p cs"

definition ends_with :: "string \<Rightarrow> string \<Rightarrow> bool" where
  "ends_with p s \<longleftrightarrow> length p \<le> length s \<and> drop (length s - length p) s = p"

definition scenario_meta :: "string \<Rightarrow> string \<times> string" where
  "scenario_meta name =
     (if contains ''-on-'' name then ''on'' else ''off'', if ends_with ''local'' name then ''local'' else ''remote'')"

definition format_pct_delta :: "dbl \<Rightarrow> dbl \<Rightarrow> string result" where
  "format_pct_delta off_value on_value =
     (if deq off_value (Fin 0) then Inr ''n/a''
      else bind_result (ddiv (dsub on_value off_value) off_value) (\<lambda>q. Inr (fmt_fixed 2 (dmul q (Fin 100)) @ ''%'')))"

section \<open>What the benchmark wrote\<close>

definition bench_json :: "bench_args \<Rightarrow> bench_summary \<Rightarrow> json" where
  "bench_json args s = sort_keys (JObj
     [(''url'', JStr (url args)), (''warmup_seconds'', JFloat (warmup_seconds args)),
      (''duration_seconds'', JFloat (duration_seconds args)), (''concurrency'', JInt (int (concurrency_arg args))),
      (''total_requests'', JInt (int (total_requests s))), (''successful_requests'', JInt (int (successful_requests s))),
      (''success_rate'', JFloat (success_rate s)), (''throughput_rps'', JFloat (throughput_rps s)),
      (''p50_latency_ms'', JFloat (p50_latency_ms s)), (''p99_latency_ms'', JFloat (p99_latency_ms s)),
      (''measurement_start_unix_ms'', JInt (measurement_start_unix_ms s)),
      (''measurement_end_unix_ms'', JInt (measurement_end_unix_ms s))])"

section \<open>The tables\<close>

record matrix_row =
  m_scenario :: string
  m_telemetry :: string
  m_topology :: string
  m_throughput :: dbl
  m_p50 :: dbl
  m_p99 :: dbl
  m_success :: dbl
  m_node1 :: dbl
  m_node2 :: dbl
  m_agent1 :: dbl
  m_agent2 :: dbl

definition matrix_row_of :: "(string \<Rightarrow> string \<Rightarrow> json result) \<Rightarrow> string \<Rightarrow> matrix_row result" where
  "matrix_row_of load name =
     bind_result (bind_result (load name ''bench_summary.json'') json_dict) (\<lambda>b.
     bind_result (bind_result (load name ''cpu_summary.json'') json_dict) (\<lambda>c.
     let (mode, topology) = scenario_meta name in
     bind_result (metric_float b ''throughput_rps'') (\<lambda>rps.
     bind_result (metric_float b ''p50_latency_ms'') (\<lambda>p50.
     bind_result (metric_float b ''p99_latency_ms'') (\<lambda>p99.
     bind_result (metric_float b ''success_rate'') (\<lambda>rate.
     bind_result (metric_float c ''worker1_node_cpu_pct'') (\<lambda>n1.
     bind_result (metric_float c ''worker2_node_cpu_pct'') (\<lambda>n2.
     bind_result (metric_float c ''worker1_agent_cpu_pct'') (\<lambda>a1.
     bind_result (metric_float c ''worker2_agent_cpu_pct'') (\<lambda>a2.
       Inr \<lparr>m_scenario = name, m_telemetry = mode, m_topology = topology, m_throughput = rps,
         m_p50 = p50, m_p99 = p99, m_success = rate, m_node1 = n1, m_node2 = n2, m_agent1 = a1,
         m_agent2 = a2\<rparr>))))))))))"

definition MATRIX_HEADER :: "string list" where
  "MATRIX_HEADER = [''scenario'', ''telemetry'', ''topology'', ''throughput_rps'', ''p50_latency_ms'',
     ''p99_latency_ms'', ''success_rate'', ''worker1_node_cpu_pct'', ''worker2_node_cpu_pct'',
     ''worker1_agent_cpu_pct'', ''worker2_agent_cpu_pct'']"

definition matrix_cells :: "matrix_row \<Rightarrow> item list" where
  "matrix_cells r = [Text (m_scenario r), Text (m_telemetry r), Text (m_topology r), Float (m_throughput r),
     Float (m_p50 r), Float (m_p99 r), Float (m_success r), Float (m_node1 r), Float (m_node2 r),
     Float (m_agent1 r), Float (m_agent2 r)]"

text \<open>\<open>next(row for row in matrix_rows if ...)\<close>.\<close>

definition find_row :: "matrix_row list \<Rightarrow> string \<Rightarrow> string \<Rightarrow> matrix_row result" where
  "find_row rows topology mode =
     (case List.find (\<lambda>r. m_topology r = topology \<and> m_telemetry r = mode) rows of
        None \<Rightarrow> Inl StopIteration | Some r \<Rightarrow> Inr r)"

definition DELTA_HEADER :: "string list" where
  "DELTA_HEADER = [''topology'', ''throughput_delta_rps'', ''throughput_delta_pct'', ''p50_delta_ms'',
     ''p50_delta_pct'', ''p99_delta_ms'', ''p99_delta_pct'', ''worker1_agent_cpu_delta_pct'',
     ''worker2_agent_cpu_delta_pct'', ''worker1_node_cpu_delta_pct'', ''worker2_node_cpu_delta_pct'']"

definition delta_cells :: "string \<Rightarrow> matrix_row \<Rightarrow> matrix_row \<Rightarrow> string \<Rightarrow> string \<Rightarrow> string \<Rightarrow> item list" where
  "delta_cells topology off on throughput_pct p50_pct p99_pct =
     (let change = (\<lambda>f. Float (dsub (f on) (f off))) in
      [Text topology, change m_throughput, Text throughput_pct, change m_p50, Text p50_pct, change m_p99, Text p99_pct,
       change m_agent1, change m_agent2, change m_node1, change m_node2])"

definition delta_row :: "string \<Rightarrow> matrix_row \<Rightarrow> matrix_row \<Rightarrow> item list result" where
  "delta_row topology off on =
     (let pct = (\<lambda>f. format_pct_delta (f off) (f on)) in
      bind_result (pct m_throughput) (\<lambda>throughput_pct.
      bind_result (pct m_p50) (\<lambda>p50_pct.
      bind_result (pct m_p99) (\<lambda>p99_pct. Inr (delta_cells topology off on throughput_pct p50_pct p99_pct)))))"

definition delta_rows :: "matrix_row list \<Rightarrow> item list list result" where
  "delta_rows rows =
     bind_result (find_row rows ''local'' ''off'') (\<lambda>lo. bind_result (find_row rows ''local'' ''on'') (\<lambda>ln.
     bind_result (find_row rows ''remote'' ''off'') (\<lambda>ro. bind_result (find_row rows ''remote'' ''on'') (\<lambda>rn.
     bind_result (delta_row ''local'' lo ln) (\<lambda>l. bind_result (delta_row ''remote'' ro rn) (\<lambda>r. Inr [l, r]))))))"

definition phase5_assets :: "matrix_row list \<Rightarrow> (string \<times> asset result) list" where
  "phase5_assets rows =
     table_pair latex_table_phase5 ''table_phase5_overhead_matrix'' ''Phase 5 minimum 2x2 overhead matrix.''
       ''tab:phase5_overhead_matrix'' MATRIX_HEADER (Inr (map matrix_cells rows)) @
     table_pair latex_table_phase5 ''table_phase5_overhead_delta''
       ''Phase 5 telemetry on versus off deltas by topology.''
       ''tab:phase5_overhead_delta'' DELTA_HEADER (delta_rows rows)"

definition phase5_export_main :: "(string \<Rightarrow> string \<Rightarrow> json result) \<Rightarrow> (string \<times> asset) list \<times> unit result" where
  "phase5_export_main load =
     (case map_result (matrix_row_of load) SCENARIO_ORDER of
        Inl e \<Rightarrow> ([], Inl e)
      | Inr rows \<Rightarrow> write_all (phase5_assets rows))"

section \<open>Lemmas\<close>

lemma deq_zero: "x \<noteq> NaN \<Longrightarrow> deq x (Fin 0) \<longleftrightarrow> is_zero x"
  by (cases x) (auto simp: deq_def is_zero_def)

lemma format_pct_total:
  "\<exists>t. format_pct_delta off on = Inr t \<and> (t = ''n/a'' \<longleftrightarrow> deq off (Fin 0))"
proof (cases "deq off (Fin 0)")
  case False
  then have "\<not> is_zero off" by (cases off) (auto simp: deq_def is_zero_def)
  then obtain q where "ddiv (dsub on off) off = Inr q" by (simp add: ddiv_def Let_def)
  then show ?thesis using False by (simp add: format_pct_delta_def)
qed (simp add: format_pct_delta_def)

definition overhead_row :: "string \<Rightarrow> bench_summary \<Rightarrow> (string \<Rightarrow> dbl) \<Rightarrow> matrix_row" where
  "overhead_row name s usage = \<lparr>m_scenario = name, m_telemetry = fst (scenario_meta name),
     m_topology = snd (scenario_meta name), m_throughput = throughput_rps s, m_p50 = p50_latency_ms s,
     m_p99 = p99_latency_ms s, m_success = success_rate s, m_node1 = usage ''worker1_node_cpu_pct'',
     m_node2 = usage ''worker2_node_cpu_pct'', m_agent1 = usage ''worker1_agent_cpu_pct'',
     m_agent2 = usage ''worker2_agent_cpu_pct''\<rparr>"

definition CPU_FIELDS :: "string list" where
  "CPU_FIELDS = [''worker1_node_cpu_pct'', ''worker2_node_cpu_pct'', ''worker1_agent_cpu_pct'', ''worker2_agent_cpu_pct'']"

lemma matrix_row_overhead:
  assumes "load n ''bench_summary.json'' = Inr (bench_json args s)" and "load n ''cpu_summary.json'' = Inr (JObj c)"
    and "\<forall>k \<in> set CPU_FIELDS. metric_float c k = Inr (usage k)"
  shows "matrix_row_of load n = Inr (overhead_row n s usage)"
  using assms(3)
  by (simp add: matrix_row_of_def assms(1,2) bench_json_def sort_keys_JObj json_dict_def metric_float_def metric_def
      dict_index_def get_sorted_dict dict_get_def [of "_ # _"] json_float_def overhead_row_def CPU_FIELDS_def
      case_prod_beta del: sort_keys.simps(7))

lemma scenario_metas:
  "map scenario_meta SCENARIO_ORDER = [(''off'', ''local''), (''on'', ''local''), (''off'', ''remote''), (''on'', ''remote'')]"
  by code_simp

lemma delta_row_total:
  "\<exists>a b c. delta_row t off on = Inr (delta_cells t off on a b c) \<and> (a = ''n/a'' \<longleftrightarrow> deq (m_throughput off) (Fin 0)) \<and>
     (b = ''n/a'' \<longleftrightarrow> deq (m_p50 off) (Fin 0)) \<and> (c = ''n/a'' \<longleftrightarrow> deq (m_p99 off) (Fin 0))"
proof -
  obtain a where a: "format_pct_delta (m_throughput off) (m_throughput on) = Inr a" "a = ''n/a'' \<longleftrightarrow> deq (m_throughput off) (Fin 0)"
    using format_pct_total by meson
  obtain b where b: "format_pct_delta (m_p50 off) (m_p50 on) = Inr b" "b = ''n/a'' \<longleftrightarrow> deq (m_p50 off) (Fin 0)"
    using format_pct_total by meson
  obtain c where c: "format_pct_delta (m_p99 off) (m_p99 on) = Inr c" "c = ''n/a'' \<longleftrightarrow> deq (m_p99 off) (Fin 0)"
    using format_pct_total by meson
  show ?thesis
    using a b c by (intro exI [of _ a] exI [of _ b] exI [of _ c]) (simp add: delta_row_def)
qed

lemma overhead_row_meta [simp]:
  "m_topology (overhead_row n s u) = snd (scenario_meta n)" "m_telemetry (overhead_row n s u) = fst (scenario_meta n)"
  "m_throughput (overhead_row n s u) = throughput_rps s" "m_p50 (overhead_row n s u) = p50_latency_ms s"
  "m_p99 (overhead_row n s u) = p99_latency_ms s"
  by (simp_all add: overhead_row_def)

lemma scenario_names:
  "scenario_meta ''phase5-off-local'' = (''off'', ''local'')" "scenario_meta ''phase5-on-local'' = (''on'', ''local'')"
  "scenario_meta ''phase5-off-remote'' = (''off'', ''remote'')" "scenario_meta ''phase5-on-remote'' = (''on'', ''remote'')"
  using scenario_metas by (simp_all add: SCENARIO_ORDER_def)

text \<open>A run without a successful request reports latencies of zero.\<close>

lemma no_success_latency:
  assumes "summarise args wall rows = Inr s" and "filter ok rows = []"
  shows "p50_latency_ms s = Fin 0" and "p99_latency_ms s = Fin 0"
proof -
  have "py_round 3 (Fin 0) = Fin 0" by code_simp
  then show "p50_latency_ms s = Fin 0" "p99_latency_ms s = Fin 0"
    using assms by (auto simp: summarise_def Let_def bind_result_Inr percentile_def)
qed

text \<open>What the tables are to show: the measured values of a run, and on minus off for a topology.\<close>

definition RUNS :: "(string \<times> string \<times> string) list" where
  "RUNS = [(''phase5-off-local'', ''off'', ''local''), (''phase5-on-local'', ''on'', ''local''),
     (''phase5-off-remote'', ''off'', ''remote''), (''phase5-on-remote'', ''on'', ''remote'')]"

definition run_line :: "string \<times> string \<times> string \<Rightarrow> bench_summary \<Rightarrow> (string \<Rightarrow> dbl) \<Rightarrow> item list" where
  "run_line = (\<lambda>(name, mode, topology) s usage.
     [Text name, Text mode, Text topology, Float (throughput_rps s), Float (p50_latency_ms s), Float (p99_latency_ms s),
      Float (success_rate s), Float (usage ''worker1_node_cpu_pct''), Float (usage ''worker2_node_cpu_pct''),
      Float (usage ''worker1_agent_cpu_pct''), Float (usage ''worker2_agent_cpu_pct'')])"

definition pair_line ::
  "string \<Rightarrow> bench_summary \<Rightarrow> bench_summary \<Rightarrow> (string \<Rightarrow> dbl) \<Rightarrow> (string \<Rightarrow> dbl) \<Rightarrow> string \<times> string \<times> string \<Rightarrow> item list" where
  "pair_line topology off on off_usage on_usage = (\<lambda>(a, b, c).
     [Text topology, Float (dsub (throughput_rps on) (throughput_rps off)), Text a,
      Float (dsub (p50_latency_ms on) (p50_latency_ms off)), Text b, Float (dsub (p99_latency_ms on) (p99_latency_ms off)), Text c] @
     map (\<lambda>k. Float (dsub (on_usage k) (off_usage k)))
       [''worker1_agent_cpu_pct'', ''worker2_agent_cpu_pct'', ''worker1_node_cpu_pct'', ''worker2_node_cpu_pct''])"

definition missing_percent :: "bench_summary \<Rightarrow> string \<times> string \<times> string \<Rightarrow> bool" where
  "missing_percent off = (\<lambda>(a, b, c). (a = ''n/a'' \<longleftrightarrow> deq (throughput_rps off) (Fin 0)) \<and>
     (b = ''n/a'' \<longleftrightarrow> deq (p50_latency_ms off) (Fin 0)) \<and> (c = ''n/a'' \<longleftrightarrow> deq (p99_latency_ms off) (Fin 0)))"

lemma run_lines:
  "map matrix_cells (map (\<lambda>n. overhead_row n (s n) (usage n)) SCENARIO_ORDER) = map (\<lambda>r. run_line r (s (fst r)) (usage (fst r))) RUNS"
  by (simp add: SCENARIO_ORDER_def RUNS_def run_line_def matrix_cells_def overhead_row_def scenario_names)

lemma delta_line:
  "\<exists>p. delta_row t (overhead_row off s u) (overhead_row on s' u') = Inr (pair_line t s s' u u' p) \<and> missing_percent s p"
proof -
  from delta_row_total [of t "overhead_row off s u" "overhead_row on s' u'"] obtain a b c where
    l: "delta_row t (overhead_row off s u) (overhead_row on s' u') = Inr (delta_cells t (overhead_row off s u) (overhead_row on s' u') a b c)"
      "a = ''n/a'' \<longleftrightarrow> deq (m_throughput (overhead_row off s u)) (Fin 0)" "b = ''n/a'' \<longleftrightarrow> deq (m_p50 (overhead_row off s u)) (Fin 0)"
      "c = ''n/a'' \<longleftrightarrow> deq (m_p99 (overhead_row off s u)) (Fin 0)"
    by (elim exE conjE)
  then show ?thesis
    by (intro exI [of _ "(a, b, c)"]) (simp add: missing_percent_def pair_line_def delta_cells_def overhead_row_def Let_def)
qed

lemma delta_lines:
  "\<exists>l r. delta_rows (map (\<lambda>n. overhead_row n (s n) (usage n)) SCENARIO_ORDER) = Inr
      [pair_line ''local'' (s ''phase5-off-local'') (s ''phase5-on-local'') (usage ''phase5-off-local'') (usage ''phase5-on-local'') l,
       pair_line ''remote'' (s ''phase5-off-remote'') (s ''phase5-on-remote'') (usage ''phase5-off-remote'') (usage ''phase5-on-remote'') r] \<and>
    missing_percent (s ''phase5-off-local'') l \<and> missing_percent (s ''phase5-off-remote'') r"
proof -
  let ?r = "\<lambda>n. overhead_row n (s n) (usage n)"
  from delta_line [of "''local''" "''phase5-off-local''" "s ''phase5-off-local''" "usage ''phase5-off-local''" "''phase5-on-local''" "s ''phase5-on-local''" "usage ''phase5-on-local''"]
  obtain l where l: "delta_row ''local'' (?r ''phase5-off-local'') (?r ''phase5-on-local'') = Inr (pair_line ''local''
      (s ''phase5-off-local'') (s ''phase5-on-local'') (usage ''phase5-off-local'') (usage ''phase5-on-local'') l)"
    "missing_percent (s ''phase5-off-local'') l"
    by (elim exE conjE)
  from delta_line [of "''remote''" "''phase5-off-remote''" "s ''phase5-off-remote''" "usage ''phase5-off-remote''" "''phase5-on-remote''" "s ''phase5-on-remote''" "usage ''phase5-on-remote''"]
  obtain r where r: "delta_row ''remote'' (?r ''phase5-off-remote'') (?r ''phase5-on-remote'') = Inr (pair_line ''remote''
      (s ''phase5-off-remote'') (s ''phase5-on-remote'') (usage ''phase5-off-remote'') (usage ''phase5-on-remote'') r)"
    "missing_percent (s ''phase5-off-remote'') r"
    by (elim exE conjE)
  have "find_row (map ?r SCENARIO_ORDER) ''local'' ''off'' = Inr (?r ''phase5-off-local'')"
    "find_row (map ?r SCENARIO_ORDER) ''local'' ''on'' = Inr (?r ''phase5-on-local'')"
    "find_row (map ?r SCENARIO_ORDER) ''remote'' ''off'' = Inr (?r ''phase5-off-remote'')"
    "find_row (map ?r SCENARIO_ORDER) ''remote'' ''on'' = Inr (?r ''phase5-on-remote'')"
    by (simp_all add: find_row_def SCENARIO_ORDER_def scenario_names)
  then have "delta_rows (map ?r SCENARIO_ORDER) = Inr
      [pair_line ''local'' (s ''phase5-off-local'') (s ''phase5-on-local'') (usage ''phase5-off-local'') (usage ''phase5-on-local'') l,
       pair_line ''remote'' (s ''phase5-off-remote'') (s ''phase5-on-remote'') (usage ''phase5-off-remote'') (usage ''phase5-on-remote'') r]"
    by (simp only: delta_rows_def bind_result_simps l(1) r(1))
  then show ?thesis using l(2) r(2) by (intro exI conjI)
qed

section \<open>Properties\<close>

text \<open>C10: the export shows what the benchmark measured. When the four scenario directories hold the
summary the benchmark makes of its requests and a CPU summary with its four numbers, the export
writes exactly four files without an error. The rows of the matrix are the four combinations of
topology and telemetry with the measured values, and the delta table has a row per topology, on
minus off; a percentage is missing exactly where the value with telemetry off is zero, as it is for
both latencies of a run with telemetry off in which no request succeeded.\<close>

theorem overhead_export:
  assumes runs: "\<forall>n \<in> set SCENARIO_ORDER. summarise (args n) (wall n) (rows n) = Inr (s n) \<and>
      load n ''bench_summary.json'' = Inr (bench_json (args n) (s n)) \<and>
      load n ''cpu_summary.json'' = Inr (JObj (cpu n)) \<and> (\<forall>k \<in> set CPU_FIELDS. metric_float (cpu n) k = Inr (usage n k))"
  shows "\<exists>l r. phase5_export_main load =
     (let matrix = map (\<lambda>r. run_line r (s (fst r)) (usage (fst r))) RUNS;
          delta = [pair_line ''local'' (s ''phase5-off-local'') (s ''phase5-on-local'')
              (usage ''phase5-off-local'') (usage ''phase5-on-local'') l,
            pair_line ''remote'' (s ''phase5-off-remote'') (s ''phase5-on-remote'')
              (usage ''phase5-off-remote'') (usage ''phase5-on-remote'') r]
      in ([(''table_phase5_overhead_matrix.csv'', Csv_Table (MATRIX_HEADER, matrix)),
        (''table_phase5_overhead_matrix.tex'', Latex_Table (latex_table_phase5 ''Phase 5 minimum 2x2 overhead matrix.''
           ''tab:phase5_overhead_matrix'' MATRIX_HEADER matrix)),
        (''table_phase5_overhead_delta.csv'', Csv_Table (DELTA_HEADER, delta)),
        (''table_phase5_overhead_delta.tex'', Latex_Table (latex_table_phase5
           ''Phase 5 telemetry on versus off deltas by topology.'' ''tab:phase5_overhead_delta'' DELTA_HEADER delta))], Inr ())) \<and>
    missing_percent (s ''phase5-off-local'') l \<and> missing_percent (s ''phase5-off-remote'') r \<and>
    (filter ok (rows ''phase5-off-local'') = [] \<longrightarrow> snd l = (''n/a'', ''n/a'')) \<and>
    (filter ok (rows ''phase5-off-remote'') = [] \<longrightarrow> snd r = (''n/a'', ''n/a''))"
proof -
  have "matrix_row_of load n = Inr (overhead_row n (s n) (usage n))" if "n \<in> set SCENARIO_ORDER" for n
    using runs that by (intro matrix_row_overhead) auto
  then have rows: "map_result (matrix_row_of load) SCENARIO_ORDER = Inr (map (\<lambda>n. overhead_row n (s n) (usage n)) SCENARIO_ORDER)"
    by (intro map_result_total ballI)
  from delta_lines [of s usage] obtain l r where
    d: "delta_rows (map (\<lambda>n. overhead_row n (s n) (usage n)) SCENARIO_ORDER) = Inr
      [pair_line ''local'' (s ''phase5-off-local'') (s ''phase5-on-local'') (usage ''phase5-off-local'') (usage ''phase5-on-local'') l,
       pair_line ''remote'' (s ''phase5-off-remote'') (s ''phase5-on-remote'') (usage ''phase5-off-remote'') (usage ''phase5-on-remote'') r]"
    and missing: "missing_percent (s ''phase5-off-local'') l" "missing_percent (s ''phase5-off-remote'') r"
    by (elim exE conjE)
  have quiet: "snd p = (''n/a'', ''n/a'')"
    if "n \<in> set SCENARIO_ORDER" "filter ok (rows n) = []" "missing_percent (s n) p" for n p
    using runs no_success_latency that by (cases p) (fastforce simp: deq_def missing_percent_def)
  have "''phase5-off-local'' \<in> set SCENARIO_ORDER" "''phase5-off-remote'' \<in> set SCENARIO_ORDER"
    by (simp_all add: SCENARIO_ORDER_def)
  then have "filter ok (rows ''phase5-off-local'') = [] \<longrightarrow> snd l = (''n/a'', ''n/a'')"
    "filter ok (rows ''phase5-off-remote'') = [] \<longrightarrow> snd r = (''n/a'', ''n/a'')"
    using quiet missing by simp_all
  then show ?thesis
    using missing
    by (intro exI [of _ l] exI [of _ r] conjI)
      (simp_all only: phase5_export_main_def rows phase5_assets_def table_pair_def sum.case d bind_result_simps
        append.simps write_all.simps Let_def case_prod_conv run_lines)
qed

subsection \<open>Witness\<close>

definition demo_requests :: "string \<Rightarrow> bench_row list" where
  "demo_requests n = (if n = ''phase5-off-remote'' then [] else [demo_row])"

definition demo_cpu :: "(string \<times> json) list" where
  "demo_cpu = map (\<lambda>k. (k, JInt 3)) CPU_FIELDS"

lemma demo_summaries: "\<exists>s. summarise demo_bench_args (Fin 0) (demo_requests n) = Inr s"
proof (cases "n = ''phase5-off-remote''")
  case True
  then show ?thesis
    by (simp add: demo_requests_def summarise_def demo_bench_args_def percentile_def dmul_def dadd_def is_zero_def
        sign_bit_def zero_of_def rnd_def dtrunc_def Let_def)
next
  case False
  then have rows: "demo_requests n = sort_key ts_unix_ms (request_rows (demo_state Finished None [demo_row] (Fin 20) False))"
    by (simp add: demo_requests_def demo_state_def)
  obtain f s where "bench_finish demo_bench_args (Fin 0) (demo_state Finished None [demo_row] (Fin 20) False) = Inr (f, s)"
    using demo_finish by (elim exE)
  then show ?thesis
    unfolding rows bench_finish_def Let_def bind_result_Inr by (elim exE conjE) (intro exI)
qed

lemma demo_cpu_fields: "\<forall>k \<in> set CPU_FIELDS. metric_float demo_cpu k = Inr (dbl_of_int 3)"
  by (simp add: demo_cpu_def CPU_FIELDS_def metric_float_def metric_def dict_index_def dict_get_def json_float_def)

theorem overhead_export_witness:
  "\<exists>load x y z local remote.
     phase5_export_main load = ([x, y, (''table_phase5_overhead_delta.csv'', Csv_Table (DELTA_HEADER, [local, remote])), z], Inr ()) \<and>
     remote ! 4 = Text ''n/a'' \<and> remote ! 6 = Text ''n/a''"
proof -
  have "\<forall>n. \<exists>s. summarise demo_bench_args (Fin 0) (demo_requests n) = Inr s" by (intro allI demo_summaries)
  then obtain s where s: "\<And>n. summarise demo_bench_args (Fin 0) (demo_requests n) = Inr (s n)" by metis
  define load where "load n f = (if f = ''bench_summary.json'' then Inr (bench_json demo_bench_args (s n)) else Inr (JObj demo_cpu) :: json result)" for n f
  have runs: "\<forall>n \<in> set SCENARIO_ORDER. summarise demo_bench_args (Fin 0) (demo_requests n) = Inr (s n) \<and>
      load n ''bench_summary.json'' = Inr (bench_json demo_bench_args (s n)) \<and>
      load n ''cpu_summary.json'' = Inr (JObj demo_cpu) \<and> (\<forall>k \<in> set CPU_FIELDS. metric_float demo_cpu k = Inr (dbl_of_int 3))"
    using s demo_cpu_fields by (simp add: load_def)
  from overhead_export [OF runs] obtain l r where
    main: "\<exists>x y z local. phase5_export_main load = ([x, y, (''table_phase5_overhead_delta.csv'', Csv_Table (DELTA_HEADER,
        [local, pair_line ''remote'' (s ''phase5-off-remote'') (s ''phase5-on-remote'') (\<lambda>_. dbl_of_int 3) (\<lambda>_. dbl_of_int 3) r])), z], Inr ())"
    and quiet: "filter ok (demo_requests ''phase5-off-remote'') = [] \<longrightarrow> snd r = (''n/a'', ''n/a'')"
    unfolding Let_def by blast
  have "snd r = (''n/a'', ''n/a'')" using quiet by (simp add: demo_requests_def)
  then have "pair_line ''remote'' (s ''phase5-off-remote'') (s ''phase5-on-remote'') u v r ! 4 = Text ''n/a'' \<and>
      pair_line ''remote'' (s ''phase5-off-remote'') (s ''phase5-on-remote'') u v r ! 6 = Text ''n/a''" for u v
    by (cases r) (simp add: pair_line_def)
  then show ?thesis using main by blast
qed

end
