(* ===== verification/Paper_Phase6.thy ===== *)
theory Paper_Phase6
  imports Paper_Phase4
begin

text \<open>
  \<open>phase6_export_paper_assets.py\<close>: the tables of the paper from the summaries of the generalization
  and the ablation study. The summaries come through \<open>pandas.read_csv\<close>, so what the script starts from
  are tables of cells; which of them a written table gives is stated where it is needed. The figures, drawn after the tables,
  are in \<open>Paper_Figures\<close>; the outcome here is the one before they are drawn.
\<close>

section \<open>Rows of a read table\<close>

type_synonym data_row = "(string \<times> item) list"

definition frame_rows :: "table \<Rightarrow> data_row list" where
  "frame_rows t = map (zip (fst t)) (snd t)"

text \<open>\<open>row[column]\<close> as a cell of the new table, \<open>int(row[column])\<close> and \<open>float(row[column])\<close>: a missing
  value is NaN.\<close>

definition kept_cell :: "data_row \<Rightarrow> string \<Rightarrow> item result" where
  "kept_cell r c = bind_result (dict_index r c) (\<lambda>i. Inr (if i = Absent then Float NaN else i))"

definition int_cell :: "data_row \<Rightarrow> string \<Rightarrow> item result" where
  "int_cell r c = bind_result (dict_index r c) (\<lambda>i. case i of
      Whole n \<Rightarrow> Inr (Whole n)
    | Float d \<Rightarrow> bind_result (dtrunc d) (\<lambda>n. Inr (Whole n))
    | Text s \<Rightarrow> (case py_int s of None \<Rightarrow> Inl ValueError | Some n \<Rightarrow> Inr (Whole n))
    | Absent \<Rightarrow> Inl ValueError)"

definition item_float :: "item \<Rightarrow> dbl result" where
  "item_float i = (case i of
      Whole n \<Rightarrow> Inr (dbl_of_int n) | Float d \<Rightarrow> Inr d | Absent \<Rightarrow> Inr NaN
    | Text s \<Rightarrow> (case py_float s of None \<Rightarrow> Inl ValueError | Some d \<Rightarrow> Inr d))"

definition cell_float :: "data_row \<Rightarrow> string \<Rightarrow> dbl result" where
  "cell_float r c = bind_result (dict_index r c) item_float"

definition float_cell :: "data_row \<Rightarrow> string \<Rightarrow> item result" where
  "float_cell r c = bind_result (cell_float r c) (\<lambda>d. Inr (Float d))"

section \<open>Generalization\<close>

definition GENERALIZATION_BINARY_HEADER :: "string list" where
  "GENERALIZATION_BINARY_HEADER = [''scope'', ''scenario_family'', ''topology'', ''load_tier'', ''row_count'',
     ''false_positive_rate'', ''specificity'', ''anomaly_f1'', ''balanced_accuracy'']"

definition normal_export_row :: "data_row \<Rightarrow> item list result" where
  "normal_export_row r = map_result (\<lambda>x. x)
     [Inr (Text ''normal''), Inr (Text ''normal''), kept_cell r ''topology'', kept_cell r ''load_tier'',
      int_cell r ''row_count'', float_cell r ''false_positive_rate'', float_cell r ''specificity'',
      Inr (Float NaN), Inr (Float NaN)]"

definition anomaly_export_row :: "data_row \<Rightarrow> item list result" where
  "anomaly_export_row r = map_result (\<lambda>x. x)
     [Inr (Text ''anomaly''), kept_cell r ''scenario_family'', kept_cell r ''topology'', kept_cell r ''load_tier'',
      int_cell r ''row_count'', Inr (Float NaN), Inr (Float NaN),
      float_cell r ''anomaly_f1'', float_cell r ''balanced_accuracy'']"

definition generalization_binary_rows :: "table \<Rightarrow> table \<Rightarrow> item list list result" where
  "generalization_binary_rows normal anomaly =
     bind_result (map_result normal_export_row (frame_rows normal)) (\<lambda>ns.
     bind_result (map_result anomaly_export_row (frame_rows anomaly)) (\<lambda>as. Inr (ns @ as)))"

definition GENERALIZATION_MULTICLASS_HEADER :: "string list" where
  "GENERALIZATION_MULTICLASS_HEADER = [''scenario_family'', ''topology'', ''load_tier'', ''row_count'',
     ''macro_f1'', ''balanced_accuracy'', ''primary_label_f1'']"

definition multiclass_export_row :: "data_row \<Rightarrow> item list result" where
  "multiclass_export_row r = map_result (\<lambda>x. x)
     [kept_cell r ''scenario_family'', kept_cell r ''topology'', kept_cell r ''load_tier'', int_cell r ''row_count'',
      float_cell r ''macro_f1'', float_cell r ''balanced_accuracy'', float_cell r ''primary_label_f1'']"

definition generalization_multiclass_rows :: "table \<Rightarrow> item list list result" where
  "generalization_multiclass_rows t = map_result multiclass_export_row (frame_rows t)"

section \<open>Ablation\<close>

text \<open>\<open>float(df.loc[df["variant"] == "all_features", column].iloc[0])\<close>.\<close>

definition baseline :: "table \<Rightarrow> string \<Rightarrow> dbl result" where
  "baseline t c =
     (if ''variant'' \<notin> set (fst t) then Inl (KeyError ''variant'')
      else if c \<notin> set (fst t) then Inl (KeyError c)
      else case filter (\<lambda>r. dict_get r ''variant'' = Some (Text ''all_features'')) (frame_rows t) of
         [] \<Rightarrow> Inl IndexError
       | r # _ \<Rightarrow> cell_float r c)"

definition ABLATION_BINARY_HEADER :: "string list" where
  "ABLATION_BINARY_HEADER = [''variant'', ''feature_count'', ''test_anomaly_f1'', ''test_pr_auc'',
     ''test_balanced_accuracy'', ''delta_vs_all'']"

definition ABLATION_MULTICLASS_HEADER :: "string list" where
  "ABLATION_MULTICLASS_HEADER = [''variant'', ''feature_count'', ''test_macro_f1'', ''test_balanced_accuracy'',
     ''delta_vs_all'']"

definition ablation_binary_row :: "dbl \<Rightarrow> data_row \<Rightarrow> item list result" where
  "ablation_binary_row all r =
     bind_result (cell_float r ''test_anomaly_f1'') (\<lambda>test_f1.
       map_result (\<lambda>x. x)
         [kept_cell r ''variant'', int_cell r ''feature_count'', Inr (Float test_f1), float_cell r ''test_pr_auc'',
          float_cell r ''test_balanced_accuracy'', Inr (Float (dsub test_f1 all))])"

definition ablation_multiclass_row :: "dbl \<Rightarrow> data_row \<Rightarrow> item list result" where
  "ablation_multiclass_row all r =
     bind_result (cell_float r ''test_macro_f1'') (\<lambda>test_macro.
       map_result (\<lambda>x. x)
         [kept_cell r ''variant'', int_cell r ''feature_count'', Inr (Float test_macro),
          float_cell r ''test_balanced_accuracy'', Inr (Float (dsub test_macro all))])"

definition ablation_binary_rows :: "table \<Rightarrow> item list list result" where
  "ablation_binary_rows t = bind_result (baseline t ''test_anomaly_f1'') (\<lambda>all.
     map_result (ablation_binary_row all) (frame_rows t))"

definition ablation_multiclass_rows :: "table \<Rightarrow> item list list result" where
  "ablation_multiclass_rows t = bind_result (baseline t ''test_macro_f1'') (\<lambda>all.
     map_result (ablation_multiclass_row all) (frame_rows t))"

section \<open>The script\<close>

text \<open>The copied files: the directory and name of the source, and the name it is given.\<close>

definition SOURCE_COPIES :: "(string \<times> string \<times> string) list" where
  "SOURCE_COPIES =
     map (\<lambda>n. (''phase6_generalization_v1'', n, n))
       [''normal_binary_metrics.json'', ''anomaly_binary_metrics.json'', ''anomaly_multiclass_metrics.json'',
        ''normal_binary_summary.csv'', ''anomaly_binary_summary.csv'', ''anomaly_multiclass_summary.csv''] @
     [(''phase6_generalization_v1'', ''run_manifest.json'', ''generalization_run_manifest.json'')] @
     map (\<lambda>n. (''phase6_ablation_v1'', n, n))
       [''binary_metrics.json'', ''multiclass_metrics.json'', ''binary_variant_summary.csv'',
        ''multiclass_variant_summary.csv''] @
     [(''phase6_ablation_v1'', ''run_manifest.json'', ''ablation_run_manifest.json'')]"

definition source_copies :: "(string \<Rightarrow> string \<Rightarrow> string result) \<Rightarrow> (string \<times> asset result) list" where
  "source_copies read_file = map (\<lambda>(dir, name, target). (target, bind_result (read_file dir name) (\<lambda>c. Inr (Copied c)))) SOURCE_COPIES"

definition phase6_tables :: "table \<Rightarrow> table \<Rightarrow> table \<Rightarrow> table \<Rightarrow> table \<Rightarrow> (string \<times> asset result) list" where
  "phase6_tables normal anomaly multi binary_ablation multiclass_ablation =
     table_pair latex_table_phase6 ''table_phase6_generalization_binary''
       ''Phase 6 generalization results for binary anomaly detection.'' ''tab:phase6_generalization_binary''
       GENERALIZATION_BINARY_HEADER (generalization_binary_rows normal anomaly) @
     table_pair latex_table_phase6 ''table_phase6_generalization_multiclass''
       ''Phase 6 generalization results for multiclass anomaly classification.''
       ''tab:phase6_generalization_multiclass''
       GENERALIZATION_MULTICLASS_HEADER (generalization_multiclass_rows multi) @
     table_pair latex_table_phase6 ''table_phase6_ablation_binary'' ''Phase 6 binary ablation results.''
       ''tab:phase6_ablation_binary'' ABLATION_BINARY_HEADER (ablation_binary_rows binary_ablation) @
     table_pair latex_table_phase6 ''table_phase6_ablation_multiclass'' ''Phase 6 multiclass ablation results.''
       ''tab:phase6_ablation_multiclass'' ABLATION_MULTICLASS_HEADER (ablation_multiclass_rows multiclass_ablation)"

text \<open>
  The directory of copied sources: a manifest left there by an earlier version is removed first, even
  when the rest fails. Its files after the run, the other written files, and the outcome.
\<close>

record phase6_state =
  source_dir :: "(string, asset) pydict"
  table_files :: "(string \<times> asset) list"

definition phase6_export_main ::
  "(string \<Rightarrow> string \<Rightarrow> table result) \<Rightarrow> (string \<Rightarrow> string \<Rightarrow> string result) \<Rightarrow> (string, asset) pydict \<Rightarrow>
     phase6_state \<times> unit result" where
  "phase6_export_main read_csv read_file old_sources =
     (let kept = filter (\<lambda>(n, _). n \<noteq> ''run_manifest.json'') old_sources
      in case bind_result (read_csv ''phase6_generalization_v1'' ''normal_binary_summary.csv'') (\<lambda>normal.
           bind_result (read_csv ''phase6_generalization_v1'' ''anomaly_binary_summary.csv'') (\<lambda>anomaly.
           bind_result (read_csv ''phase6_generalization_v1'' ''anomaly_multiclass_summary.csv'') (\<lambda>multi.
           bind_result (read_csv ''phase6_ablation_v1'' ''binary_variant_summary.csv'') (\<lambda>binary_ablation.
           bind_result (read_csv ''phase6_ablation_v1'' ''multiclass_variant_summary.csv'') (\<lambda>multiclass_ablation.
             Inr (phase6_tables normal anomaly multi binary_ablation multiclass_ablation)))))) of
        Inl e \<Rightarrow> (\<lparr>source_dir = kept, table_files = []\<rparr>, Inl e)
      | Inr pairs \<Rightarrow>
          (case write_all (source_copies read_file) of
             (copied, Inl e) \<Rightarrow> (\<lparr>source_dir = dict_update kept copied, table_files = []\<rparr>, Inl e)
           | (copied, Inr _) \<Rightarrow>
               (let (out, res) = write_all pairs
                in (\<lparr>source_dir = dict_update kept copied, table_files = out\<rparr>, res))))"

section \<open>Tables that were written and read\<close>

text \<open>
  What \<open>pandas.read_csv\<close> makes of a written cell: its documented marks of a missing value become
  missing, other texts and whole numbers stay, and a float is read with a rounding of its own. pandas
  chooses a type per column; a column whose texts all look like numbers would be read as numbers, which
  no column of names is.
\<close>

definition NA_TEXTS :: "string list" where
  "NA_TEXTS = [[], ''#N/A'', ''#N/A N/A'', ''#NA'', ''-1.#IND'', ''-1.#QNAN'', ''-NaN'', ''-nan'', ''1.#IND'',
     ''1.#QNAN'', ''<NA>'', ''N/A'', ''NA'', ''NULL'', ''NaN'', ''None'', ''n/a'', ''nan'', ''null'']"

definition reads_as :: "(dbl \<Rightarrow> dbl) \<Rightarrow> item \<Rightarrow> item \<Rightarrow> bool" where
  "reads_as reread i j \<longleftrightarrow> (case i of
      Text s \<Rightarrow> j = (if s \<in> set NA_TEXTS then Absent else Text s)
    | Whole n \<Rightarrow> j = Whole n
    | Float d \<Rightarrow> j = (if d = NaN then Absent else Float (reread d))
    | Absent \<Rightarrow> j = Absent)"

definition reads_back :: "(dbl \<Rightarrow> dbl) \<Rightarrow> table \<Rightarrow> table \<Rightarrow> bool" where
  "reads_back reread t t' \<longleftrightarrow> fst t' = fst t \<and> list_all2 (list_all2 (reads_as reread)) (snd t) (snd t')"

definition read_number :: "(dbl \<Rightarrow> dbl) \<Rightarrow> dbl \<Rightarrow> dbl" where
  "read_number reread d = (if d = NaN then NaN else reread d)"

text \<open>The row \<open>r'\<close> has the cells of \<open>r\<close> in the columns \<open>cs\<close>.\<close>

definition row_read :: "(dbl \<Rightarrow> dbl) \<Rightarrow> string list \<Rightarrow> data_row \<Rightarrow> data_row \<Rightarrow> bool" where
  "row_read reread cs r r' \<longleftrightarrow>
     (\<forall>c \<in> set cs. \<exists>j. dict_get r' c = Some j \<and> reads_as reread (dict_get_or Absent r c) j)"

lemma get_zip_read:
  "list_all2 R xs ys \<Longrightarrow> dict_get (zip h xs) c = Some i \<Longrightarrow> \<exists>j. dict_get (zip h ys) c = Some j \<and> R i j"
proof (induction h arbitrary: xs ys)
  case (Cons k h)
  from Cons.prems show ?case
    by (cases xs; cases ys) (auto simp: dict_get_def split: if_splits dest!: Cons.IH [unfolded dict_get_def])
qed (simp add: dict_get_def)

lemma dict_get_header: "c \<in> set h \<Longrightarrow> dict_get (zip h (map f h)) c = Some (f c)"
  by (induction h) (auto simp: dict_get_def)

lemma summary_rows_read:
  assumes "reads_back reread (summary_table h rows) t"
  shows "list_all2 (row_read reread h) rows (frame_rows t)"
proof -
  have "fst t = h" "list_all2 (list_all2 (reads_as reread)) (map (\<lambda>r. map (dict_get_or Absent r) h) rows) (snd t)"
    using assms by (simp_all add: reads_back_def summary_table_def)
  then have "list_all2 (\<lambda>r ys. list_all2 (reads_as reread) (map (dict_get_or Absent r) h) ys) rows (snd t)"
    by (simp add: list_all2_map1)
  then have "list_all2 (\<lambda>r ys. row_read reread h r (zip h ys)) rows (snd t)"
    by (rule list_all2_mono) (auto simp: row_read_def dest: get_zip_read [OF _ dict_get_header])
  then show ?thesis
    using \<open>fst t = h\<close> by (simp add: frame_rows_def list_all2_map2)
qed

lemma cells_read:
  assumes "row_read reread cs r r'" and "c \<in> set cs"
  shows "dict_get_or Absent r c = Float d \<Longrightarrow> float_cell r' c = Inr (Float (read_number reread d))"
    and "dict_get_or Absent r c = Float d \<Longrightarrow> cell_float r' c = Inr (read_number reread d)"
    and "dict_get_or Absent r c = Whole n \<Longrightarrow> int_cell r' c = Inr (Whole n)"
    and "\<exists>i. kept_cell r' c = Inr i"
    and "dict_get_or Absent r c = Absent \<Longrightarrow> float_cell r' c = Inr (Float NaN)"
    and "dict_get_or Absent r c = Text s \<Longrightarrow> s \<notin> set NA_TEXTS \<Longrightarrow> kept_cell r' c = Inr (Text s)"
  using assms by (auto simp: row_read_def reads_as_def float_cell_def cell_float_def int_cell_def kept_cell_def
      dict_index_def item_float_def read_number_def)

section \<open>The generalization tables\<close>

lemma dict_get_or_append: "dict_get_or d (xs @ ys) k = dict_get_or (dict_get_or d ys k) xs k"
  by (simp add: dict_get_or_def dict_get_def map_add_def split: option.splits)

lemmas cell_simps = dict_get_or_def dict_get_def

lemma normal_row_cells:
  assumes "normal_row (k, g) = Inr r"
  shows "dict_get_or Absent r ''row_count'' = Whole (int (length g))"
    and "\<exists>x. dict_get_or Absent r ''false_positive_rate'' = Float x" and "\<exists>x. dict_get_or Absent r ''specificity'' = Float x"
  using assms
  by (cases k; auto simp: normal_row_def normal_group_metrics_def bind_result_Inr Let_def cell_simps)+

lemma anomaly_binary_row_cells:
  assumes "anomaly_binary_row M (k, g) = Inr r"
  shows "dict_get_or Absent r ''row_count'' = Whole (int (length g))"
    and "\<exists>x. dict_get_or Absent r ''anomaly_f1'' = Float x" and "\<exists>x. dict_get_or Absent r ''balanced_accuracy'' = Float x"
  using assms
  by (cases k; auto simp: anomaly_binary_row_def group_entries_def bind_result_Inr Let_def cell_simps)+

lemma anomaly_multiclass_row_cells:
  assumes "anomaly_multiclass_row M labels (k, g) = Inr r"
  shows "dict_get_or Absent r ''row_count'' = Whole (int (length g))"
    and "\<exists>x. dict_get_or Absent r ''macro_f1'' = Float x" and "\<exists>x. dict_get_or Absent r ''balanced_accuracy'' = Float x"
    and "\<exists>x. dict_get_or Absent r ''primary_label_f1'' = Float x"
  using assms
  by (cases k; auto simp: anomaly_multiclass_row_def group_entries_def bind_result_Inr Let_def cell_simps split: prod.splits)+

definition scope_row :: "string \<Rightarrow> item list \<Rightarrow> bool" where
  "scope_row scope row \<longleftrightarrow> length row = length GENERALIZATION_BINARY_HEADER \<and> hd row = Text scope \<and>
     (if scope = ''normal'' then drop 7 row = [Float NaN, Float NaN] else row ! 5 = Float NaN \<and> row ! 6 = Float NaN)"

lemma normal_exported:
  assumes "normal_row (k, g) = Inr r" and "row_read reread NORMAL_HEADER r r'"
  shows "\<exists>row. normal_export_row r' = Inr row \<and> scope_row ''normal'' row \<and> row ! 4 = Whole (int (length g))"
proof -
  note c = normal_row_cells [OF assms(1)]
  obtain x y where xy: "dict_get_or Absent r ''false_positive_rate'' = Float x" "dict_get_or Absent r ''specificity'' = Float y"
    using c(2,3) by blast
  have "float_cell r' ''false_positive_rate'' = Inr (Float (read_number reread x))"
    "float_cell r' ''specificity'' = Inr (Float (read_number reread y))"
    using cells_read(1) [OF assms(2)] xy by (simp_all add: NORMAL_HEADER_def)
  moreover have "int_cell r' ''row_count'' = Inr (Whole (int (length g)))"
    using cells_read(3) [OF assms(2) _ c(1)] by (simp add: NORMAL_HEADER_def)
  moreover obtain i j where "kept_cell r' ''topology'' = Inr i" "kept_cell r' ''load_tier'' = Inr j"
    using cells_read(4) [OF assms(2), of "''topology''"] cells_read(4) [OF assms(2), of "''load_tier''"]
    by (auto simp: NORMAL_HEADER_def)
  ultimately show ?thesis
    by (simp add: normal_export_row_def scope_row_def GENERALIZATION_BINARY_HEADER_def)
qed

lemma anomaly_exported:
  assumes "anomaly_binary_row M (k, g) = Inr r" and "row_read reread ANOMALY_BINARY_HEADER r r'"
  shows "\<exists>row. anomaly_export_row r' = Inr row \<and> scope_row ''anomaly'' row \<and> row ! 4 = Whole (int (length g))"
proof -
  note c = anomaly_binary_row_cells [OF assms(1)]
  obtain x y where xy: "dict_get_or Absent r ''anomaly_f1'' = Float x" "dict_get_or Absent r ''balanced_accuracy'' = Float y"
    using c(2,3) by blast
  have "float_cell r' ''anomaly_f1'' = Inr (Float (read_number reread x))"
    "float_cell r' ''balanced_accuracy'' = Inr (Float (read_number reread y))"
    using cells_read(1) [OF assms(2)] xy by (simp_all add: ANOMALY_BINARY_HEADER_def)
  moreover have "int_cell r' ''row_count'' = Inr (Whole (int (length g)))"
    using cells_read(3) [OF assms(2) _ c(1)] by (simp add: ANOMALY_BINARY_HEADER_def)
  moreover obtain i j l where "kept_cell r' ''scenario_family'' = Inr i" "kept_cell r' ''topology'' = Inr j" "kept_cell r' ''load_tier'' = Inr l"
    using cells_read(4) [OF assms(2), of "''scenario_family''"] cells_read(4) [OF assms(2), of "''topology''"]
      cells_read(4) [OF assms(2), of "''load_tier''"]
    by (auto simp: ANOMALY_BINARY_HEADER_def)
  ultimately show ?thesis
    by (simp add: anomaly_export_row_def scope_row_def GENERALIZATION_BINARY_HEADER_def)
qed

lemma multiclass_exported:
  assumes "anomaly_multiclass_row M labels (k, g) = Inr r" and "row_read reread ANOMALY_MULTICLASS_HEADER r r'"
  shows "\<exists>row. multiclass_export_row r' = Inr row \<and> length row = 7 \<and> row ! 3 = Whole (int (length g))"
proof -
  note c = anomaly_multiclass_row_cells [OF assms(1)]
  obtain x y z where xyz: "dict_get_or Absent r ''macro_f1'' = Float x" "dict_get_or Absent r ''balanced_accuracy'' = Float y"
    "dict_get_or Absent r ''primary_label_f1'' = Float z"
    using c(2-4) by blast
  have "float_cell r' ''macro_f1'' = Inr (Float (read_number reread x))"
    "float_cell r' ''balanced_accuracy'' = Inr (Float (read_number reread y))"
    "float_cell r' ''primary_label_f1'' = Inr (Float (read_number reread z))"
    using cells_read(1) [OF assms(2)] xyz by (simp_all add: ANOMALY_MULTICLASS_HEADER_def)
  moreover have "int_cell r' ''row_count'' = Inr (Whole (int (length g)))"
    using cells_read(3) [OF assms(2) _ c(1)] by (simp add: ANOMALY_MULTICLASS_HEADER_def)
  moreover obtain i j l where "kept_cell r' ''scenario_family'' = Inr i" "kept_cell r' ''topology'' = Inr j" "kept_cell r' ''load_tier'' = Inr l"
    using cells_read(4) [OF assms(2), of "''scenario_family''"] cells_read(4) [OF assms(2), of "''topology''"]
      cells_read(4) [OF assms(2), of "''load_tier''"]
    by (auto simp: ANOMALY_MULTICLASS_HEADER_def)
  ultimately show ?thesis by (simp add: multiclass_export_row_def)
qed

text \<open>A table made of the groups has a row per group, with its number of windows in column \<open>n\<close>.\<close>

lemma groups_exported:
  assumes "map_result f (grouped key ps) = Inr rs" and "reads_back reread (summary_table h rs) t"
    and "\<And>k g r r'. f (k, g) = Inr r \<Longrightarrow> row_read reread h r r' \<Longrightarrow>
      \<exists>row. export r' = Inr row \<and> Q row \<and> row ! n = Whole (int (length g))"
  shows "\<exists>rows counts. map_result export (frame_rows t) = Inr rows \<and> (\<forall>row \<in> set rows. Q row) \<and>
    length rows = length rs \<and> map (\<lambda>row. row ! n) rows = map (\<lambda>c. Whole (int c)) counts \<and> sum_list counts = length ps"
proof -
  have made: "list_all2 (\<lambda>x r. f x = Inr r) (grouped key ps) rs" using assms(1) by (simp add: map_result_Inr)
  from list_all2_trans [where ?P3.0 = "\<lambda>x r'. \<exists>r. f x = Inr r \<and> row_read reread h r r'",
      OF _ made summary_rows_read [OF assms(2)]]
  have "list_all2 (\<lambda>x r'. \<exists>r. f x = Inr r \<and> row_read reread h r r') (grouped key ps) (frame_rows t)" by blast
  then have "\<exists>rows. map_result export (frame_rows t) = Inr rows \<and> (\<forall>row \<in> set rows. Q row) \<and>
      length rows = length (grouped key ps) \<and>
      map (\<lambda>row. row ! n) rows = map (\<lambda>c. Whole (int c)) (map (\<lambda>(k, g). length g) (grouped key ps))"
  proof (induction rule: list_all2_induct)
    case (Cons x xs r' rs')
    obtain row where "export r' = Inr row" "Q row" "row ! n = Whole (int (length (snd x)))"
      using Cons.hyps(1) assms(3) [of "fst x" "snd x"] by auto
    then show ?case using Cons.IH by (auto simp: case_prod_beta)
  qed simp
  moreover have "length (grouped key ps) = length rs" using assms(1) by (simp add: map_result_Inr list_all2_lengthD)
  ultimately show ?thesis using grouped_partition [of key ps] by metis
qed

section \<open>The ablation tables\<close>

lemma get_zip_header: "c \<in> set h \<Longrightarrow> length row = length h \<Longrightarrow> \<exists>i. dict_get (zip h row) c = Some i"
  using map_of_zip_is_Some [of h row] by (simp add: dict_get_def)

lemma written_rows_read:
  assumes "reads_back reread (h, rows) t" and "\<forall>row \<in> set rows. length row = length h"
  shows "list_all2 (\<lambda>row r'. row_read reread h (zip h row) r') rows (frame_rows t)"
proof -
  have h: "fst t = h" and all: "list_all2 (list_all2 (reads_as reread)) rows (snd t)"
    using assms(1) by (simp_all add: reads_back_def)
  have one: "row_read reread h (zip h row) (zip h ys)" if "row \<in> set rows" "list_all2 (reads_as reread) row ys" for row ys
    unfolding row_read_def
  proof
    fix c assume c: "c \<in> set h"
    have "length row = length h" using that(1) assms(2) by simp
    from get_zip_header [OF c this] obtain i where i: "dict_get (zip h row) c = Some i" ..
    from get_zip_read [OF that(2) this] show "\<exists>j. dict_get (zip h ys) c = Some j \<and> reads_as reread (dict_get_or Absent (zip h row) c) j"
      using i by (simp add: dict_get_or_def)
  qed
  have "list_all2 (\<lambda>row ys. row_read reread h (zip h row) (zip h ys)) rows (snd t)"
    using one by (rule list.rel_mono_strong [OF all])
  then show ?thesis using h by (simp add: frame_rows_def list_all2_map2)
qed

lemma ablation_metrics_fields:
  "ablation_binary_metrics M y p s = Inr d \<Longrightarrow> \<exists>f pr b. metric d ''anomaly_f1'' = Inr (JFloat f) \<and>
     metric d ''pr_auc'' = Inr (JFloat pr) \<and> metric d ''balanced_accuracy'' = Inr (JFloat b)"
  "ablation_multiclass_metrics M' y' p' ls = Inr d \<Longrightarrow> \<exists>f b. metric d ''macro_f1'' = Inr (JFloat f) \<and>
     metric d ''balanced_accuracy'' = Inr (JFloat b)"
  by (auto simp: ablation_binary_metrics_def score_entries_def ablation_multiclass_metrics_def class_report_def
      bind_result_Inr Let_def metric_def dict_index_def dict_get_def)

lemma variant_summaries:
  assumes "run_variant P LB LM MB MM st matrices labels targets name = Inr v"
  shows "\<exists>n a b c f pr bal. binary_summary v = [Text name, Whole n, a, b, c, Float f, Float pr, Float bal]"
    and "\<exists>n a b f bal. multiclass_summary v = [Text name, Whole n, a, b, Float f, Float bal]"
proof -
  obtain l1 l2 l3 y1 y2 y3 where "labels = (l1, l2, l3)" "targets = (y1, y2, y3)" by (cases labels; cases targets)
  with assms obtain cs b m r1 r2 where r: "binary_summary v = r1" "multiclass_summary v = r2" and
    b: "binary_variant P LB MB (phase4_binary_config st) cs matrices y1 y2 y3 = Inr b"
    and brow: "summary_items name cs [''anomaly_f1'', ''pr_auc'', ''balanced_accuracy''] b = Inr r1"
    and m: "multiclass_variant P LM MM (phase4_multiclass_config st) (phase4_labels st) cs matrices l1 l2 l3 = Inr m"
    and mrow: "summary_items name cs [''macro_f1'', ''balanced_accuracy''] m = Inr r2"
    by (auto simp: run_variant_def bind_result_Inr)
  obtain y p s where "ablation_binary_metrics MB y p s = Inr (snd b)"
    using b by (auto simp: binary_variant_def bind_result_Inr split: prod.splits)
  from ablation_metrics_fields(1) [OF this] brow
  show "\<exists>n a b c f pr bal. binary_summary v = [Text name, Whole n, a, b, c, Float f, Float pr, Float bal]"
    unfolding r by (auto simp: summary_items_def bind_result_Inr json_item_def)
  obtain y p ls where "ablation_multiclass_metrics MM y p ls = Inr (snd m)"
    using m by (auto simp: multiclass_variant_def bind_result_Inr Let_def split: prod.splits)
  from ablation_metrics_fields(2) [OF this] mrow
  show "\<exists>n a b f bal. multiclass_summary v = [Text name, Whole n, a, b, Float f, Float bal]"
    unfolding r by (auto simp: summary_items_def bind_result_Inr json_item_def)
qed

text \<open>
  A table that lists \<open>all_features\<close> first: the baseline is its score, and every row is compared with it.
  \<open>export\<close> makes a row of a read row and the baseline.
\<close>

lemma baseline_exported:
  assumes "set [''variant'', c] \<subseteq> set (fst t)" and "hd (map fst nfs) = ''all_features''" and "nfs \<noteq> []"
    and "list_all2 (\<lambda>(name, f) r'. dict_get r' ''variant'' = Some (Text name) \<and> cell_float r' c = Inr f \<and>
      (\<forall>all. \<exists>row. export all r' = Inr row \<and> R name f all row)) nfs (frame_rows t)"
  shows "\<exists>rows. bind_result (baseline t c) (\<lambda>all. map_result (export all) (frame_rows t)) = Inr rows \<and>
    list_all2 (\<lambda>(name, f) row. R name f (snd (hd nfs)) row) nfs rows"
proof -
  obtain f0 rest where nfs: "nfs = (''all_features'', f0) # rest"
    using assms(2,3) by (cases nfs) auto
  with assms(4) obtain r0 rs where rs: "frame_rows t = r0 # rs" "dict_get r0 ''variant'' = Some (Text ''all_features'')"
    "cell_float r0 c = Inr f0"
    by (auto simp: list_all2_Cons1)
  then have base: "baseline t c = Inr f0" using assms(1) by (simp add: baseline_def)
  have "\<exists>rows. map_result (export f0) ts = Inr rows \<and> list_all2 (\<lambda>(name, f) row. R name f f0 row) xs rows"
    if "list_all2 (\<lambda>(name, f) r'. dict_get r' ''variant'' = Some (Text name) \<and> cell_float r' c = Inr f \<and>
      (\<forall>all. \<exists>row. export all r' = Inr row \<and> R name f all row)) xs ts" for xs ts
    using that
  proof (induction rule: list_all2_induct)
    case (Cons x xs r' ts)
    then obtain row where "export f0 r' = Inr row" "R (fst x) (snd x) f0 row" by (auto simp: case_prod_beta)
    then show ?case using Cons.IH by (auto simp: case_prod_beta)
  qed simp
  from this [OF assms(4)] show ?thesis by (simp add: base nfs)
qed

definition delta_shown :: "nat \<Rightarrow> string \<Rightarrow> dbl \<Rightarrow> dbl \<Rightarrow> item list \<Rightarrow> bool" where
  "delta_shown width name score all row \<longleftrightarrow> length row = width \<and> hd row = Text name \<and> row ! 2 = Float score \<and>
     last row = Float (dsub score all)"

lemma binary_variant_exported:
  assumes "binary_summary v = [Text name, Whole n, x, y, z, Float f, Float pr, Float bal]" and "name \<notin> set NA_TEXTS"
    and "row_read reread BINARY_VARIANT_HEADER (zip BINARY_VARIANT_HEADER (binary_summary v)) r'"
  shows "dict_get r' ''variant'' = Some (Text name) \<and> cell_float r' ''test_anomaly_f1'' = Inr (read_number reread f) \<and>
    (\<forall>all. \<exists>row. ablation_binary_row all r' = Inr row \<and> delta_shown 6 name (read_number reread f) all row)"
proof -
  let ?r = "zip BINARY_VARIANT_HEADER (binary_summary v)"
  have cells: "dict_get_or Absent ?r ''variant'' = Text name" "dict_get_or Absent ?r ''feature_count'' = Whole n"
    "dict_get_or Absent ?r ''test_anomaly_f1'' = Float f" "dict_get_or Absent ?r ''test_pr_auc'' = Float pr"
    "dict_get_or Absent ?r ''test_balanced_accuracy'' = Float bal"
    by (simp_all add: assms(1) BINARY_VARIANT_HEADER_def cell_simps)
  have h: "c \<in> set BINARY_VARIANT_HEADER" if "c \<in> {''variant'', ''feature_count'', ''test_anomaly_f1'', ''test_pr_auc'', ''test_balanced_accuracy''}" for c
    using that by (auto simp: BINARY_VARIANT_HEADER_def)
  note read = cells_read [OF assms(3) h]
  have "dict_get r' ''variant'' = Some (Text name)"
    using assms(2,3) cells(1) by (auto simp: row_read_def reads_as_def BINARY_VARIANT_HEADER_def)
  moreover have "kept_cell r' ''variant'' = Inr (Text name)" using read(6) [OF _ cells(1) assms(2)] by simp
  moreover have "int_cell r' ''feature_count'' = Inr (Whole n)" using read(3) [OF _ cells(2)] by simp
  moreover have "cell_float r' ''test_anomaly_f1'' = Inr (read_number reread f)" using read(2) [OF _ cells(3)] by simp
  moreover have "float_cell r' ''test_pr_auc'' = Inr (Float (read_number reread pr))" using read(1) [OF _ cells(4)] by simp
  moreover have "float_cell r' ''test_balanced_accuracy'' = Inr (Float (read_number reread bal))"
    using read(1) [OF _ cells(5)] by simp
  ultimately show ?thesis by (simp add: ablation_binary_row_def delta_shown_def)
qed

lemma multiclass_variant_exported:
  assumes "multiclass_summary v = [Text name, Whole n, x, y, Float f, Float bal]" and "name \<notin> set NA_TEXTS"
    and "row_read reread MULTICLASS_VARIANT_HEADER (zip MULTICLASS_VARIANT_HEADER (multiclass_summary v)) r'"
  shows "dict_get r' ''variant'' = Some (Text name) \<and> cell_float r' ''test_macro_f1'' = Inr (read_number reread f) \<and>
    (\<forall>all. \<exists>row. ablation_multiclass_row all r' = Inr row \<and> delta_shown 5 name (read_number reread f) all row)"
proof -
  let ?r = "zip MULTICLASS_VARIANT_HEADER (multiclass_summary v)"
  have cells: "dict_get_or Absent ?r ''variant'' = Text name" "dict_get_or Absent ?r ''feature_count'' = Whole n"
    "dict_get_or Absent ?r ''test_macro_f1'' = Float f" "dict_get_or Absent ?r ''test_balanced_accuracy'' = Float bal"
    by (simp_all add: assms(1) MULTICLASS_VARIANT_HEADER_def cell_simps)
  have h: "c \<in> set MULTICLASS_VARIANT_HEADER" if "c \<in> {''variant'', ''feature_count'', ''test_macro_f1'', ''test_balanced_accuracy''}" for c
    using that by (auto simp: MULTICLASS_VARIANT_HEADER_def)
  note read = cells_read [OF assms(3) h]
  have "dict_get r' ''variant'' = Some (Text name)"
    using assms(2,3) cells(1) by (auto simp: row_read_def reads_as_def MULTICLASS_VARIANT_HEADER_def)
  moreover have "kept_cell r' ''variant'' = Inr (Text name)" using read(6) [OF _ cells(1) assms(2)] by simp
  moreover have "int_cell r' ''feature_count'' = Inr (Whole n)" using read(3) [OF _ cells(2)] by simp
  moreover have "cell_float r' ''test_macro_f1'' = Inr (read_number reread f)" using read(2) [OF _ cells(3)] by simp
  moreover have "float_cell r' ''test_balanced_accuracy'' = Inr (Float (read_number reread bal))"
    using read(1) [OF _ cells(4)] by simp
  ultimately show ?thesis by (simp add: ablation_multiclass_row_def delta_shown_def)
qed

text \<open>The scores column \<open>k\<close> of a summary has, in the order of its rows.\<close>

definition scores_at :: "nat \<Rightarrow> item list list \<Rightarrow> dbl list" where
  "scores_at k rows = map (\<lambda>row. case row ! k of Float f \<Rightarrow> f | _ \<Rightarrow> NaN) rows"

lemma variants_exported:
  assumes made: "list_all2 (\<lambda>name v. run name = Inr v) VARIANT_ORDER vs"
    and read: "reads_back reread (h, map summary vs) t" and "set [''variant'', c] \<subseteq> set h"
    and shape: "\<And>name v. name \<in> set VARIANT_ORDER \<Longrightarrow> run name = Inr v \<Longrightarrow>
      \<exists>f. summary v ! k = Float f \<and> length (summary v) = length h \<and>
        (\<forall>r'. row_read reread h (zip h (summary v)) r' \<longrightarrow>
          dict_get r' ''variant'' = Some (Text name) \<and> cell_float r' c = Inr (read_number reread f) \<and>
          (\<forall>all. \<exists>row. export all r' = Inr row \<and> delta_shown w name (read_number reread f) all row))"
  shows "\<exists>rows. bind_result (baseline t c) (\<lambda>all. map_result (export all) (frame_rows t)) = Inr rows \<and>
    list_all2 (\<lambda>(name, f) row. delta_shown w name f (hd (map (read_number reread) (scores_at k (map summary vs)))) row)
      (zip VARIANT_ORDER (map (read_number reread) (scores_at k (map summary vs)))) rows"
proof -
  let ?fs = "map (read_number reread) (scores_at k (map summary vs))"
  note n = list_all2_lengthD [OF made]
  have each: "summary (vs ! i) ! k = Float (scores_at k (map summary vs) ! i) \<and> length (summary (vs ! i)) = length h \<and>
      (\<forall>r'. row_read reread h (zip h (summary (vs ! i))) r' \<longrightarrow>
        dict_get r' ''variant'' = Some (Text (VARIANT_ORDER ! i)) \<and> cell_float r' c = Inr (?fs ! i) \<and>
        (\<forall>all. \<exists>row. export all r' = Inr row \<and> delta_shown w (VARIANT_ORDER ! i) (?fs ! i) all row))" if "i < length vs" for i
  proof -
    have "VARIANT_ORDER ! i \<in> set VARIANT_ORDER" "run (VARIANT_ORDER ! i) = Inr (vs ! i)"
      using that n list_all2_nthD2 [OF made that] by simp_all
    from shape [OF this] obtain f where f: "summary (vs ! i) ! k = Float f" "length (summary (vs ! i)) = length h"
      "\<forall>r'. row_read reread h (zip h (summary (vs ! i))) r' \<longrightarrow>
        dict_get r' ''variant'' = Some (Text (VARIANT_ORDER ! i)) \<and> cell_float r' c = Inr (read_number reread f) \<and>
        (\<forall>all. \<exists>row. export all r' = Inr row \<and> delta_shown w (VARIANT_ORDER ! i) (read_number reread f) all row)"
      by (elim exE conjE)
    have "scores_at k (map summary vs) ! i = f" "?fs ! i = read_number reread f"
      using that f(1) by (simp_all add: scores_at_def)
    then show ?thesis using f by simp
  qed
  have "length (summary v) = length h" if "v \<in> set vs" for v
    using that each by (auto simp: in_set_conv_nth)
  then have rows: "list_all2 (\<lambda>row r'. row_read reread h (zip h row) r') (map summary vs) (frame_rows t)"
    by (intro written_rows_read [OF read]) simp
  have len: "length (frame_rows t) = length vs" using list_all2_lengthD [OF rows] by simp
  have t: "fst t = h" using read by (simp add: reads_back_def)
  show ?thesis
  proof -
    have "list_all2 (\<lambda>(name, f) r'. dict_get r' ''variant'' = Some (Text name) \<and> cell_float r' c = Inr f \<and>
      (\<forall>all. \<exists>row. export all r' = Inr row \<and> delta_shown w name f all row)) (zip VARIANT_ORDER ?fs) (frame_rows t)"
      (is "list_all2 ?C _ _")
    proof (rule list_all2_all_nthI)
      show "length (zip VARIANT_ORDER ?fs) = length (frame_rows t)" using n len by (simp add: scores_at_def)
      fix i assume "i < length (zip VARIANT_ORDER ?fs)"
      then have i: "i < length vs" "i < length VARIANT_ORDER" "i < length ?fs" by (simp_all add: scores_at_def)
      have "row_read reread h (zip h (summary (vs ! i))) (frame_rows t ! i)"
        using list_all2_nthD [OF rows, of i] i(1) by simp
      with each [OF i(1)] have "?C (VARIANT_ORDER ! i, ?fs ! i) (frame_rows t ! i)" unfolding case_prod_conv by blast
      then show "?C (zip VARIANT_ORDER ?fs ! i) (frame_rows t ! i)" using i(2,3) by (simp only: nth_zip)
    qed
    moreover have "zip VARIANT_ORDER ?fs \<noteq> []" "hd (map fst (zip VARIANT_ORDER ?fs)) = ''all_features''"
      using n by (auto simp: VARIANT_ORDER_def scores_at_def)
    moreover have "snd (hd (zip VARIANT_ORDER ?fs)) = hd ?fs"
      using n by (cases vs) (auto simp: VARIANT_ORDER_def scores_at_def)
    ultimately show ?thesis
      using baseline_exported [of c t "zip VARIANT_ORDER ?fs" export "delta_shown w"] assms(3) t by simp
  qed
qed

lemma variant_names_kept: "name \<in> set VARIANT_ORDER \<Longrightarrow> name \<notin> set NA_TEXTS"
proof -
  have "\<forall>name \<in> set VARIANT_ORDER. name \<notin> set NA_TEXTS" by code_simp
  then show "name \<in> set VARIANT_ORDER \<Longrightarrow> name \<notin> set NA_TEXTS" by blast
qed

text \<open>The scores of the test split: column five of the binary summary, column four of the other.\<close>

definition binary_scores :: "(dbl \<Rightarrow> dbl) \<Rightarrow> variant_result list \<Rightarrow> dbl list" where
  "binary_scores reread vs = map (read_number reread) (scores_at 5 (map binary_summary vs))"

definition multiclass_scores :: "(dbl \<Rightarrow> dbl) \<Rightarrow> variant_result list \<Rightarrow> dbl list" where
  "multiclass_scores reread vs = map (read_number reread) (scores_at 4 (map multiclass_summary vs))"

lemma ablation_rows_exported:
  assumes vs: "map_result (run_variant P LB LM MB MM st matrices labels targets) VARIANT_ORDER = Inr vs"
  shows "reads_back reread (BINARY_VARIANT_HEADER, map binary_summary vs) t \<Longrightarrow>
      \<exists>rows. ablation_binary_rows t = Inr rows \<and>
        list_all2 (\<lambda>(name, f) row. delta_shown 6 name f (hd (binary_scores reread vs)) row)
          (zip VARIANT_ORDER (binary_scores reread vs)) rows"
    and "reads_back reread (MULTICLASS_VARIANT_HEADER, map multiclass_summary vs) t \<Longrightarrow>
      \<exists>rows. ablation_multiclass_rows t = Inr rows \<and>
        list_all2 (\<lambda>(name, f) row. delta_shown 5 name f (hd (multiclass_scores reread vs)) row)
          (zip VARIANT_ORDER (multiclass_scores reread vs)) rows"
    and "length vs = length VARIANT_ORDER"
proof -
  have made: "list_all2 (\<lambda>name v. run_variant P LB LM MB MM st matrices labels targets name = Inr v) VARIANT_ORDER vs"
    using vs by (simp add: map_result_Inr)
  then show "length vs = length VARIANT_ORDER" by (simp add: list_all2_lengthD)
  show "\<exists>rows. ablation_binary_rows t = Inr rows \<and>
        list_all2 (\<lambda>(name, f) row. delta_shown 6 name f (hd (binary_scores reread vs)) row)
          (zip VARIANT_ORDER (binary_scores reread vs)) rows"
    if "reads_back reread (BINARY_VARIANT_HEADER, map binary_summary vs) t"
    unfolding ablation_binary_rows_def binary_scores_def
  proof (rule variants_exported [OF made that])
    fix name v assume n: "name \<in> set VARIANT_ORDER" and "run_variant P LB LM MB MM st matrices labels targets name = Inr v"
    from variant_summaries(1) [OF this(2)] obtain m a b c f pr bal where
      v: "binary_summary v = [Text name, Whole m, a, b, c, Float f, Float pr, Float bal]" by (elim exE)
    then have "binary_summary v ! 5 = Float f" "length (binary_summary v) = length BINARY_VARIANT_HEADER"
      by (simp_all add: BINARY_VARIANT_HEADER_def)
    with binary_variant_exported [OF v variant_names_kept [OF n]]
    show "\<exists>f. binary_summary v ! 5 = Float f \<and> length (binary_summary v) = length BINARY_VARIANT_HEADER \<and>
      (\<forall>r'. row_read reread BINARY_VARIANT_HEADER (zip BINARY_VARIANT_HEADER (binary_summary v)) r' \<longrightarrow>
        dict_get r' ''variant'' = Some (Text name) \<and> cell_float r' ''test_anomaly_f1'' = Inr (read_number reread f) \<and>
        (\<forall>all. \<exists>row. ablation_binary_row all r' = Inr row \<and> delta_shown 6 name (read_number reread f) all row))"
      by (intro exI [of _ f] conjI allI impI) simp_all
  qed (simp add: BINARY_VARIANT_HEADER_def)
  show "\<exists>rows. ablation_multiclass_rows t = Inr rows \<and>
        list_all2 (\<lambda>(name, f) row. delta_shown 5 name f (hd (multiclass_scores reread vs)) row)
          (zip VARIANT_ORDER (multiclass_scores reread vs)) rows"
    if "reads_back reread (MULTICLASS_VARIANT_HEADER, map multiclass_summary vs) t"
    unfolding ablation_multiclass_rows_def multiclass_scores_def
  proof (rule variants_exported [OF made that])
    fix name v assume n: "name \<in> set VARIANT_ORDER" and "run_variant P LB LM MB MM st matrices labels targets name = Inr v"
    from variant_summaries(2) [OF this(2)] obtain m a b f bal where
      v: "multiclass_summary v = [Text name, Whole m, a, b, Float f, Float bal]" by (elim exE)
    then have "multiclass_summary v ! 4 = Float f" "length (multiclass_summary v) = length MULTICLASS_VARIANT_HEADER"
      by (simp_all add: MULTICLASS_VARIANT_HEADER_def)
    with multiclass_variant_exported [OF v variant_names_kept [OF n]]
    show "\<exists>f. multiclass_summary v ! 4 = Float f \<and> length (multiclass_summary v) = length MULTICLASS_VARIANT_HEADER \<and>
      (\<forall>r'. row_read reread MULTICLASS_VARIANT_HEADER (zip MULTICLASS_VARIANT_HEADER (multiclass_summary v)) r' \<longrightarrow>
        dict_get r' ''variant'' = Some (Text name) \<and> cell_float r' ''test_macro_f1'' = Inr (read_number reread f) \<and>
        (\<forall>all. \<exists>row. ablation_multiclass_row all r' = Inr row \<and> delta_shown 5 name (read_number reread f) all row))"
      by (intro exI [of _ f] conjI allI impI) simp_all
  qed (simp add: MULTICLASS_VARIANT_HEADER_def)
qed

lemma dsub_self: "f \<notin> {NaN, PInf, MInf} \<Longrightarrow> dsub f f = Fin 0"
  by (cases f) (auto simp: dsub_def dadd_def rnd_def is_zero_def zero_of_def)

text \<open>What is left when nothing fails.\<close>

lemma write_all_Inr:
  "\<forall>x \<in> set fs. \<exists>c. snd x = Inr c \<Longrightarrow> \<exists>out. write_all fs = (out, Inr ()) \<and> map fst out = map fst fs \<and>
     list_all2 (\<lambda>(n, r) (n', c). n' = n \<and> r = Inr c) fs out"
  by (induction fs rule: write_all.induct) (auto split: sum.splits)

lemma copied_names: "distinct (map (\<lambda>(dir, name, target). target) SOURCE_COPIES)"
  "''run_manifest.json'' \<notin> set (map (\<lambda>(dir, name, target). target) SOURCE_COPIES)"
  by code_simp+

lemma sources_copied:
  assumes "\<forall>(dir, name, target) \<in> set SOURCE_COPIES. \<exists>c. read_file dir name = Inr c"
  shows "\<exists>copied. write_all (source_copies read_file) = (copied, Inr ()) \<and>
    dict_get (dict_update (filter (\<lambda>(n, _). n \<noteq> ''run_manifest.json'') old) copied) ''run_manifest.json'' = None \<and>
    (\<forall>(dir, name, target) \<in> set SOURCE_COPIES. \<exists>c. read_file dir name = Inr c \<and>
       dict_get (dict_update (filter (\<lambda>(n, _). n \<noteq> ''run_manifest.json'') old) copied) target = Some (Copied c))"
proof -
  have copies: "source_copies read_file = map (\<lambda>x. (snd (snd x), bind_result (read_file (fst x) (fst (snd x))) (\<lambda>c. Inr (Copied c)))) SOURCE_COPIES"
    by (simp add: source_copies_def case_prod_beta)
  have readable: "\<exists>c. read_file (fst x) (fst (snd x)) = Inr c" if "x \<in> set SOURCE_COPIES" for x
    using bspec [OF assms that] by (simp only: case_prod_beta)
  have "\<forall>y \<in> set (source_copies read_file). \<exists>c. snd y = Inr c"
  proof
    fix y assume "y \<in> set (source_copies read_file)"
    then obtain x where x: "x \<in> set SOURCE_COPIES" "snd y = bind_result (read_file (fst x) (fst (snd x))) (\<lambda>c. Inr (Copied c))"
      unfolding copies set_map by (elim imageE) simp
    from readable [OF x(1)] show "\<exists>c. snd y = Inr c" by (elim exE) (simp add: x(2))
  qed
  from write_all_Inr [OF this] obtain copied where copied: "write_all (source_copies read_file) = (copied, Inr ())"
    "map fst copied = map fst (source_copies read_file)"
    and all: "list_all2 (\<lambda>(n, r) (n', c). n' = n \<and> r = Inr c) (source_copies read_file) copied"
    by (elim exE conjE)
  have keys: "map fst copied = map (\<lambda>(dir, name, target). target) SOURCE_COPIES"
    by (simp add: copied(2) source_copies_def case_prod_beta)
  let ?d = "dict_update (filter (\<lambda>(n, _). n \<noteq> ''run_manifest.json'') old) copied"
  have "dict_get ?d ''run_manifest.json'' = dict_get (filter (\<lambda>(n, _). n \<noteq> ''run_manifest.json'') old) ''run_manifest.json''"
    using copied_names(2) by (intro dict_get_update_notin) (simp add: dict_keys_def keys)
  also have "\<dots> = None" by (auto simp: dict_get_def map_of_eq_None_iff)
  finally have gone: "dict_get ?d ''run_manifest.json'' = None" .
  have wf: "dict_wf copied" using copied_names(1) by (simp add: dict_wf_def keys)
  have "\<exists>c. read_file dir name = Inr c \<and> dict_get ?d target = Some (Copied c)"
    if "(dir, name, target) \<in> set SOURCE_COPIES" for dir name target
  proof -
    from readable [OF that] obtain c where c: "read_file dir name = Inr c" by (elim exE) simp
    from imageI [OF that, of "\<lambda>x. (snd (snd x), bind_result (read_file (fst x) (fst (snd x))) (\<lambda>c. Inr (Copied c)))"]
    have "(target, Inr (Copied c)) \<in> set (source_copies read_file)" unfolding copies set_map by (simp add: c)
    then obtain i where "i < length (source_copies read_file)" "source_copies read_file ! i = (target, Inr (Copied c))"
      by (auto simp: in_set_conv_nth)
    then have "(target, Copied c) \<in> set copied"
      using list_all2_nthD [OF all, of i] list_all2_lengthD [OF all]
      by (cases "copied ! i") (auto simp: in_set_conv_nth)
    then have "dict_get copied target = Some (Copied c)"
      using wf by (simp add: dict_get_def dict_wf_def)
    then show ?thesis using c dict_get_update_in [OF wf] by blast
  qed
  then show ?thesis using copied(1) gone by blast
qed

section \<open>Properties\<close>

text \<open>C29: the ablation tables compare with the full feature set. When the study has run its five variants
and their summaries are read back, both tables have a row per variant in the study's order, with the
test score as it was read and its difference from the score of \<open>all_features\<close>; the row of
\<open>all_features\<close> itself shows a difference of zero whenever its score is a finite number.\<close>

theorem ablation_table_deltas:
  assumes vs: "map_result (run_variant P LB LM MB MM st matrices labels targets) VARIANT_ORDER = Inr vs"
    and b: "reads_back reread (BINARY_VARIANT_HEADER, map binary_summary vs) binary"
    and m: "reads_back reread (MULTICLASS_VARIANT_HEADER, map multiclass_summary vs) multiclass"
  shows "\<exists>brows mrows. ablation_binary_rows binary = Inr brows \<and> ablation_multiclass_rows multiclass = Inr mrows \<and>
    length brows = 5 \<and> length mrows = 5 \<and>
    list_all2 (\<lambda>(name, f) row. delta_shown 6 name f (hd (binary_scores reread vs)) row)
      (zip VARIANT_ORDER (binary_scores reread vs)) brows \<and>
    list_all2 (\<lambda>(name, f) row. delta_shown 5 name f (hd (multiclass_scores reread vs)) row)
      (zip VARIANT_ORDER (multiclass_scores reread vs)) mrows \<and>
    hd (hd brows) = Text ''all_features'' \<and> hd (hd mrows) = Text ''all_features'' \<and>
    (hd (binary_scores reread vs) \<notin> {NaN, PInf, MInf} \<longrightarrow> last (hd brows) = Float (Fin 0)) \<and>
    (hd (multiclass_scores reread vs) \<notin> {NaN, PInf, MInf} \<longrightarrow> last (hd mrows) = Float (Fin 0))"
proof -
  note e = ablation_rows_exported [OF vs]
  obtain brows where br: "ablation_binary_rows binary = Inr brows"
    "list_all2 (\<lambda>(name, f) row. delta_shown 6 name f (hd (binary_scores reread vs)) row)
      (zip VARIANT_ORDER (binary_scores reread vs)) brows"
    using e(1) [OF b] by (elim exE conjE)
  obtain mrows where mr: "ablation_multiclass_rows multiclass = Inr mrows"
    "list_all2 (\<lambda>(name, f) row. delta_shown 5 name f (hd (multiclass_scores reread vs)) row)
      (zip VARIANT_ORDER (multiclass_scores reread vs)) mrows"
    using e(2) [OF m] by (elim exE conjE)
  have n: "length (binary_scores reread vs) = 5" "length (multiclass_scores reread vs) = 5" "length VARIANT_ORDER = 5"
    using e(3) by (simp_all add: binary_scores_def multiclass_scores_def scores_at_def VARIANT_ORDER_def)
  have order: "VARIANT_ORDER = ''all_features'' # tl VARIANT_ORDER" by (simp add: VARIANT_ORDER_def)
  have first: "hd (hd rows) = Text ''all_features'' \<and> (hd fs \<notin> {NaN, PInf, MInf} \<longrightarrow> last (hd rows) = Float (Fin 0)) \<and> length rows = 5"
    if all: "list_all2 (\<lambda>(name, f) row. delta_shown w name f (hd fs) row) (zip VARIANT_ORDER fs) rows" and len: "length fs = 5" for w fs rows
  proof -
    have "length rows = 5" using list_all2_lengthD [OF all] len n(3) by simp
    moreover obtain f gs where fs: "fs = f # gs" using len by (cases fs) auto
    moreover from this obtain row rest where "rows = row # rest" "delta_shown w ''all_features'' f f row"
      using all by (subst (asm) order) (auto simp: list_all2_Cons1)
    ultimately show ?thesis by (simp add: delta_shown_def dsub_self)
  qed
  show ?thesis
    using br mr first [OF br(2) n(1)] first [OF mr(2) n(2)] by (intro exI [of _ brows] exI [of _ mrows] conjI) simp_all
qed

text \<open>The summaries the studies left, with the directory and the name they have.\<close>

definition written_tables :: "summaries \<Rightarrow> variant_result list \<Rightarrow> (string \<times> string \<times> table) list" where
  "written_tables s vs =
     [(''phase6_generalization_v1'', ''normal_binary_summary.csv'', summary_table NORMAL_HEADER (s_normal s)),
      (''phase6_generalization_v1'', ''anomaly_binary_summary.csv'', summary_table ANOMALY_BINARY_HEADER (s_binary s)),
      (''phase6_generalization_v1'', ''anomaly_multiclass_summary.csv'', summary_table ANOMALY_MULTICLASS_HEADER (s_multiclass s)),
      (''phase6_ablation_v1'', ''binary_variant_summary.csv'', (BINARY_VARIANT_HEADER, map binary_summary vs)),
      (''phase6_ablation_v1'', ''multiclass_variant_summary.csv'', (MULTICLASS_VARIANT_HEADER, map multiclass_summary vs))]"

lemma generalization_rows_exported:
  assumes s: "summaries_of MB MM labels ps = Inr s"
    and n: "reads_back reread (summary_table NORMAL_HEADER (s_normal s)) normal"
    and a: "reads_back reread (summary_table ANOMALY_BINARY_HEADER (s_binary s)) anomaly"
    and m: "reads_back reread (summary_table ANOMALY_MULTICLASS_HEADER (s_multiclass s)) multi"
  shows "\<exists>rows counts. generalization_binary_rows normal anomaly = Inr rows \<and>
      length rows = length (s_normal s) + length (s_binary s) \<and>
      (\<forall>row \<in> set (take (length (s_normal s)) rows). scope_row ''normal'' row) \<and>
      (\<forall>row \<in> set (drop (length (s_normal s)) rows). scope_row ''anomaly'' row) \<and>
      map (\<lambda>row. row ! 4) rows = map (\<lambda>c. Whole (int c)) counts \<and> sum_list counts = length ps"
    and "\<exists>rows counts. generalization_multiclass_rows multi = Inr rows \<and> length rows = length (s_multiclass s) \<and>
      map (\<lambda>row. row ! 3) rows = map (\<lambda>c. Whole (int c)) counts \<and>
      sum_list counts = length (filter is_anomaly_label ps)"
proof -
  from s have made:
    "map_result normal_row (grouped normal_key (filter is_normal_family ps)) = Inr (s_normal s)"
    "map_result (anomaly_binary_row MB) (grouped anomaly_key (filter (\<lambda>p. \<not> is_normal_family p) ps)) = Inr (s_binary s)"
    "map_result (anomaly_multiclass_row MM labels) (grouped anomaly_key (filter is_anomaly_label ps)) = Inr (s_multiclass s)"
    by (auto simp: summaries_of_def bind_result_Inr)
  have "\<exists>rows counts. map_result normal_export_row (frame_rows normal) = Inr rows \<and> (\<forall>row \<in> set rows. scope_row ''normal'' row) \<and>
      length rows = length (s_normal s) \<and> map (\<lambda>row. row ! 4) rows = map (\<lambda>c. Whole (int c)) counts \<and>
      sum_list counts = length (filter is_normal_family ps)"
    by (rule groups_exported [OF made(1) n]) (rule normal_exported)
  then obtain nr nc where
    nr: "map_result normal_export_row (frame_rows normal) = Inr nr" "\<forall>row \<in> set nr. scope_row ''normal'' row"
      "length nr = length (s_normal s)" "map (\<lambda>row. row ! 4) nr = map (\<lambda>c. Whole (int c)) nc"
      "sum_list nc = length (filter is_normal_family ps)"
    by (elim exE conjE)
  have "\<exists>rows counts. map_result anomaly_export_row (frame_rows anomaly) = Inr rows \<and> (\<forall>row \<in> set rows. scope_row ''anomaly'' row) \<and>
      length rows = length (s_binary s) \<and> map (\<lambda>row. row ! 4) rows = map (\<lambda>c. Whole (int c)) counts \<and>
      sum_list counts = length (filter (\<lambda>p. \<not> is_normal_family p) ps)"
    by (rule groups_exported [OF made(2) a]) (rule anomaly_exported)
  then obtain ar ac where
    ar: "map_result anomaly_export_row (frame_rows anomaly) = Inr ar" "\<forall>row \<in> set ar. scope_row ''anomaly'' row"
      "length ar = length (s_binary s)" "map (\<lambda>row. row ! 4) ar = map (\<lambda>c. Whole (int c)) ac"
      "sum_list ac = length (filter (\<lambda>p. \<not> is_normal_family p) ps)"
    by (elim exE conjE)
  show "\<exists>rows counts. generalization_binary_rows normal anomaly = Inr rows \<and>
      length rows = length (s_normal s) + length (s_binary s) \<and>
      (\<forall>row \<in> set (take (length (s_normal s)) rows). scope_row ''normal'' row) \<and>
      (\<forall>row \<in> set (drop (length (s_normal s)) rows). scope_row ''anomaly'' row) \<and>
      map (\<lambda>row. row ! 4) rows = map (\<lambda>c. Whole (int c)) counts \<and> sum_list counts = length ps"
    using nr ar
    by (intro exI [of _ "nr @ ar"] exI [of _ "nc @ ac"])
      (simp add: generalization_binary_rows_def sum_length_filter_compl flip: nr(3))
  have "\<exists>rows counts. map_result multiclass_export_row (frame_rows multi) = Inr rows \<and> (\<forall>row \<in> set rows. length row = 7) \<and>
      length rows = length (s_multiclass s) \<and> map (\<lambda>row. row ! 3) rows = map (\<lambda>c. Whole (int c)) counts \<and>
      sum_list counts = length (filter is_anomaly_label ps)"
    by (rule groups_exported [OF made(3) m]) (rule multiclass_exported)
  then show "\<exists>rows counts. generalization_multiclass_rows multi = Inr rows \<and> length rows = length (s_multiclass s) \<and>
      map (\<lambda>row. row ! 3) rows = map (\<lambda>c. Whole (int c)) counts \<and>
      sum_list counts = length (filter is_anomaly_label ps)"
    unfolding generalization_multiclass_rows_def by (elim exE conjE) (intro exI conjI)
qed

text \<open>The files the export is to write.\<close>

definition TABLE_NAMES :: "string list" where
  "TABLE_NAMES = [''table_phase6_generalization_binary.csv'', ''table_phase6_generalization_binary.tex'',
      ''table_phase6_generalization_multiclass.csv'', ''table_phase6_generalization_multiclass.tex'',
      ''table_phase6_ablation_binary.csv'', ''table_phase6_ablation_binary.tex'',
      ''table_phase6_ablation_multiclass.csv'', ''table_phase6_ablation_multiclass.tex'']"

lemma tables_written:
  assumes "generalization_binary_rows normal anomaly = Inr rows" and "generalization_multiclass_rows multi = Inr mrows"
    and "ablation_binary_rows binary = Inr brows" and "ablation_multiclass_rows multiclass = Inr arows"
  shows "\<exists>out. write_all (phase6_tables normal anomaly multi binary multiclass) = (out, Inr ()) \<and>
    map fst out = TABLE_NAMES \<and>
    snd (out ! 0) = Csv_Table (GENERALIZATION_BINARY_HEADER, rows) \<and>
    snd (out ! 2) = Csv_Table (GENERALIZATION_MULTICLASS_HEADER, mrows) \<and>
    snd (out ! 4) = Csv_Table (ABLATION_BINARY_HEADER, brows) \<and>
    snd (out ! 6) = Csv_Table (ABLATION_MULTICLASS_HEADER, arows)"
  by (simp add: phase6_tables_def table_pair_def assms TABLE_NAMES_def)

lemma tables_made:
  assumes s: "summaries_of MB MM labels ps = Inr s"
    and vs: "map_result (run_variant P LB LM MB' MM' st matrices label_lists targets) VARIANT_ORDER = Inr vs"
    and read_back: "reads_back reread (summary_table NORMAL_HEADER (s_normal s)) normal"
      "reads_back reread (summary_table ANOMALY_BINARY_HEADER (s_binary s)) anomaly"
      "reads_back reread (summary_table ANOMALY_MULTICLASS_HEADER (s_multiclass s)) multi"
      "reads_back reread (BINARY_VARIANT_HEADER, map binary_summary vs) binary"
      "reads_back reread (MULTICLASS_VARIANT_HEADER, map multiclass_summary vs) multiclass"
  shows "\<exists>out rows mrows counts mcounts. write_all (phase6_tables normal anomaly multi binary multiclass) = (out, Inr ()) \<and>
    map fst out = TABLE_NAMES \<and> snd (out ! 0) = Csv_Table (GENERALIZATION_BINARY_HEADER, rows) \<and>
    length rows = length (s_normal s) + length (s_binary s) \<and>
    (\<forall>row \<in> set (take (length (s_normal s)) rows). scope_row ''normal'' row) \<and>
    (\<forall>row \<in> set (drop (length (s_normal s)) rows). scope_row ''anomaly'' row) \<and>
    map (\<lambda>row. row ! 4) rows = map (\<lambda>c. Whole (int c)) counts \<and> sum_list counts = length ps \<and>
    snd (out ! 2) = Csv_Table (GENERALIZATION_MULTICLASS_HEADER, mrows) \<and> length mrows = length (s_multiclass s) \<and>
    map (\<lambda>row. row ! 3) mrows = map (\<lambda>c. Whole (int c)) mcounts \<and>
    sum_list mcounts = length (filter is_anomaly_label ps)"
proof -
  note g = generalization_rows_exported [OF s read_back(1-3)]
  obtain rows counts where rows: "generalization_binary_rows normal anomaly = Inr rows"
    "length rows = length (s_normal s) + length (s_binary s)"
    "\<forall>row \<in> set (take (length (s_normal s)) rows). scope_row ''normal'' row"
    "\<forall>row \<in> set (drop (length (s_normal s)) rows). scope_row ''anomaly'' row"
    "map (\<lambda>row. row ! 4) rows = map (\<lambda>c. Whole (int c)) counts" "sum_list counts = length ps"
    using g(1) by (elim exE conjE)
  obtain mrows mcounts where mrows: "generalization_multiclass_rows multi = Inr mrows" "length mrows = length (s_multiclass s)"
    "map (\<lambda>row. row ! 3) mrows = map (\<lambda>c. Whole (int c)) mcounts" "sum_list mcounts = length (filter is_anomaly_label ps)"
    using g(2) by (elim exE conjE)
  obtain brows where brows: "ablation_binary_rows binary = Inr brows"
    using ablation_rows_exported(1) [OF vs read_back(4)] by (elim exE conjE)
  obtain arows where arows: "ablation_multiclass_rows multiclass = Inr arows"
    using ablation_rows_exported(2) [OF vs read_back(5)] by (elim exE conjE)
  obtain out where out: "write_all (phase6_tables normal anomaly multi binary multiclass) = (out, Inr ())" "map fst out = TABLE_NAMES"
    and csv: "snd (out ! 0) = Csv_Table (GENERALIZATION_BINARY_HEADER, rows)"
      "snd (out ! 2) = Csv_Table (GENERALIZATION_MULTICLASS_HEADER, mrows)"
    using tables_written [OF rows(1) mrows(1) brows arows] by (elim exE conjE)
  then show ?thesis using rows(2-) mrows(2-) by (intro exI conjI)
qed

lemma tables_read:
  assumes "\<forall>(dir, name, written) \<in> set (written_tables s vs). \<exists>t. read_csv dir name = Inr t \<and> reads_back reread written t"
  obtains normal anomaly multi binary multiclass where
    "read_csv ''phase6_generalization_v1'' ''normal_binary_summary.csv'' = Inr normal"
    "read_csv ''phase6_generalization_v1'' ''anomaly_binary_summary.csv'' = Inr anomaly"
    "read_csv ''phase6_generalization_v1'' ''anomaly_multiclass_summary.csv'' = Inr multi"
    "read_csv ''phase6_ablation_v1'' ''binary_variant_summary.csv'' = Inr binary"
    "read_csv ''phase6_ablation_v1'' ''multiclass_variant_summary.csv'' = Inr multiclass"
    "reads_back reread (summary_table NORMAL_HEADER (s_normal s)) normal"
    "reads_back reread (summary_table ANOMALY_BINARY_HEADER (s_binary s)) anomaly"
    "reads_back reread (summary_table ANOMALY_MULTICLASS_HEADER (s_multiclass s)) multi"
    "reads_back reread (BINARY_VARIANT_HEADER, map binary_summary vs) binary"
    "reads_back reread (MULTICLASS_VARIANT_HEADER, map multiclass_summary vs) multiclass"
  using assms by (simp only: written_tables_def list.set ball_simps case_prod_conv insert_iff) (elim exE conjE, rule that)

text \<open>C9: the export is complete and counts every window. When the five summaries are what pandas reads of
the ones the two studies wrote and the twelve source files exist, the export ends without an error
and writes exactly its eight tables; every source is copied under its new name and no
\<open>run_manifest.json\<close> of an earlier version stays. The two-class table has a row per group, the normal
ones first, with NaN in the columns that do not apply, and its row counts add up to the number of
evaluated windows; those of the multiclass table to the windows with an anomaly label.\<close>

theorem phase6_export_complete:
  assumes s: "summaries_of MB MM labels ps = Inr s"
    and vs: "map_result (run_variant P LB LM MB' MM' st matrices label_lists targets) VARIANT_ORDER = Inr vs"
    and tables: "\<forall>(dir, name, written) \<in> set (written_tables s vs). \<exists>t. read_csv dir name = Inr t \<and> reads_back reread written t"
    and sources: "\<forall>(dir, name, target) \<in> set SOURCE_COPIES. \<exists>c. read_file dir name = Inr c"
  shows "\<exists>d out rows mrows counts mcounts.
    phase6_export_main read_csv read_file old = (\<lparr>source_dir = d, table_files = out\<rparr>, Inr ()) \<and>
    map fst out = TABLE_NAMES \<and>
    dict_get d ''run_manifest.json'' = None \<and>
    (\<forall>(dir, name, target) \<in> set SOURCE_COPIES. \<exists>c. read_file dir name = Inr c \<and> dict_get d target = Some (Copied c)) \<and>
    snd (out ! 0) = Csv_Table (GENERALIZATION_BINARY_HEADER, rows) \<and>
    length rows = length (s_normal s) + length (s_binary s) \<and>
    (\<forall>row \<in> set (take (length (s_normal s)) rows). scope_row ''normal'' row) \<and>
    (\<forall>row \<in> set (drop (length (s_normal s)) rows). scope_row ''anomaly'' row) \<and>
    map (\<lambda>row. row ! 4) rows = map (\<lambda>c. Whole (int c)) counts \<and> sum_list counts = length ps \<and>
    snd (out ! 2) = Csv_Table (GENERALIZATION_MULTICLASS_HEADER, mrows) \<and> length mrows = length (s_multiclass s) \<and>
    map (\<lambda>row. row ! 3) mrows = map (\<lambda>c. Whole (int c)) mcounts \<and>
    sum_list mcounts = length (filter is_anomaly_label ps)"
proof -
  obtain normal anomaly multi binary multiclass where
    read: "read_csv ''phase6_generalization_v1'' ''normal_binary_summary.csv'' = Inr normal"
      "read_csv ''phase6_generalization_v1'' ''anomaly_binary_summary.csv'' = Inr anomaly"
      "read_csv ''phase6_generalization_v1'' ''anomaly_multiclass_summary.csv'' = Inr multi"
      "read_csv ''phase6_ablation_v1'' ''binary_variant_summary.csv'' = Inr binary"
      "read_csv ''phase6_ablation_v1'' ''multiclass_variant_summary.csv'' = Inr multiclass"
    and reread: "reads_back reread (summary_table NORMAL_HEADER (s_normal s)) normal"
      "reads_back reread (summary_table ANOMALY_BINARY_HEADER (s_binary s)) anomaly"
      "reads_back reread (summary_table ANOMALY_MULTICLASS_HEADER (s_multiclass s)) multi"
      "reads_back reread (BINARY_VARIANT_HEADER, map binary_summary vs) binary"
      "reads_back reread (MULTICLASS_VARIANT_HEADER, map multiclass_summary vs) multiclass"
    by (rule tables_read [OF tables])
  note made = tables_made [OF s vs reread]
  obtain out rows mrows counts mcounts where out: "write_all (phase6_tables normal anomaly multi binary multiclass) = (out, Inr ())"
    and shown: "map fst out = TABLE_NAMES" "snd (out ! 0) = Csv_Table (GENERALIZATION_BINARY_HEADER, rows)"
      "length rows = length (s_normal s) + length (s_binary s)"
      "\<forall>row \<in> set (take (length (s_normal s)) rows). scope_row ''normal'' row"
      "\<forall>row \<in> set (drop (length (s_normal s)) rows). scope_row ''anomaly'' row"
      "map (\<lambda>row. row ! 4) rows = map (\<lambda>c. Whole (int c)) counts" "sum_list counts = length ps"
      "snd (out ! 2) = Csv_Table (GENERALIZATION_MULTICLASS_HEADER, mrows)" "length mrows = length (s_multiclass s)"
      "map (\<lambda>row. row ! 3) mrows = map (\<lambda>c. Whole (int c)) mcounts"
      "sum_list mcounts = length (filter is_anomaly_label ps)"
    using made by (elim exE conjE)
  obtain copied where copied: "write_all (source_copies read_file) = (copied, Inr ())"
    and d: "dict_get (dict_update (filter (\<lambda>(n, _). n \<noteq> ''run_manifest.json'') old) copied) ''run_manifest.json'' = None"
      "\<forall>(dir, name, target) \<in> set SOURCE_COPIES. \<exists>c. read_file dir name = Inr c \<and>
       dict_get (dict_update (filter (\<lambda>(n, _). n \<noteq> ''run_manifest.json'') old) copied) target = Some (Copied c)"
    using sources_copied [OF sources, of old] by (elim exE conjE)
  have "phase6_export_main read_csv read_file old =
      (\<lparr>source_dir = dict_update (filter (\<lambda>(n, _). n \<noteq> ''run_manifest.json'') old) copied, table_files = out\<rparr>, Inr ())"
    unfolding phase6_export_main_def Let_def read bind_result_simps
      sum.case copied out case_prod_conv ..
  then show ?thesis
    using shown d by (intro exI conjI)
qed

subsection \<open>Witnesses\<close>

text \<open>Reading that keeps every float.\<close>

definition read_item :: "item \<Rightarrow> item" where
  "read_item i = (case i of Text s \<Rightarrow> if s \<in> set NA_TEXTS then Absent else i
     | Float d \<Rightarrow> if d = NaN then Absent else i | _ \<Rightarrow> i)"

definition read_table :: "table \<Rightarrow> table" where
  "read_table t = (fst t, map (map read_item) (snd t))"

lemma reads_back_table: "reads_back (\<lambda>d. d) t (read_table t)"
proof -
  have "reads_as (\<lambda>d. d) i (read_item i)" for i by (simp add: reads_as_def read_item_def split: item.split)
  then show ?thesis by (simp add: reads_back_def read_table_def list_all2_map2 list.rel_refl)
qed

definition demo_settings :: settings where
  "demo_settings = \<lparr>phase4_features = [], phase4_excluded = [],
     phase4_binary_config = JObj (forest_config (100, None, 1, None)),
     phase4_multiclass_config = JObj (forest_config (100, None, 1, None)), phase4_labels = [''a'']\<rparr>"

definition demo_run_variant :: "string \<Rightarrow> variant_result result" where
  "demo_run_variant = run_variant tables (demo_learner (0 :: int)) (demo_learner ''a'') demo_scorer demo_scorer demo_settings
     (one_window 0, one_window 0, one_window 0) ([''a''], [''a''], [''a'']) ([0], [0], [0])"

lemma demo_variant: "name \<in> set VARIANT_ORDER \<Longrightarrow> \<exists>v. demo_run_variant name = Inr v"
proof -
  assume name: "name \<in> set VARIANT_ORDER"
  let ?x = "\<lparr>rows_of = 1, cells_of = []\<rparr> :: tframe"
  have sel: "select tables [] (one_window 0) = Inr ?x" by (simp add: tables_def tselect_def one_window_def)
  have cs: "build_variant_columns (phase4_features demo_settings) name = Inr []"
    using name by (simp add: variant_columns_cases demo_settings_def)
  obtain bm where bm: "ablation_binary_metrics demo_scorer [0] (replicate 1 (0 :: int)) (replicate 1 (Fin 0)) = Inr bm"
    using demo_two_metrics(2) [of "[0]"] by blast
  have b: "binary_variant tables (demo_learner (0 :: int)) demo_scorer (phase4_binary_config demo_settings) []
      (one_window 0, one_window 0, one_window 0) [0] [0] [0] = Inr (bm, bm)"
    using bm demo_scores [of ?x 1] forest_params_config [of "(100, None, 1, None)"]
    by (simp add: binary_variant_def sel demo_settings_def) (simp add: demo_learner_def)
  have "\<exists>d. ablation_multiclass_metrics demo_scorer [''a''] [''a''] [''a''] = Inr d"
    by (simp add: ablation_multiclass_metrics_def class_report_def demo_scorer_def per_class_def class_entry_def
        item_at_def demo_share)
  then obtain mm where mm: "ablation_multiclass_metrics demo_scorer [''a''] [''a''] [''a''] = Inr mm" ..
  have an: "rows_of (anomaly_rows tables [''a''] ?x) = 1"
    by (simp add: anomaly_rows_def tables_def tloc_def NORMAL_LABEL_def)
  have m: "multiclass_variant tables (demo_learner ''a'') demo_scorer (phase4_multiclass_config demo_settings)
      (phase4_labels demo_settings) [] (one_window 0, one_window 0, one_window 0) [''a''] [''a''] [''a''] = Inr (mm, mm)"
    using mm an forest_params_config [of "(100, None, 1, None)"]
    by (simp add: multiclass_variant_def sel demo_settings_def demo_learner_def NORMAL_LABEL_def)
  obtain f pr bal where "metric bm ''anomaly_f1'' = Inr (JFloat f)" "metric bm ''pr_auc'' = Inr (JFloat pr)"
    "metric bm ''balanced_accuracy'' = Inr (JFloat bal)"
    using ablation_metrics_fields(1) [OF bm] by (elim exE conjE)
  moreover obtain g bal' where "metric mm ''macro_f1'' = Inr (JFloat g)" "metric mm ''balanced_accuracy'' = Inr (JFloat bal')"
    using ablation_metrics_fields(2) [OF mm] by (elim exE conjE)
  ultimately show ?thesis
    by (simp add: demo_run_variant_def run_variant_def cs b m summary_items_def)
qed

lemma demo_variants: "\<exists>vs. map_result demo_run_variant VARIANT_ORDER = Inr vs"
  by (intro map_result_exists ballI demo_variant)

theorem ablation_table_deltas_witness:
  "\<exists>vs brows. map_result demo_run_variant VARIANT_ORDER = Inr vs \<and>
     ablation_binary_rows (read_table (BINARY_VARIANT_HEADER, map binary_summary vs)) = Inr brows \<and>
     length brows = 5 \<and> hd (hd brows) = Text ''all_features''"
proof -
  obtain vs where vs: "map_result demo_run_variant VARIANT_ORDER = Inr vs" using demo_variants ..
  from ablation_table_deltas [OF vs [unfolded demo_run_variant_def] reads_back_table reads_back_table]
  show ?thesis using vs by blast
qed

lemma demo_groups: "\<exists>s. summaries_of demo_scorer demo_scorer [''a''] [demo_prediction] = Inr s"
proof -
  have "\<exists>r. normal_row ((''local'', ''low''), [demo_prediction]) = Inr r"
    using count_ratio_unit(1) [of 0 1] by (simp add: normal_row_def normal_group_metrics_def demo_prediction_def Let_def)
  then obtain r where r: "normal_row ((''local'', ''low''), [demo_prediction]) = Inr r" ..
  have "p_text demo_prediction ''scenario_family'' = ''normal''" "p_text demo_prediction ''label'' = ''normal''"
    "p_text demo_prediction ''topology'' = ''local''" "p_text demo_prediction ''load_tier'' = ''low''"
    by (simp_all add: demo_prediction_def p_text_def cell_simps)
  then show ?thesis
    using r by (simp add: summaries_of_def is_normal_family_def is_anomaly_label_def NORMAL_LABEL_def grouped_def
        group_by_eq uniq_def normal_key_def)
qed

text \<open>The file system of the demonstration: the written tables, and any source.\<close>

definition demo_read_csv :: "summaries \<Rightarrow> variant_result list \<Rightarrow> string \<Rightarrow> string \<Rightarrow> table result" where
  "demo_read_csv s vs dir name =
     (case filter (\<lambda>(d, n, t). d = dir \<and> n = name) (written_tables s vs) of
        [] \<Rightarrow> Inr ([], []) | (d, n, t) # _ \<Rightarrow> Inr (read_table t))"

lemma demo_reads:
  "\<forall>(dir, name, written) \<in> set (written_tables s vs). \<exists>t. demo_read_csv s vs dir name = Inr t \<and> reads_back (\<lambda>d. d) written t"
  by (simp add: written_tables_def demo_read_csv_def reads_back_table del: split_paired_Ex)

theorem phase6_export_complete_witness:
  "\<exists>read_csv d out rows. phase6_export_main read_csv (\<lambda>_ _. Inr []) [(''run_manifest.json'', Copied [])] =
       (\<lparr>source_dir = d, table_files = out\<rparr>, Inr ()) \<and> dict_get d ''run_manifest.json'' = None \<and> length out = 8 \<and>
     snd (out ! 0) = Csv_Table (GENERALIZATION_BINARY_HEADER, rows)"
proof -
  obtain s where s: "summaries_of demo_scorer demo_scorer [''a''] [demo_prediction] = Inr s" using demo_groups ..
  obtain vs where vs: "map_result demo_run_variant VARIANT_ORDER = Inr vs" using demo_variants ..
  have sources: "\<forall>(dir, name, target) \<in> set SOURCE_COPIES. \<exists>c. (\<lambda>_ _. Inr []) dir name = Inr c" by simp
  from phase6_export_complete [OF s vs [unfolded demo_run_variant_def] demo_reads sources,
      of "[(''run_manifest.json'', Copied [])]"]
  obtain d out rows where main: "phase6_export_main (demo_read_csv s vs) (\<lambda>_ _. Inr []) [(''run_manifest.json'', Copied [])] =
       (\<lparr>source_dir = d, table_files = out\<rparr>, Inr ())"
    and names: "map fst out = TABLE_NAMES"
    and gone: "dict_get d ''run_manifest.json'' = None"
    and csv: "snd (out ! 0) = Csv_Table (GENERALIZATION_BINARY_HEADER, rows)"
    by (elim exE conjE)
  have "length out = 8" using arg_cong [OF names, of length] by (simp only: length_map) (simp add: TABLE_NAMES_def)
  with main gone csv show ?thesis by (intro exI conjI)
qed

end
