(* ===== verification/Csv_Text.thy ===== *)
theory Csv_Text
  imports Csv_Rows Frames Float_Repr
begin

text \<open>
  The texts of CSV files: what \<open>csv.writer\<close> and \<open>csv.DictWriter\<close> write in the default dialect to a
  file opened with \<open>newline=''\<close>, and the state machine of \<open>csv.reader\<close>. A record ends with a carriage
  return and a line feed; a field is quoted when it contains a comma, a quote or a line break. The
  reader gets the file line by line and sees an end-of-line mark (\<open>None\<close> here) after each of them.
\<close>

abbreviation CR :: char where "CR \<equiv> CHR 0x0D"
abbreviation LF :: char where "LF \<equiv> CHR 0x0A"
abbreviation QUOTE :: char where "QUOTE \<equiv> CHR 0x22"

section \<open>Writing\<close>

definition needs_quotes :: "string \<Rightarrow> bool" where
  "needs_quotes f \<longleftrightarrow> list_ex (\<lambda>c. c \<in> {CHR '','', QUOTE, CR, LF}) f"

definition csv_quoted :: "string \<Rightarrow> string" where
  "csv_quoted f = QUOTE # replace_char QUOTE [QUOTE, QUOTE] f @ [QUOTE]"

definition csv_field :: "string \<Rightarrow> string" where
  "csv_field f = (if needs_quotes f then csv_quoted f else f)"

text \<open>A record of one empty field is written as a pair of quotes.\<close>

definition csv_record :: "string list \<Rightarrow> string" where
  "csv_record fs = (if fs = [[]] then csv_quoted [] else join '','' (map csv_field fs)) @ [CR, LF]"

definition csv_text :: "csv \<Rightarrow> string" where
  "csv_text f = concat (map csv_record f)"

text \<open>\<open>csv.writer\<close> writes \<open>repr\<close> of a float, nothing for \<open>None\<close> and \<open>str\<close> of everything else.\<close>

definition csv_cell :: "item \<Rightarrow> string" where
  "csv_cell i = (case i of Text s \<Rightarrow> s | Whole n \<Rightarrow> int_str n | Float d \<Rightarrow> float_repr d | Absent \<Rightarrow> [])"

definition write_csv :: "string list \<Rightarrow> item list list \<Rightarrow> string" where
  "write_csv header rows = csv_text (header # map (map csv_cell) rows)"

section \<open>Reading\<close>

datatype reader_mode = Start_Record | Start_Field | In_Field | In_Quoted_Field | Quote_In_Quoted_Field | Eat_Crnl

record reader_state =
  rd_mode :: reader_mode
  rd_field :: string
  rd_fields :: "string list"

definition FIELD_SIZE_LIMIT :: nat where
  "FIELD_SIZE_LIMIT = 131072"

definition add_char :: "char \<Rightarrow> reader_mode \<Rightarrow> reader_state \<Rightarrow> reader_state result" where
  "add_char c m st = (if FIELD_SIZE_LIMIT \<le> length (rd_field st) then Inl CsvError
     else Inr (st\<lparr>rd_mode := m, rd_field := rd_field st @ [c]\<rparr>))"

definition save_field :: "reader_mode \<Rightarrow> reader_state \<Rightarrow> reader_state" where
  "save_field m st = st\<lparr>rd_mode := m, rd_field := [], rd_fields := rd_fields st @ [rd_field st]\<rparr>"

text \<open>A line break, or the end of the line, outside quotes.\<close>

definition line_end :: "char option \<Rightarrow> reader_mode" where
  "line_end c = (if c = None then Start_Record else Eat_Crnl)"

definition at_break :: "char option \<Rightarrow> bool" where
  "at_break c \<longleftrightarrow> c \<in> {None, Some CR, Some LF}"

definition start_field :: "char option \<Rightarrow> reader_state \<Rightarrow> reader_state result" where
  "start_field c st =
     (if at_break c then Inr (save_field (line_end c) st)
      else if c = Some QUOTE then Inr (st\<lparr>rd_mode := In_Quoted_Field\<rparr>)
      else if c = Some (CHR '','') then Inr (save_field Start_Field st)
      else add_char (the c) In_Field st)"

definition reader_step :: "char option \<Rightarrow> reader_state \<Rightarrow> reader_state result" where
  "reader_step c st = (case rd_mode st of
      Start_Record \<Rightarrow>
        if c = None then Inr st else if at_break c then Inr (st\<lparr>rd_mode := Eat_Crnl\<rparr>) else start_field c st
    | Start_Field \<Rightarrow> start_field c st
    | In_Field \<Rightarrow>
        if at_break c then Inr (save_field (line_end c) st)
        else if c = Some (CHR '','') then Inr (save_field Start_Field st)
        else add_char (the c) In_Field st
    | In_Quoted_Field \<Rightarrow>
        if c = None then Inr st
        else if c = Some QUOTE then Inr (st\<lparr>rd_mode := Quote_In_Quoted_Field\<rparr>)
        else add_char (the c) In_Quoted_Field st
    | Quote_In_Quoted_Field \<Rightarrow>
        if c = Some QUOTE then add_char QUOTE In_Quoted_Field st
        else if c = Some (CHR '','') then Inr (save_field Start_Field st)
        else if at_break c then Inr (save_field (line_end c) st)
        else add_char (the c) In_Field st
    | Eat_Crnl \<Rightarrow>
        if c = None then Inr (st\<lparr>rd_mode := Start_Record\<rparr>)
        else if at_break c then Inr st
        else Inl CsvError)"

text \<open>
  The characters of a file with a mark after each line; a line ends after a line feed, after a
  carriage return that no line feed follows, and at the end of the file.
\<close>

fun marked :: "string \<Rightarrow> char option list" where
  "marked [] = []"
| "marked (c # cs) =
     Some c # (if c = LF \<or> c = CR \<and> take 1 cs \<noteq> [LF] \<or> cs = [] then [None] else []) @ marked cs"

text \<open>
  A record is complete when the reader is back in its first mode at the end of a line; at the end of
  the file an open quoted field is closed.
\<close>

definition fresh_reader :: reader_state where
  "fresh_reader = \<lparr>rd_mode = Start_Record, rd_field = [], rd_fields = []\<rparr>"

fun read_records :: "reader_state \<Rightarrow> char option list \<Rightarrow> csv result" where
  "read_records st [] = Inr (if rd_mode st = In_Quoted_Field \<or> rd_field st \<noteq> [] then [rd_fields st @ [rd_field st]] else [])"
| "read_records st (c # cs) = bind_result (reader_step c st) (\<lambda>st'.
     if c = None \<and> rd_mode st' = Start_Record
     then bind_result (read_records fresh_reader cs) (\<lambda>rs. Inr (rd_fields st' # rs))
     else read_records st' cs)"

definition read_csv :: "string \<Rightarrow> csv result" where
  "read_csv s = read_records fresh_reader (marked s)"

section \<open>One field\<close>

lemma marked_more: "c \<noteq> LF \<Longrightarrow> c \<noteq> CR \<Longrightarrow> t \<noteq> [] \<Longrightarrow> marked (c # t) = Some c # marked t"
  by simp

lemma marked_end: "marked (CR # LF # t) = Some CR # Some LF # None # marked t"
  by simp

lemma read_plain:
  assumes "\<not> needs_quotes f" and "t \<noteq> []" and "length (g @ f) \<le> FIELD_SIZE_LIMIT"
  shows "read_records \<lparr>rd_mode = In_Field, rd_field = g, rd_fields = acc\<rparr> (marked (f @ t)) =
    read_records \<lparr>rd_mode = In_Field, rd_field = g @ f, rd_fields = acc\<rparr> (marked t)"
  using assms
proof (induction f arbitrary: g)
  case (Cons c f)
  have c: "c \<notin> {CHR '','', QUOTE, CR, LF}" and f: "\<not> needs_quotes f" using Cons.prems(1) by (auto simp: needs_quotes_def)
  have "marked ((c # f) @ t) = Some c # marked (f @ t)" using c Cons.prems(2) by (simp add: marked_more)
  moreover have "reader_step (Some c) \<lparr>rd_mode = In_Field, rd_field = g, rd_fields = acc\<rparr> =
      Inr \<lparr>rd_mode = In_Field, rd_field = g @ [c], rd_fields = acc\<rparr>"
    using c Cons.prems(3) by (simp add: reader_step_def at_break_def add_char_def)
  ultimately show ?case using Cons.IH [of "g @ [c]"] Cons.prems f by simp
qed simp

lemma read_quoted:
  assumes "t \<noteq> []" and "length (g @ f) \<le> FIELD_SIZE_LIMIT"
  shows "read_records \<lparr>rd_mode = In_Quoted_Field, rd_field = g, rd_fields = acc\<rparr> (marked (replace_char QUOTE [QUOTE, QUOTE] f @ QUOTE # t)) =
    read_records \<lparr>rd_mode = Quote_In_Quoted_Field, rd_field = g @ f, rd_fields = acc\<rparr> (marked t)"
  using assms
proof (induction f arbitrary: g)
  case Nil
  then show ?case by (simp add: marked_more reader_step_def)
next
  case (Cons c f)
  let ?r = "replace_char QUOTE [QUOTE, QUOTE] f @ QUOTE # t"
  let ?st = "\<lambda>m h. \<lparr>rd_mode = m, rd_field = h, rd_fields = acc\<rparr>"
  have IH: "read_records (?st In_Quoted_Field (g @ [c])) (marked ?r) = read_records (?st Quote_In_Quoted_Field (g @ c # f)) (marked t)"
    using Cons.IH [of "g @ [c]"] Cons.prems by simp
  have room: "length g < FIELD_SIZE_LIMIT" using Cons.prems(2) by simp
  show ?case
  proof (cases "c = QUOTE")
    case True
    have "marked (QUOTE # QUOTE # ?r) = Some QUOTE # Some QUOTE # marked ?r" by simp
    then show ?thesis using IH True room by (simp add: reader_step_def add_char_def)
  next
    case False
    have "reader_step (Some c) (?st In_Quoted_Field g) = Inr (?st In_Quoted_Field (g @ [c]))"
      "reader_step None (?st In_Quoted_Field (g @ [c])) = Inr (?st In_Quoted_Field (g @ [c]))"
      using False room by (simp_all add: reader_step_def add_char_def)
    then show ?thesis using IH False by simp
  qed
qed

text \<open>The modes in which a comma or a line break ends the field read so far.\<close>

definition ends_field :: "reader_mode \<Rightarrow> bool" where
  "ends_field m \<longleftrightarrow> m \<in> {Start_Field, In_Field, Quote_In_Quoted_Field}"

lemma field_comma:
  assumes "ends_field m \<or> m = Start_Record" and "t \<noteq> []"
  shows "read_records \<lparr>rd_mode = m, rd_field = f, rd_fields = acc\<rparr> (marked (CHR '','' # t)) =
    read_records \<lparr>rd_mode = Start_Field, rd_field = [], rd_fields = acc @ [f]\<rparr> (marked t)"
  using assms by (auto simp: marked_more ends_field_def reader_step_def at_break_def start_field_def save_field_def)

lemma field_line:
  assumes "ends_field m"
  shows "read_records \<lparr>rd_mode = m, rd_field = f, rd_fields = acc\<rparr> (marked (CR # LF # t)) =
    bind_result (read_records fresh_reader (marked t)) (\<lambda>rs. Inr ((acc @ [f]) # rs))"
  unfolding marked_end using assms
  by (auto simp: ends_field_def reader_step_def at_break_def start_field_def save_field_def line_end_def)

text \<open>A field is read in full, and the next character ends it.\<close>

lemma read_field:
  assumes "m \<in> {Start_Record, Start_Field}" and "t \<noteq> []" and "length f \<le> FIELD_SIZE_LIMIT"
  shows "\<exists>m'. read_records \<lparr>rd_mode = m, rd_field = [], rd_fields = acc\<rparr> (marked (csv_field f @ t)) =
      read_records \<lparr>rd_mode = m', rd_field = f, rd_fields = acc\<rparr> (marked t) \<and> (ends_field m' \<or> f = [] \<and> m' = m)"
proof (cases "needs_quotes f")
  case True
  have "reader_step (Some QUOTE) \<lparr>rd_mode = m, rd_field = [], rd_fields = acc\<rparr> = Inr \<lparr>rd_mode = In_Quoted_Field, rd_field = [], rd_fields = acc\<rparr>"
    using assms(1) by (auto simp: reader_step_def at_break_def start_field_def)
  then have "read_records \<lparr>rd_mode = m, rd_field = [], rd_fields = acc\<rparr> (marked (csv_field f @ t)) =
      read_records \<lparr>rd_mode = Quote_In_Quoted_Field, rd_field = f, rd_fields = acc\<rparr> (marked t)"
    using True read_quoted [OF assms(2), of "[]" f acc] assms(3) by (simp add: csv_field_def csv_quoted_def)
  then show ?thesis by (auto simp: ends_field_def)
next
  case False
  show ?thesis
  proof (cases f)
    case Nil
    then show ?thesis by (intro exI [of _ m]) (simp add: csv_field_def needs_quotes_def)
  next
    case (Cons c f')
    have c: "c \<notin> {CHR '','', QUOTE, CR, LF}" and f': "\<not> needs_quotes f'" using False Cons by (auto simp: needs_quotes_def)
    have "reader_step (Some c) \<lparr>rd_mode = m, rd_field = [], rd_fields = acc\<rparr> = Inr \<lparr>rd_mode = In_Field, rd_field = [c], rd_fields = acc\<rparr>"
      using c assms(1) by (auto simp: reader_step_def at_break_def start_field_def add_char_def FIELD_SIZE_LIMIT_def)
    moreover have "marked (f @ t) = Some c # marked (f' @ t)" using c Cons assms(2) by (simp add: marked_more)
    ultimately have "read_records \<lparr>rd_mode = m, rd_field = [], rd_fields = acc\<rparr> (marked (csv_field f @ t)) =
        read_records \<lparr>rd_mode = In_Field, rd_field = f, rd_fields = acc\<rparr> (marked t)"
      using False Cons read_plain [OF f' assms(2), of "[c]" acc] assms(3) by (simp add: csv_field_def)
    then show ?thesis by (auto simp: ends_field_def)
  qed
qed

section \<open>Records and files\<close>

lemma read_record:
  assumes "fs \<noteq> []" and "m = Start_Field \<or> m = Start_Record \<and> fs \<noteq> [[]]" and "\<forall>f \<in> set fs. length f \<le> FIELD_SIZE_LIMIT"
  shows "read_records \<lparr>rd_mode = m, rd_field = [], rd_fields = acc\<rparr> (marked (join '','' (map csv_field fs) @ CR # LF # t)) =
    bind_result (read_records fresh_reader (marked t)) (\<lambda>rs. Inr ((acc @ fs) # rs))"
  using assms
proof (induction fs arbitrary: m acc rule: induct_list012)
  case (2 f)
  then obtain m' where "read_records \<lparr>rd_mode = m, rd_field = [], rd_fields = acc\<rparr> (marked (csv_field f @ CR # LF # t)) =
      read_records \<lparr>rd_mode = m', rd_field = f, rd_fields = acc\<rparr> (marked (CR # LF # t))" "ends_field m'"
    using read_field [of m "CR # LF # t" f acc] by (auto simp: ends_field_def)
  then show ?case using field_line by simp
next
  case (3 f f' fs)
  let ?t = "join '','' (map csv_field (f' # fs)) @ CR # LF # t"
  obtain m' where r: "read_records \<lparr>rd_mode = m, rd_field = [], rd_fields = acc\<rparr> (marked (csv_field f @ CHR '','' # ?t)) =
      read_records \<lparr>rd_mode = m', rd_field = f, rd_fields = acc\<rparr> (marked (CHR '','' # ?t))" "ends_field m' \<or> m' = Start_Record"
    using read_field [of m "CHR '','' # ?t" f acc] 3 by (auto simp: ends_field_def)
  have "read_records \<lparr>rd_mode = m', rd_field = f, rd_fields = acc\<rparr> (marked (CHR '','' # ?t)) =
      read_records \<lparr>rd_mode = Start_Field, rd_field = [], rd_fields = acc @ [f]\<rparr> (marked ?t)"
    using r(2) by (intro field_comma) simp_all
  also have "\<dots> = bind_result (read_records fresh_reader (marked t)) (\<lambda>rs. Inr (((acc @ [f]) @ f' # fs) # rs))"
    using 3 by (intro 3(2)) simp_all
  finally show ?case using r(1) by simp
qed simp

lemma read_csv_record:
  assumes "\<forall>f \<in> set fs. length f \<le> FIELD_SIZE_LIMIT"
  shows "read_csv (csv_record fs @ t) = bind_result (read_csv t) (\<lambda>rs. Inr (fs # rs))"
proof -
  consider "fs = []" | "fs = [[]]" | "fs \<noteq> []" "fs \<noteq> [[]]" by blast
  then show ?thesis
  proof cases
    case 1
    then show ?thesis
      unfolding read_csv_def csv_record_def by (simp add: fresh_reader_def reader_step_def at_break_def)
  next
    case 2
    have "csv_quoted [] = csv_field [] @ [QUOTE, QUOTE]" by (simp add: csv_quoted_def csv_field_def needs_quotes_def)
    then show ?thesis using 2
      unfolding read_csv_def csv_record_def
      by (simp add: csv_quoted_def fresh_reader_def reader_step_def at_break_def start_field_def save_field_def line_end_def)
  next
    case 3
    then show ?thesis using read_record [of fs Start_Record "[]" t] assms
      by (simp add: read_csv_def csv_record_def fresh_reader_def)
  qed
qed

lemma read_csv_text:
  "\<forall>fs \<in> set f. \<forall>x \<in> set fs. length x \<le> FIELD_SIZE_LIMIT \<Longrightarrow> read_csv (csv_text f) = Inr f"
proof (induction f)
  case Nil
  show ?case by (simp add: read_csv_def csv_text_def fresh_reader_def)
next
  case (Cons fs f)
  then show ?case using read_csv_record [of fs "csv_text f"] by (simp add: csv_text_def)
qed

interpretation csv_file: text_format csv_text "\<lambda>s. case read_csv s of Inr f \<Rightarrow> Some f | Inl _ \<Rightarrow> None"
    "\<lambda>f. \<forall>fs \<in> set f. \<forall>x \<in> set fs. length x \<le> FIELD_SIZE_LIMIT" "\<lambda>f. f"
  by unfold_locales (simp add: read_csv_text)

section \<open>Files of rows\<close>

text \<open>\<open>list(csv.DictReader(handle))\<close>, and what a \<open>DictWriter\<close> leaves in the file.\<close>

definition load_rows :: "string \<Rightarrow> row list result" where
  "load_rows s = bind_result (read_csv s) (\<lambda>f. Inr (dict_reader f))"

definition dict_write_text :: "string list \<Rightarrow> row list \<Rightarrow> string \<times> unit result" where
  "dict_write_text header rows = (let (f, res) = dict_write header rows in (csv_text f, res))"

definition cells_fit :: "row \<Rightarrow> bool" where
  "cells_fit r \<longleftrightarrow> list_all (\<lambda>v. case v of None \<Rightarrow> True | Some c \<Rightarrow> length c \<le> FIELD_SIZE_LIMIT) (map snd (cols r))"

lemma row_cells_fit: "cells_fit r \<Longrightarrow> x \<in> set (row_cells header r) \<Longrightarrow> length x \<le> FIELD_SIZE_LIMIT"
  by (force simp: row_cells_def cells_fit_def list_all_iff row_get_def dict_get_def split: option.splits dest!: map_of_SomeD)

lemma load_written_rows:
  assumes "header \<noteq> []" and "list_all (row_fits header) rows" and "list_all cells_fit rows"
    and "\<forall>k \<in> set header. length k \<le> FIELD_SIZE_LIMIT"
  shows "\<exists>s. dict_write_text header rows = (s, Inr ()) \<and> load_rows s = Inr rows"
proof -
  let ?f = "header # map (row_cells header) rows"
  have "dict_write header rows = (?f, Inr ())" using assms(2) by (rule dict_write_fits)
  moreover have "read_csv (csv_text ?f) = Inr ?f"
    using assms(3,4) row_cells_fit by (intro read_csv_text) (auto simp: list_all_iff)
  moreover have "dict_reader ?f = rows" using assms(1,2) by (rule dict_reader_written)
  ultimately show ?thesis by (simp add: dict_write_text_def load_rows_def)
qed

section \<open>Properties\<close>

text \<open>C6: a CSV file holds the table that was written. Whatever commas, quotes and line breaks the cells
contain, reading the text of a table gives its header and the texts of its cells, provided no cell is
longer than the reader's field limit; and the text of a float cell is read as the same float.\<close>

theorem csv_file_roundtrip:
  assumes "\<forall>k \<in> set header. length k \<le> FIELD_SIZE_LIMIT"
    and "\<forall>row \<in> set rows. \<forall>i \<in> set row. length (csv_cell i) \<le> FIELD_SIZE_LIMIT \<and> (\<forall>d. i = Float d \<longrightarrow> is_double d)"
  shows "read_csv (write_csv header rows) = Inr (header # map (map csv_cell) rows) \<and>
    (\<forall>row \<in> set rows. \<forall>d. Float d \<in> set row \<longrightarrow> py_float (csv_cell (Float d)) = Some d)"
proof -
  have "read_csv (write_csv header rows) = Inr (header # map (map csv_cell) rows)"
    unfolding write_csv_def using assms by (intro read_csv_text) auto
  moreover have "py_float (csv_cell (Float d)) = Some d" if "row \<in> set rows" "Float d \<in> set row" for row d
    using assms(2) that py_float_repr by (fastforce simp: csv_cell_def)
  ultimately show ?thesis by blast
qed

lemma csv_file_roundtrip_witness:
  "read_csv (write_csv [''a'', ''b''] [[Text [QUOTE, CHR '','', LF], Float (Fin 0)]]) =
     Inr [[''a'', ''b''], [[QUOTE, CHR '','', LF], ''0.0'']]"
proof -
  have "\<forall>k \<in> set [''a'', ''b'']. length k \<le> FIELD_SIZE_LIMIT" by (simp add: FIELD_SIZE_LIMIT_def)
  moreover have "\<forall>row \<in> set [[Text [QUOTE, CHR '','', LF], Float (Fin 0)]]. \<forall>i \<in> set row.
      length (csv_cell i) \<le> FIELD_SIZE_LIMIT \<and> (\<forall>d. i = Float d \<longrightarrow> is_double d)"
    by (simp add: FIELD_SIZE_LIMIT_def csv_cell_def float_repr_def)
  ultimately have "read_csv (write_csv [''a'', ''b''] [[Text [QUOTE, CHR '','', LF], Float (Fin 0)]]) =
      Inr ([''a'', ''b''] # map (map csv_cell) [[Text [QUOTE, CHR '','', LF], Float (Fin 0)]])"
    by (intro conjunct1 [OF csv_file_roundtrip])
  then show ?thesis by (simp add: csv_cell_def float_repr_def)
qed

end
