(* ===== verification/Paper_Figures.thy ===== *)
theory Paper_Figures
  imports Paper_Phase5 Paper_Phase6 Csv_Text
begin

text \<open>
  The figures of the three export scripts. A figure is what the script asks matplotlib to draw: a list
  of panels, each the list of its elements in the order of the calls; colours, font sizes, rotations
  and file resolution are left out. The positions matplotlib gives the bars it drew, and the mean of
  a group pandas computes, are parameters.
\<close>

section \<open>Drawings\<close>

datatype drawing =
    Heat_Map "int list list"
  | Bars "dbl list" "dbl list" string
  | Named_Bars "item list" "dbl list"
  | Curve "item list" "item list" string
  | Note dbl dbl string
  | Title string
  | X_Label string
  | Y_Label string
  | X_Ticks "dbl list" "string list"
  | Y_Ticks "dbl list" "string list"
  | Y_Range dbl "dbl option"
  | Base_Line dbl
  | Grid_Lines
  | Legend

type_synonym figure = "drawing list list"

definition positions :: "nat \<Rightarrow> dbl list" where
  "positions n = map (\<lambda>i. dbl_of_int (int i)) [0..<n]"

section \<open>Phase 4\<close>

text \<open>\<open>np.array(rows, dtype=int)\<close> and \<open>imshow\<close> of the result.\<close>

definition int_array :: "int list list \<Rightarrow> int list list result" where
  "int_array rows =
     (if list_ex (\<lambda>r. length r \<noteq> length (hd rows)) rows then Inl ValueError
      else if list_ex (list_ex (\<lambda>n. n < - (2 ^ 63) \<or> 2 ^ 63 \<le> n)) rows then Inl OverflowError
      else Inr rows)"

definition int_of_text :: "string \<Rightarrow> int result" where
  "int_of_text s = (case py_int s of None \<Rightarrow> Inl ValueError | Some n \<Rightarrow> Inr n)"

definition remove_text :: "string \<Rightarrow> string \<Rightarrow> string" where
  "remove_text p s = replace_str p [] (length s) s"

definition cell_notes :: "int list list \<Rightarrow> drawing list" where
  "cell_notes matrix = concat (map (\<lambda>i. map (\<lambda>j.
     Note (dbl_of_int (int j)) (dbl_of_int (int i)) (int_str (matrix ! i ! j))) [0..<length (hd matrix)]) [0..<length matrix])"

definition confusion_figure :: "csv \<Rightarrow> string \<Rightarrow> figure result" where
  "confusion_figure matrix_rows title =
     (let rows = drop 1 matrix_rows in
      bind_result (map_result (\<lambda>row. item_at row 0) rows) (\<lambda>firsts.
      bind_result (map_result (\<lambda>row. map_result int_of_text (drop 1 row)) rows) (\<lambda>values.
      bind_result (int_array values) (\<lambda>matrix.
        if matrix = [] then Inl TypeError
        else (let labels = map (remove_text ''true:'') firsts; ticks = positions (length labels) in
          Inr [[Heat_Map matrix, Title title, X_Label ''Predicted label'', Y_Label ''True label'',
            X_Ticks ticks labels, Y_Ticks ticks labels] @ cell_notes matrix])))))"

text \<open>Sorted by falling score; \<open>sorted(..., reverse=True)\<close> keeps the order of equal ones.\<close>

definition per_class_figure :: "(nat \<Rightarrow> dbl \<times> dbl) \<Rightarrow> (string \<times> json) list \<Rightarrow> figure result" where
  "per_class_figure bar classes =
     bind_result (map_result (\<lambda>(label, j). bind_result (json_dict j) (\<lambda>d.
       bind_result (metric_float d ''f1'') (\<lambda>f. Inr (label, f)))) classes) (\<lambda>pairs.
     let items = py_sorted (\<lambda>a b. dlt (snd b) (snd a)) pairs;
         labels = map fst items; values = map snd items; ticks = positions (length labels) in
     bind_result (map_result (\<lambda>(i, value). bind_result (ddiv (snd (bar i)) (Fin 2)) (\<lambda>half.
       Inr (Note (dadd (fst (bar i)) half) (dadd value (rnd (2 / 100))) (fmt_fixed 3 value)))) (enumerate 0 values)) (\<lambda>notes.
     Inr [[Bars ticks values [], Title ''Per-class F1 on multiclass test split'', Y_Label ''F1 score'',
       Y_Range (Fin 0) (Some (Fin 1)), X_Ticks ticks labels] @ notes @ [Grid_Lines]]))"

text \<open>The figures \<open>main\<close> draws after the tables.\<close>

definition confusion_png :: "(string \<Rightarrow> string result) \<Rightarrow> string \<Rightarrow> string \<Rightarrow> figure result" where
  "confusion_png read_file name title =
     bind_result (bind_result (read_file name) read_csv) (\<lambda>matrix_rows. confusion_figure matrix_rows title)"

definition phase4_figures ::
  "(string \<Rightarrow> string result) \<Rightarrow> (nat \<Rightarrow> dbl \<times> dbl) \<Rightarrow> (string \<times> json) list \<Rightarrow> (string \<times> figure result) list" where
  "phase4_figures read_file bar classes =
     [(''fig_phase4_binary_confusion.png'',
        confusion_png read_file ''binary_confusion_matrix.csv'' ''Binary confusion matrix on the test split''),
      (''fig_phase4_multiclass_confusion.png'',
        confusion_png read_file ''multiclass_confusion_matrix.csv'' ''Multiclass confusion matrix on the test split''),
      (''fig_phase4_per_class_f1.png'', per_class_figure bar classes)]"

section \<open>Phase 5\<close>

definition matrix_labels :: "matrix_row list \<Rightarrow> string list" where
  "matrix_labels rows = map (\<lambda>r. m_topology r @ ''/'' @ m_telemetry r) rows"

definition bar_width :: dbl where
  "bar_width = rnd (35 / 100)"

text \<open>Two groups of bars, half a width to the left and to the right of the tick.\<close>

definition paired_bars :: "matrix_row list \<Rightarrow> (matrix_row \<Rightarrow> dbl) \<Rightarrow> string \<Rightarrow> (matrix_row \<Rightarrow> dbl) \<Rightarrow> string \<Rightarrow> drawing list result" where
  "paired_bars rows left left_name right right_name =
     bind_result (ddiv bar_width (Fin 2)) (\<lambda>half.
     let x = positions (length rows) in
     Inr [Bars (map (\<lambda>p. dsub p half) x) (map left rows) left_name,
       Bars (map (\<lambda>p. dadd p half) x) (map right rows) right_name])"

definition paired_panel ::
  "matrix_row list \<Rightarrow> (matrix_row \<Rightarrow> dbl) \<Rightarrow> string \<Rightarrow> (matrix_row \<Rightarrow> dbl) \<Rightarrow> string \<Rightarrow> string \<Rightarrow> string \<Rightarrow> drawing list result" where
  "paired_panel rows left left_name right right_name title y_label =
     bind_result (paired_bars rows left left_name right right_name) (\<lambda>bars.
       Inr (bars @ [Title title, Y_Label y_label, X_Ticks (positions (length rows)) (matrix_labels rows), Legend, Grid_Lines]))"

definition phase5_figures :: "matrix_row list \<Rightarrow> (string \<times> figure) list result" where
  "phase5_figures rows =
     (let x = positions (length rows) in
      bind_result (paired_panel rows m_p50 ''p50'' m_p99 ''p99'' ''Latency by scenario'' ''Milliseconds'') (\<lambda>latency.
      bind_result (paired_panel rows m_node1 ''worker1 node'' m_node2 ''worker2 node'' ''Node CPU by scenario'' ''CPU %'') (\<lambda>node.
      bind_result (paired_panel rows m_agent1 ''worker1 agent'' m_agent2 ''worker2 agent'' ''Agent CPU by scenario''
          ''CPU % of one core'') (\<lambda>agent.
        Inr [(''fig_phase5_throughput_latency.png'',
            [[Bars x (map m_throughput rows) [], Title ''Throughput by scenario'', Y_Label ''Requests per second'',
              X_Ticks x (matrix_labels rows), Grid_Lines], latency]),
          (''fig_phase5_cpu_overhead.png'', [node, agent])]))))"

section \<open>Phase 6\<close>

definition LOAD_ORDER :: "string list" where
  "LOAD_ORDER = [''low'', ''medium'', ''high'']"

text \<open>\<open>pd.Categorical\<close>: a value that is no category is missing, and sorts last. pandas promises no order
  among equal tiers; the tables have one row per topology and tier.\<close>

definition tier_item :: "item \<Rightarrow> item" where
  "tier_item i = (case i of Text s \<Rightarrow> if s \<in> set LOAD_ORDER then i else Absent | _ \<Rightarrow> Absent)"

definition tier_rank :: "item \<Rightarrow> nat" where
  "tier_rank i = (case i of Text s \<Rightarrow> length (takeWhile (\<lambda>t. t \<noteq> s) LOAD_ORDER) | _ \<Rightarrow> length LOAD_ORDER)"

definition tier_curve :: "(item \<times> item) list \<Rightarrow> string \<Rightarrow> drawing" where
  "tier_curve points topology =
     (let ps = sort_key (\<lambda>p. tier_rank (fst p)) (map (apfst tier_item) points)
      in Curve (map fst ps) (map snd ps) topology)"

definition needs_columns :: "string list \<Rightarrow> table \<Rightarrow> unit result" where
  "needs_columns cs t = (case List.find (\<lambda>c. c \<notin> set (fst t)) cs of None \<Rightarrow> Inr () | Some c \<Rightarrow> Inl (KeyError c))"

definition point_cell :: "data_row \<Rightarrow> string \<Rightarrow> item" where
  "point_cell r c = dict_get_or Absent r c"

definition rate_points :: "table \<Rightarrow> string \<Rightarrow> (item \<times> item) list" where
  "rate_points t topology = map (\<lambda>r. (point_cell r ''load_tier'', point_cell r ''false_positive_rate''))
     (filter (\<lambda>r. point_cell r ''topology'' = Text topology) (frame_rows t))"

text \<open>\<open>groupby(["topology", "load_tier"])["anomaly_f1"].mean()\<close>, restricted to a topology: a group per tier
  that occurs, in the order of the tiers' names. The tiers are a column of texts, and the scores one of
  numbers, of which the mean leaves out the missing ones.\<close>

definition score_of :: "data_row \<Rightarrow> dbl list" where
  "score_of r = (case point_cell r ''anomaly_f1'' of Float d \<Rightarrow> [d] | Whole n \<Rightarrow> [dbl_of_int n] | _ \<Rightarrow> [])"

definition group_tiers :: "data_row list \<Rightarrow> string list" where
  "group_tiers rows = uniq (sort (concat (map (\<lambda>r. case point_cell r ''load_tier'' of Text s \<Rightarrow> [s] | _ \<Rightarrow> []) rows)))"

definition mean_points :: "(dbl list \<Rightarrow> dbl) \<Rightarrow> table \<Rightarrow> string \<Rightarrow> (item \<times> item) list" where
  "mean_points mean t topology =
     (let rows = filter (\<lambda>r. point_cell r ''topology'' = Text topology) (frame_rows t) in
      map (\<lambda>tier. (Text tier, Float (mean (concat (map score_of
        (filter (\<lambda>r. point_cell r ''load_tier'' = Text tier) rows)))))) (group_tiers rows))"

definition generalization_figure :: "(dbl list \<Rightarrow> dbl) \<Rightarrow> table \<Rightarrow> table \<Rightarrow> figure result" where
  "generalization_figure mean normal anomaly =
     bind_result (needs_columns [''topology'', ''load_tier'', ''false_positive_rate''] normal) (\<lambda>_.
     bind_result (needs_columns [''topology'', ''load_tier'', ''anomaly_f1''] anomaly) (\<lambda>_.
       Inr [map (\<lambda>topology. tier_curve (rate_points normal topology) topology) [''local'', ''remote''] @
           [Title ''Normal-window false positive rate'', Y_Label ''False positive rate'', Y_Range (Fin 0) None, Grid_Lines, Legend],
         map (\<lambda>topology. tier_curve (mean_points mean anomaly topology) topology) [''local'', ''remote''] @
           [Title ''Anomaly binary F1 by load'', Y_Label ''Anomaly F1'', Y_Range (Fin 0) (Some (Fin 1)), Grid_Lines, Legend]]))"

text \<open>A column minus the value of the row with all features; a column of texts has no difference.\<close>

definition drop_vs_all :: "dbl \<Rightarrow> string \<Rightarrow> data_row \<Rightarrow> dbl result" where
  "drop_vs_all all c r = bind_result (dict_index r c) (\<lambda>i. case i of
      Text _ \<Rightarrow> Inl TypeError | _ \<Rightarrow> bind_result (item_float i) (\<lambda>d. Inr (dsub d all)))"

definition ablation_panel :: "table \<Rightarrow> string \<Rightarrow> dbl \<Rightarrow> string \<Rightarrow> string \<Rightarrow> drawing list result" where
  "ablation_panel t c all title y_label =
     bind_result (map_result (drop_vs_all all c) (frame_rows t)) (\<lambda>drops.
     bind_result (map_result (\<lambda>r. kept_cell r ''variant'') (frame_rows t)) (\<lambda>variants.
       Inr [Named_Bars variants drops, Title title, Y_Label y_label, Base_Line (Fin 0), Grid_Lines]))"

definition ablation_figure :: "table \<Rightarrow> table \<Rightarrow> figure result" where
  "ablation_figure binary multiclass =
     bind_result (baseline binary ''test_anomaly_f1'') (\<lambda>binary_all.
     bind_result (baseline multiclass ''test_macro_f1'') (\<lambda>multiclass_all.
     bind_result (ablation_panel binary ''test_anomaly_f1'' binary_all ''Binary ablation delta vs all features''
       ''Test anomaly F1 delta'') (\<lambda>left.
     bind_result (ablation_panel multiclass ''test_macro_f1'' multiclass_all ''Multiclass ablation delta vs all features''
       ''Test macro-F1 delta'') (\<lambda>right. Inr [left, right]))))"

definition phase6_figures :: "(dbl list \<Rightarrow> dbl) \<Rightarrow> table \<Rightarrow> table \<Rightarrow> table \<Rightarrow> table \<Rightarrow> (string \<times> figure result) list" where
  "phase6_figures mean normal anomaly_binary binary_ablation multiclass_ablation =
     [(''fig_phase6_generalization_trend.png'', generalization_figure mean normal anomaly_binary),
      (''fig_phase6_ablation_drop.png'', ablation_figure binary_ablation multiclass_ablation)]"

section \<open>The overhead figures\<close>

text \<open>Both figures are always drawn, and the heights of every group of bars are a column of the matrix.\<close>

lemma half_bar_width: "\<exists>h. ddiv bar_width (Fin 2) = Inr h"
  by (simp add: ddiv_def Let_def is_zero_def)

lemma overhead_figures_show_matrix:
  "\<exists>figures. phase5_figures rows = Inr figures \<and>
    (\<forall>fig \<in> set figures. \<forall>panel \<in> set (snd fig). \<forall>xs ys name. Bars xs ys name \<in> set panel \<longrightarrow>
      length xs = length rows \<and> (\<exists>c \<in> {3, 4, 5, 7, 8, 9, 10}. map Float ys = map (\<lambda>r. matrix_cells r ! c) rows))"
proof -
  obtain h where "ddiv bar_width (Fin 2) = Inr h" using half_bar_width ..
  then show ?thesis
    by (simp add: phase5_figures_def paired_panel_def paired_bars_def Let_def positions_def matrix_cells_def comp_def) (elim exE disjE conjE | intro conjI allI impI | simp add: comp_def)+
qed

section \<open>The generalization figure\<close>

definition tiers_of :: "table \<Rightarrow> string \<Rightarrow> string set" where
  "tiers_of t topology = {s. \<exists>r \<in> set (frame_rows t). point_cell r ''topology'' = Text topology \<and> point_cell r ''load_tier'' = Text s}"

definition tier_scores :: "table \<Rightarrow> string \<Rightarrow> string \<Rightarrow> dbl list" where
  "tier_scores t topology tier = concat (map score_of (filter (\<lambda>r. point_cell r ''topology'' = Text topology \<and>
     point_cell r ''load_tier'' = Text tier) (frame_rows t)))"

lemma mean_points_groups:
  obtains tiers where "distinct tiers" and "set tiers = tiers_of t topology"
    and "mean_points mean t topology = map (\<lambda>s. (Text s, Float (mean (tier_scores t topology s)))) tiers"
proof
  let ?rows = "filter (\<lambda>r. point_cell r ''topology'' = Text topology) (frame_rows t)"
  show "distinct (group_tiers ?rows)" by (simp add: group_tiers_def)
  show "set (group_tiers ?rows) = tiers_of t topology"
    by (force simp: group_tiers_def tiers_of_def split: item.splits)
  show "mean_points mean t topology = map (\<lambda>s. (Text s, Float (mean (tier_scores t topology s)))) (group_tiers ?rows)"
    by (simp add: mean_points_def tier_scores_def Let_def conj_commute)
qed

lemma tier_rank_order: "tier_rank (Text ''low'') = 0" "tier_rank (Text ''medium'') = 1" "tier_rank (Text ''high'') = 2"
  by (simp_all add: tier_rank_def LOAD_ORDER_def)

lemma tier_rank_inj: "inj_on (\<lambda>s. tier_rank (Text s)) (set LOAD_ORDER)"
  by (simp add: LOAD_ORDER_def tier_rank_order)

lemma sorted_tiers: "sorted (map (\<lambda>s. tier_rank (Text s)) (filter P LOAD_ORDER))"
  by (simp add: LOAD_ORDER_def tier_rank_order)

lemma tier_curve_order:
  assumes "distinct tiers" and "set tiers \<subseteq> set LOAD_ORDER"
  shows "tier_curve (map (\<lambda>s. (Text s, v s)) tiers) topology =
    Curve (map Text (filter (\<lambda>s. s \<in> set tiers) LOAD_ORDER)) (map v (filter (\<lambda>s. s \<in> set tiers) LOAD_ORDER)) topology"
proof -
  let ?point = "\<lambda>s. (Text s, v s)" and ?kept = "filter (\<lambda>s. s \<in> set tiers) LOAD_ORDER"
  have "map (apfst tier_item) (map ?point tiers) = map ?point tiers"
    using assms(2) by (auto simp: tier_item_def)
  moreover have "sort_key (\<lambda>p. tier_rank (fst p)) (map ?point tiers) = map ?point ?kept"
  proof (rule sort_key_inj_key_eq)
    have "set tiers = set ?kept" using assms(2) by auto
    then have "mset tiers = mset ?kept"
      using assms(1) set_eq_iff_mset_eq_distinct [of tiers ?kept] by (simp add: LOAD_ORDER_def)
    then show "mset (map ?point tiers) = mset (map ?point ?kept)" by (simp only: mset_map)
    show "inj_on (\<lambda>p. tier_rank (fst p)) (set (map ?point tiers))"
      using inj_on_subset [OF tier_rank_inj assms(2)] by (auto simp: inj_on_def)
    show "sorted (map (\<lambda>p. tier_rank (fst p)) (map ?point ?kept))"
      using sorted_tiers [of "\<lambda>s. s \<in> set tiers"] by (simp add: comp_def)
  qed
  ultimately show ?thesis by (simp only: tier_curve_def Let_def) (simp add: comp_def)
qed

section \<open>The ablation figure\<close>

lemma ablation_cells:
  assumes "\<forall>s. dict_get r c \<noteq> Some (Text s)"
  shows "cell_float r c = Inr f \<Longrightarrow> drop_vs_all all c r = Inr (dsub f all)"
  using assms by (auto simp: drop_vs_all_def cell_float_def bind_result_Inr dict_index_def split: item.splits option.splits)

lemma binary_row_shown:
  assumes "ablation_binary_row all r = Inr row" and "\<forall>s. dict_get r ''test_anomaly_f1'' \<noteq> Some (Text s)"
  shows "kept_cell r ''variant'' = Inr (hd row) \<and> (\<exists>d. drop_vs_all all ''test_anomaly_f1'' r = Inr d \<and> last row = Float d)"
  using assms ablation_cells [OF assms(2)] by (auto simp: ablation_binary_row_def bind_result_Inr)

lemma multiclass_row_shown:
  assumes "ablation_multiclass_row all r = Inr row" and "\<forall>s. dict_get r ''test_macro_f1'' \<noteq> Some (Text s)"
  shows "kept_cell r ''variant'' = Inr (hd row) \<and> (\<exists>d. drop_vs_all all ''test_macro_f1'' r = Inr d \<and> last row = Float d)"
  using assms ablation_cells [OF assms(2)] by (auto simp: ablation_multiclass_row_def bind_result_Inr)

lemma panel_shown:
  assumes "map_result (export all) (frame_rows t) = Inr rows"
    and "\<And>r row. r \<in> set (frame_rows t) \<Longrightarrow> export all r = Inr row \<Longrightarrow>
      kept_cell r ''variant'' = Inr (hd row) \<and> (\<exists>d. drop_vs_all all c r = Inr d \<and> last row = Float d)"
  shows "\<exists>ds. ablation_panel t c all title y = Inr [Named_Bars (map hd rows) ds, Title title, Y_Label y, Base_Line (Fin 0), Grid_Lines] \<and>
    map Float ds = map last rows"
proof -
  have "\<exists>ds. map_result (drop_vs_all all c) rs = Inr ds \<and> map_result (\<lambda>r. kept_cell r ''variant'') rs = Inr (map hd rows) \<and>
      map Float ds = map last rows"
    if "map_result (export all) rs = Inr rows" "set rs \<subseteq> set (frame_rows t)" for rs rows
    using that
  proof (induction rs arbitrary: rows)
    case (Cons r rs)
    then obtain row rows' where r: "export all r = Inr row" "map_result (export all) rs = Inr rows'" "rows = row # rows'"
      by (auto simp: bind_result_Inr)
    from Cons.IH [OF r(2)] Cons.prems(2) assms(2) [OF _ r(1)] show ?case by (fastforce simp: r(3))
  qed simp
  from this [OF assms(1)] show ?thesis by (auto simp: ablation_panel_def)
qed

section \<open>The confusion figures\<close>

lemma replace_none: "\<not> contains p s \<Longrightarrow> length s \<le> n \<Longrightarrow> replace_str p r n s = s"
proof (induction s arbitrary: n)
  case Nil
  show ?case by (cases n) simp_all
next
  case (Cons c s)
  then obtain m where "n = Suc m" by (cases n) auto
  then show ?case using Cons by simp
qed

lemma remove_prefix:
  assumes "\<not> contains ''true:'' l"
  shows "remove_text ''true:'' (''true:'' @ l) = l"
  using replace_none [OF assms, of "length l + 4" "[]"] by (simp add: remove_text_def numeral_eq_Suc)

lemma int_of_text_all: "map_result int_of_text (map int_str ns) = Inr ns"
  by (induction ns) (simp_all add: int_of_text_def)

lemma map_result_map: "(\<And>x. x \<in> set xs \<Longrightarrow> f (g x) = Inr (h x)) \<Longrightarrow> map_result f (map g xs) = Inr (map h xs)"
  by (induction xs) simp_all

definition square :: "'a list \<Rightarrow> int list list \<Rightarrow> bool" where
  "square labels matrix \<longleftrightarrow> length matrix = length labels \<and> (\<forall>r \<in> set matrix. length r = length labels)"

definition machine_int :: "int \<Rightarrow> bool" where
  "machine_int n \<longleftrightarrow> - (2 ^ 63) \<le> n \<and> n < 2 ^ 63"

lemma confusion_file:
  assumes "confusion_table matrix labels = Inr (header, rows)"
  shows "square labels matrix"
    and "map (map csv_cell) rows = map (\<lambda>(l, r). (''true:'' @ l) # map int_str r) (zip labels matrix)"
  using assms
  by (auto simp: confusion_table_def square_def list_ex_iff csv_cell_def comp_def split: if_splits)

lemma confusion_drawn:
  assumes table: "confusion_table matrix labels = Inr (header, rows)" and ne: "labels \<noteq> []"
    and names: "\<forall>l \<in> set labels. \<not> contains ''true:'' l" and ints: "\<forall>r \<in> set matrix. \<forall>n \<in> set r. machine_int n"
  shows "confusion_figure (header # map (map csv_cell) rows) title =
    Inr [[Heat_Map matrix, Title title, X_Label ''Predicted label'', Y_Label ''True label'',
      X_Ticks (positions (length labels)) labels, Y_Ticks (positions (length labels)) labels] @ cell_notes matrix]"
proof -
  let ?rows = "map (\<lambda>(l, r). (''true:'' @ l) # map int_str r) (zip labels matrix)"
  note written = confusion_file [OF table]
  have len: "length matrix = length labels" and wide: "\<forall>r \<in> set matrix. length r = length labels"
    using written(1) by (simp_all add: square_def)
  have "map_result (\<lambda>row. item_at row 0) ?rows = Inr (map (\<lambda>(l, r). ''true:'' @ l) (zip labels matrix))"
    by (intro map_result_map) (auto simp: item_at_def)
  also have "map (\<lambda>(l, r). ''true:'' @ l) (zip labels matrix) = map (\<lambda>l. ''true:'' @ l) labels"
  proof -
    have "map (\<lambda>(l, r). ''true:'' @ l) (zip labels matrix) = map (\<lambda>l. ''true:'' @ l) (map fst (zip labels matrix))"
      by (simp add: case_prod_beta' comp_def)
    then show ?thesis using len by simp
  qed
  finally have firsts: "map_result (\<lambda>row. item_at row 0) ?rows = Inr (map (\<lambda>l. ''true:'' @ l) labels)" .
  have "map_result (\<lambda>row. map_result int_of_text (drop 1 row)) ?rows = Inr (map snd (zip labels matrix))"
    by (intro map_result_map) (auto simp: int_of_text_all)
  then have counts: "map_result (\<lambda>row. map_result int_of_text (drop 1 row)) ?rows = Inr matrix" using len by simp
  have "matrix \<noteq> []" using ne len by auto
  moreover have "int_array matrix = Inr matrix"
    using wide ints \<open>matrix \<noteq> []\<close> by (auto simp: int_array_def list_ex_iff machine_int_def not_less [symmetric])
  moreover have "map (remove_text ''true:'') (map (\<lambda>l. ''true:'' @ l) labels) = labels"
    using names remove_prefix by (simp add: map_idI)
  ultimately show ?thesis
    using firsts counts by (simp add: confusion_figure_def written(2) Let_def)
qed

lemma cell_notes_all:
  assumes "square labels matrix"
  shows "set (cell_notes matrix) = {Note (dbl_of_int (int j)) (dbl_of_int (int i)) (int_str (matrix ! i ! j)) | i j.
      i < length labels \<and> j < length labels}"
    and "length (cell_notes matrix) = length labels * length labels"
proof -
  have len: "length matrix = length labels" using assms by (simp add: square_def)
  have hd: "length (hd matrix) = length labels" if "labels \<noteq> []"
  proof -
    have "matrix \<noteq> []" using that len by auto
    then show ?thesis using assms by (simp add: square_def)
  qed
  show "set (cell_notes matrix) = {Note (dbl_of_int (int j)) (dbl_of_int (int i)) (int_str (matrix ! i ! j)) | i j.
      i < length labels \<and> j < length labels}"
    using hd len by (cases "labels = []") (simp add: cell_notes_def, auto simp: cell_notes_def, blast)
  show "length (cell_notes matrix) = length labels * length labels"
    using hd len by (cases "labels = []") (simp_all add: cell_notes_def length_concat comp_def sum_list_triv)
qed

section \<open>Examples\<close>

definition example_binary :: table where
  "example_binary = ([''variant'', ''feature_count'', ''test_anomaly_f1'', ''test_pr_auc'', ''test_balanced_accuracy''],
     [[Text ''all_features'', Whole 21, Float (Fin (3/4)), Float (Fin (1/2)), Float (Fin (1/2))],
      [Text ''no_context'', Whole 18, Float (Fin (1/2)), Float (Fin (1/2)), Float (Fin (1/2))]])"

definition example_multiclass :: table where
  "example_multiclass = ([''variant'', ''feature_count'', ''test_macro_f1'', ''test_balanced_accuracy''],
     [[Text ''no_context'', Whole 18, Float (Fin (1/2)), Float (Fin (1/2))],
      [Text ''all_features'', Whole 21, Float (Fin (3/4)), Float (Fin (1/2))]])"

definition example_normal :: table where
  "example_normal = ([''topology'', ''load_tier'', ''false_positive_rate''], [[Text ''local'', Text ''low'', Float (Fin 0)]])"

definition example_anomaly :: table where
  "example_anomaly = ([''topology'', ''load_tier'', ''anomaly_f1''],
     [[Text ''local'', Text ''high'', Float (Fin 1)], [Text ''local'', Text ''low'', Float (Fin (1/2))]])"

section \<open>Properties\<close>

text \<open>C31: the ablation figure shows what the ablation tables say. When both tables can be made and the
scores are numbers, the bars of each panel are named by the first column of the exported table, in
its order, and are exactly as high as its last column, the difference to the full feature set.\<close>

theorem ablation_figure_shows_tables:
  assumes "ablation_binary_rows b = Inr rows" and "ablation_multiclass_rows m = Inr rows'"
    and "\<forall>r \<in> set (frame_rows b). \<forall>s. dict_get r ''test_anomaly_f1'' \<noteq> Some (Text s)"
    and "\<forall>r \<in> set (frame_rows m). \<forall>s. dict_get r ''test_macro_f1'' \<noteq> Some (Text s)"
  shows "\<exists>ds ds' left right. ablation_figure b m = Inr [Named_Bars (map hd rows) ds # left, Named_Bars (map hd rows') ds' # right] \<and>
    map Float ds = map last rows \<and> map Float ds' = map last rows'"
proof -
  from assms(1) obtain all where a: "baseline b ''test_anomaly_f1'' = Inr all"
    "map_result (ablation_binary_row all) (frame_rows b) = Inr rows"
    by (auto simp: ablation_binary_rows_def bind_result_Inr)
  from assms(2) obtain all' where a': "baseline m ''test_macro_f1'' = Inr all'"
    "map_result (ablation_multiclass_row all') (frame_rows m) = Inr rows'"
    by (auto simp: ablation_multiclass_rows_def bind_result_Inr)
  obtain ds where l: "ablation_panel b ''test_anomaly_f1'' all ''Binary ablation delta vs all features'' ''Test anomaly F1 delta'' =
      Inr [Named_Bars (map hd rows) ds, Title ''Binary ablation delta vs all features'', Y_Label ''Test anomaly F1 delta'',
        Base_Line (Fin 0), Grid_Lines]" "map Float ds = map last rows"
    using panel_shown [where export = ablation_binary_row, OF a(2)] binary_row_shown assms(3) by meson
  obtain ds' where r: "ablation_panel m ''test_macro_f1'' all' ''Multiclass ablation delta vs all features'' ''Test macro-F1 delta'' =
      Inr [Named_Bars (map hd rows') ds', Title ''Multiclass ablation delta vs all features'', Y_Label ''Test macro-F1 delta'',
        Base_Line (Fin 0), Grid_Lines]" "map Float ds' = map last rows'"
    using panel_shown [where export = ablation_multiclass_row, OF a'(2)] multiclass_row_shown assms(4) by meson
  show ?thesis
    by (rule exI [of _ ds], rule exI [of _ ds'], rule exI, rule exI, intro conjI l(2) r(2))
      (simp only: ablation_figure_def a(1) a'(1) bind_result_simps l(1) r(1))
qed

lemma ablation_figure_shows_tables_witness:
  "\<exists>brows mrows ds ds' left right.
     ablation_binary_rows example_binary = Inr brows \<and> ablation_multiclass_rows example_multiclass = Inr mrows \<and>
     ablation_figure example_binary example_multiclass =
       Inr [Named_Bars (map hd brows) ds # left, Named_Bars (map hd mrows) ds' # right] \<and>
     map Float ds = map last brows \<and> map Float ds' = map last mrows"
proof -
  note cells = frame_rows_def dict_get_def dict_index_def baseline_def cell_float_def item_float_def kept_cell_def int_cell_def float_cell_def
  have "\<exists>brows. ablation_binary_rows example_binary = Inr brows"
    by (simp add: ablation_binary_rows_def ablation_binary_row_def example_binary_def cells)
  then obtain brows where b: "ablation_binary_rows example_binary = Inr brows" ..
  have "\<exists>mrows. ablation_multiclass_rows example_multiclass = Inr mrows"
    by (simp add: ablation_multiclass_rows_def ablation_multiclass_row_def example_multiclass_def cells)
  then obtain mrows where m: "ablation_multiclass_rows example_multiclass = Inr mrows" ..
  have "\<forall>r \<in> set (frame_rows example_binary). \<forall>s. dict_get r ''test_anomaly_f1'' \<noteq> Some (Text s)"
    by (simp add: example_binary_def frame_rows_def dict_get_def)
  moreover have "\<forall>r \<in> set (frame_rows example_multiclass). \<forall>s. dict_get r ''test_macro_f1'' \<noteq> Some (Text s)"
    by (simp add: example_multiclass_def frame_rows_def dict_get_def)
  ultimately show ?thesis
    using ablation_figure_shows_tables [OF b m] b m by blast
qed

text \<open>C32: the generalization figure shows the mean score of each load tier. When the columns are there and
the tiers of a topology are known ones, its curve of the anomaly panel has one point for each tier that
occurs, in the order low, medium, high (not the order of the names that the grouping leaves), and the
height of a point is the mean over the scores of exactly the rows of that topology and tier.\<close>

theorem generalization_curves_show_means:
  assumes "{''topology'', ''load_tier'', ''false_positive_rate''} \<subseteq> set (fst normal)"
    and "{''topology'', ''load_tier'', ''anomaly_f1''} \<subseteq> set (fst anomaly)"
    and "\<forall>topology \<in> {''local'', ''remote''}. tiers_of anomaly topology \<subseteq> set LOAD_ORDER"
  shows "\<exists>left right. generalization_figure mean normal anomaly =
    Inr [left, map (\<lambda>topology. let tiers = filter (\<lambda>s. s \<in> tiers_of anomaly topology) LOAD_ORDER in
      Curve (map Text tiers) (map (\<lambda>s. Float (mean (tier_scores anomaly topology s))) tiers) topology) [''local'', ''remote''] @ right]"
proof -
  have curve: "tier_curve (mean_points mean anomaly topology) topology =
      (let tiers = filter (\<lambda>s. s \<in> tiers_of anomaly topology) LOAD_ORDER in
        Curve (map Text tiers) (map (\<lambda>s. Float (mean (tier_scores anomaly topology s))) tiers) topology)"
    if "topology \<in> {''local'', ''remote''}" for topology
  proof -
    obtain tiers where t: "distinct tiers" "set tiers = tiers_of anomaly topology"
      "mean_points mean anomaly topology = map (\<lambda>s. (Text s, Float (mean (tier_scores anomaly topology s)))) tiers"
      by (rule mean_points_groups)
    have "set tiers \<subseteq> set LOAD_ORDER" using bspec [OF assms(3) that] t(2) by simp
    then show ?thesis using tier_curve_order [OF t(1)] t(2, 3) by (simp add: Let_def)
  qed
  show ?thesis
    using assms(1, 2) by (simp add: generalization_figure_def needs_columns_def curve [simplified Let_def] Let_def)
qed

lemma generalization_curves_show_means_witness:
  "\<exists>left right. generalization_figure hd example_normal example_anomaly =
    Inr [left, [Curve [Text ''low'', Text ''high''] [Float (Fin (1/2)), Float (Fin 1)] ''local'', Curve [] [] ''remote''] @ right]"
proof -
  have sub: "{''topology'', ''load_tier'', ''false_positive_rate''} \<subseteq> set (fst example_normal)"
    "{''topology'', ''load_tier'', ''anomaly_f1''} \<subseteq> set (fst example_anomaly)"
    by (simp_all add: example_normal_def example_anomaly_def)
  have tiers: "tiers_of example_anomaly ''local'' = {''low'', ''high''}" "tiers_of example_anomaly ''remote'' = {}"
    by (auto simp: tiers_of_def example_anomaly_def frame_rows_def point_cell_def dict_get_or_def dict_get_def)
  have scores: "tier_scores example_anomaly ''local'' ''low'' = [Fin (1/2)]" "tier_scores example_anomaly ''local'' ''high'' = [Fin 1]"
    by (simp_all add: tier_scores_def score_of_def example_anomaly_def frame_rows_def point_cell_def dict_get_or_def dict_get_def)
  show ?thesis
    using generalization_curves_show_means [OF sub, where mean = hd]
    by (simp add: tiers scores LOAD_ORDER_def)
qed

text \<open>C30: the confusion figures show the confusion matrix of the test run. When the file holds the table
that the training wrote for a matrix of counts, the figure is drawn without an error: both axes carry
the class labels in their order, and for every true class i and predicted class j the number written
at column j of row i is the count of the matrix, with no other number on the figure.\<close>

theorem confusion_figure_shows_matrix:
  assumes "confusion_table matrix labels = Inr (header, rows)" and "labels \<noteq> []"
    and "\<forall>l \<in> set labels. \<not> contains ''true:'' l" and "\<forall>r \<in> set matrix. \<forall>n \<in> set r. machine_int n"
    and "bind_result (read_file name) read_csv = Inr (header # map (map csv_cell) rows)"
  shows "\<exists>ns. confusion_png read_file name title =
      Inr [[Heat_Map matrix, Title title, X_Label ''Predicted label'', Y_Label ''True label'',
        X_Ticks (positions (length labels)) labels, Y_Ticks (positions (length labels)) labels] @ ns] \<and>
    set ns = {Note (dbl_of_int (int j)) (dbl_of_int (int i)) (int_str (matrix ! i ! j)) | i j.
      i < length labels \<and> j < length labels} \<and> length ns = length labels * length labels"
  using confusion_drawn [OF assms(1-4)] cell_notes_all [OF confusion_file(1) [OF assms(1)]] assms(5)
  by (intro exI [of _ "cell_notes matrix"] conjI) (simp_all add: confusion_png_def)

lemma confusion_figure_shows_matrix_witness:
  "\<exists>header rows ns. confusion_table [[5, 1], [0, 7]] [NORMAL_LABEL, ANOMALY_LABEL] = Inr (header, rows) \<and>
     confusion_png (\<lambda>_. Inr (write_csv header rows)) ''m.csv'' ''t'' =
      Inr [[Heat_Map [[5, 1], [0, 7]], Title ''t'', X_Label ''Predicted label'', Y_Label ''True label'',
        X_Ticks (positions 2) [NORMAL_LABEL, ANOMALY_LABEL], Y_Ticks (positions 2) [NORMAL_LABEL, ANOMALY_LABEL]] @ ns] \<and>
     Note (dbl_of_int 1) (dbl_of_int 0) ''1'' \<in> set ns"
proof -
  let ?m = "[[5, 1], [0, 7]] :: int list list" and ?l = "[NORMAL_LABEL, ANOMALY_LABEL]"
  obtain header rows where t: "confusion_table ?m ?l = Inr (header, rows)"
    by (simp add: confusion_table_def)
  have "\<forall>f \<in> set (header # map (map csv_cell) rows). \<forall>x \<in> set f. length x \<le> FIELD_SIZE_LIMIT"
    using t by (auto simp: confusion_table_def NORMAL_LABEL_def ANOMALY_LABEL_def csv_cell_def int_str_def dec_str.simps
        FIELD_SIZE_LIMIT_def)
  then have r: "read_csv (write_csv header rows) = Inr (header # map (map csv_cell) rows)"
    unfolding write_csv_def by (rule read_csv_text)
  have f: "bind_result ((\<lambda>_. Inr (write_csv header rows)) ''m.csv'') read_csv = Inr (header # map (map csv_cell) rows)"
    by (simp only: r bind_result_simps)
  have "\<forall>l \<in> set ?l. \<not> contains ''true:'' l" by code_simp
  moreover have "\<forall>r \<in> set ?m. \<forall>n \<in> set r. machine_int n" by code_simp
  ultimately obtain ns where n: "confusion_png (\<lambda>_. Inr (write_csv header rows)) ''m.csv'' ''t'' =
      Inr [[Heat_Map ?m, Title ''t'', X_Label ''Predicted label'', Y_Label ''True label'',
        X_Ticks (positions (length ?l)) ?l, Y_Ticks (positions (length ?l)) ?l] @ ns]"
    "set ns = {Note (dbl_of_int (int j)) (dbl_of_int (int i)) (int_str (?m ! i ! j)) | i j. i < length ?l \<and> j < length ?l}"
    using confusion_figure_shows_matrix [where read_file = "\<lambda>_. Inr (write_csv header rows)" and name = "''m.csv''", OF t _ _ _ f] by blast
  have "int_str (?m ! 0 ! 1) = ''1''" by code_simp
  then have "Note (dbl_of_int 1) (dbl_of_int 0) ''1'' \<in> set ns"
    unfolding n(2) by (intro CollectI exI [of _ 0] exI [of _ 1]) simp
  then show ?thesis using t n(1) by (auto simp: numeral_2_eq_2)
qed

end
