(* ===== verification/Spec2Isabelle.thy ===== *)
theory Spec2Isabelle
  imports Dataset_Build Dataset_Split Dataset_Report Pipeline Stats_Dump Http_Bench Generalization Ablation
    Paper_Phase4 Paper_Phase5 Paper_Phase6 Paper_Figures Json_Text Csv_Text
begin

text \<open>
  The data pipeline of the NodePort telemetry project: the Python scripts under \<open>src/scripts\<close>, which
  turn the artifact directories of the fault-injection experiments into a labelled data set, train
  and evaluate anomaly detectors on it, measure the overhead of the telemetry, and export the tables
  of the paper.

  \<^bold>\<open>Parts and how they interact.\<close>
  \<^item> \<open>phase3_build_dataset.py\<close> reads the telemetry CSV files of every selected experiment and the traffic
    rows next to them, and writes \<open>windows_all.csv\<close>, an index of the experiments and a manifest
    (\<open>Dataset_Build\<close>: \<open>build_main\<close>, from \<open>add_node_csv\<close> and \<open>traffic_stats\<close> up).
  \<^item> \<open>phase3_split_dataset.py\<close> assigns each experiment to train, val or test and writes the split files
    (\<open>Dataset_Split\<close>: \<open>place_row\<close> to \<open>split_main\<close>); \<open>phase3_dataset_report.py\<close> checks and counts the result
    (\<open>Dataset_Report\<close>). \<open>Pipeline\<close> runs them one after the other: the splitter accepts what the builder
    writes, and the report the rates in it.
  \<^item> \<open>phase4_train_baselines.py\<close> makes the feature matrices (\<open>Features\<close>), runs the hand-written detector
    (\<open>Rule_Detector\<close>), tries the candidate models and chooses one per task (\<open>Candidates\<close>), scores them
    (\<open>Metrics\<close>) and writes tables, payloads and the run manifest (\<open>Baselines\<close>).
  \<^item> \<open>phase6_run_generalization.py\<close> applies the saved models to new experiments (\<open>Generalization\<close>);
    \<open>phase6_run_ablation.py\<close> reads the run manifest of the training and retrains without one group of
    features at a time (\<open>Ablation\<close>).
  \<^item> \<open>phase5_http_bench.py\<close> is the closed-loop HTTP benchmark (\<open>Http_Bench\<close>), \<open>dump_nodeport_stats_map.py\<close>
    reads the per-CPU counters of the data plane through bpftool (\<open>Stats_Dump\<close>).
  \<^item> \<open>phase4_\<close>, \<open>phase5_\<close> and \<open>phase6_export_paper_assets.py\<close> turn what the training run, the benchmark and
    the two studies wrote into the CSV and LaTeX tables of the paper (\<open>Latex_Tables\<close>, \<open>Paper_Phase4\<close>,
    \<open>Paper_Phase5\<close>, \<open>Paper_Phase6\<close>) and its figures (\<open>Paper_Figures\<close>).

  \<^bold>\<open>Below the components.\<close> \<open>Prelude\<close> has the exceptions (\<open>py_error\<close>, \<open>result\<close>), the insertion-ordered
  dictionary as an interface and as an association list, and grouping; \<open>Py_Order\<close> sorting and the first
  maximum over an arbitrary order; \<open>Py_Text\<close> strings, integer parsing and printing; \<open>Py_Float\<close> binary64
  with rounding, parsing and formatting, \<open>Float_Repr\<close> its shortest text; \<open>Csv_Rows\<close> dictionary readers
  and writers, \<open>Csv_Text\<close> the texts of CSV files; \<open>Py_Json\<close> decoded JSON, \<open>Json_Text\<close> the texts of JSON
  files; \<open>Frames\<close> the operations of a data frame. The models of the scripts exchange decoded values,
  except that the training export parses the texts it copies; the round trips of the two formats
  (\<open>json_file_roundtrip\<close>, \<open>csv_file_roundtrip\<close>) say that nothing is lost on the way through a file.

  \<^bold>\<open>How state and operations correspond.\<close> A script is a function from the files it reads (each a value
  or the exception reading it raises) and its arguments to the list of the files it wrote so far
  and an outcome: \<open>Inr ()\<close>, or the exception that ended it. Functions keep the names of the source. A
  dictionary is an association list in insertion order, a row of a CSV file the record \<open>row\<close>, a float
  a \<open>dbl\<close>, an int an \<open>int\<close>; the 64-bit counters of \<open>Stats_Dump\<close> are words. The threads of the benchmark
  are a step relation (\<open>bench_step\<close>, \<open>bench_run\<close>) over the workers' program counters, the lock, the
  shared list of rows and the clock; the environment chooses which worker steps and what it sees.

  \<^bold>\<open>What the lemmas show.\<close> For the data set: no window is lost, duplicated or mixed up between building
  and splitting, no experiment is in two splits, what exactly the splits and the report contain, and
  which inputs end with which exception. For training: the feature matrices do not depend on
  labels, identifiers and what else the design withholds, all three matrices share their columns, the rule detector fires as described, the grid
  search always ends with the first maximum, and exactly one candidate is marked as best. For the
  studies: identifiers are parsed back, predictions follow the models window by window, groups
  partition the windows, no result of a variant depends on the group of features it leaves out, and
  the variant with all features reproduces the metrics of the training. For the benchmark: every measured request is
  recorded once under every interleaving, the lock is held by one worker, workers stop at the deadline
  or by an exception of their connection object, and some worker can always step. For the counters:
  all are printed or none, and which exceptions escape. For the exports: escaping loses nothing, rows fit the columns, and the tables agree with what
  was measured; the training table shows the chosen model unless an earlier name of its family ties
  with it (\<open>best_model_exported\<close>), and shows no test metrics when one does
  (\<open>tied_best_model_not_exported\<close>). The figures show what the tables say: the counts of the confusion
  matrix, the columns of the overhead matrix, the differences of the ablation, the mean score of every load tier in the order of the
  tiers. The text formats read back what was written, floats to the last bit; the encoders and
  decoders of integers, floats, JSON and CSV are interpretations of one interface, \<open>text_format\<close>.

  \<^bold>\<open>Parameters and what is assumed of them.\<close> pandas is the record \<open>pandas\<close> with the laws of the locale
  \<open>data_frames\<close>, interpreted by the tables of \<open>Frames\<close>; the estimators of scikit-learn are the record
  \<open>learner\<close>, its scores the record \<open>scorer\<close>, with the few facts needed (\<open>counts_support\<close>, \<open>reads_columns\<close>)
  as named hypotheses; what \<open>pandas.read_csv\<close> makes of a written table is the relation \<open>reads_back\<close>.
  bpftool, HTTP responses, clocks and the scheduling of threads are inputs. A hypothesis of this
  kind is shown to be satisfiable by a witness on concrete tables, learners and scores.

  \<^bold>\<open>Bounds.\<close> Every loop of the scripts runs over a list, and the functions are total. Only the reader of
  JSON descends with fuel, twice the length of the text and two, which no text exhausts
  (\<open>enough_fuel\<close>). A field of a CSV file has at most \<open>FIELD_SIZE_LIMIT\<close> characters, as in the library.
  Where floats are counted or indexed, lists are bounded by \<open>2 ^ 53\<close>, below which the conversion of a
  length to a float is exact.

  \<^bold>\<open>Not modelled.\<close> The Go programs that produce the telemetry (\<open>src/cmd\<close>, \<open>src/internal\<close>), the eBPF
  program \<open>src/nodeport_tc.c\<close>, the shell drivers under \<open>src/experiments\<close> and the manifests are written in
  other languages. The README files of the exports are fixed texts, and of the figures only what is
  drawn is modelled, not colours, fonts and image files. The characters of a text are the code points
  below 256. Python's limits on the depth of recursion and on the digits of a printed or parsed
  integer are not modelled. The creation of directories, progress output and the time stamps, which are inputs, are
  below the level of the models. The copies of functions that several scripts share are modelled once;
  where the copies differ, each has its own definition.
\<close>

end
